theory Spec2Isabelle
  imports Main "HOL-Library.Word"
begin

unbundle bit_operations_syntax

section \<open>JLS: a shallow embedding of the writer and the reader\<close>

text \<open>
  The development follows \<^verbatim>\<open>src/writer.c\<close> and \<^verbatim>\<open>src/reader.c\<close>.
  Each C function is a HOL function of the same name that takes the object it mutates
  (\<^verbatim>\<open>struct jls_wr_s\<close>, \<^verbatim>\<open>struct jls_rd_s\<close>) and returns it updated.

  Conventions.
  \<^item> Fixed-width C integers are words (\<open>8 word\<close>, \<open>16 word\<close>, \<open>32 word\<close>); file offsets
    (\<^verbatim>\<open>int64_t\<close>, and the \<^verbatim>\<open>uint64_t\<close> link fields that hold them) are \<open>int\<close>: a file
    stays far below \<open>2^63\<close> bytes, so no offset wraps.
  \<^item> A pointer to bytes is the list of bytes of the object it points into, from the
    pointer to the end of the object; \<^verbatim>\<open>NULL\<close> is \<open>None\<close>. A C string literal
    \<^verbatim>\<open>"ab"\<close> is \<open>[97, 98, 0]\<close>.
  \<^item> A \<^verbatim>\<open>float\<close> is its 32-bit pattern: the code only copies samples.
  \<^item> A fixed-size array is a function from the index; the code checks the index
    against the array size itself, and where it does not the model does.
  \<^item> An execution that the C standard leaves undefined (a read or write outside an
    object, a \<^verbatim>\<open>NULL\<close> dereference) has the outcome \<open>Undefined\<close>.
  \<^item> \<^verbatim>\<open>malloc\<close> and \<^verbatim>\<open>calloc\<close> succeed, and file I/O does not fail.
\<close>

subsection \<open>Results\<close>

datatype jls_error =
    JLS_ERROR_NOT_ENOUGH_MEMORY
  | JLS_ERROR_NOT_SUPPORTED
  | JLS_ERROR_IO
  | JLS_ERROR_PARAMETER_INVALID
  | JLS_ERROR_EMPTY
  | JLS_ERROR_TOO_BIG
  | JLS_ERROR_NOT_FOUND
  | JLS_ERROR_ALREADY_EXISTS

text \<open>
  \<open>Success v s\<close>: the function returned 0, produced \<open>v\<close> and left the object as \<open>s\<close>.
  \<open>Failure e s\<close>: it returned the error code \<open>e\<close>; \<open>s\<close> is the object as the function
  left it when it returned. \<open>Undefined\<close>: undefined behaviour.
\<close>

datatype ('v, 's) res = Success 'v 's | Failure jls_error 's | Undefined

text \<open>The macro \<^verbatim>\<open>ROE(x)\<close>: return the error of \<open>x\<close>, continue otherwise.\<close>

definition roe :: "('v, 's) res \<Rightarrow> ('v \<Rightarrow> 's \<Rightarrow> ('w, 's) res) \<Rightarrow> ('w, 's) res" where
  "roe r f = (case r of Success v s \<Rightarrow> f v s | Failure e s \<Rightarrow> Failure e s | Undefined \<Rightarrow> Undefined)"

text \<open>A callee that works on a part \<open>p\<close> of the object \<open>s\<close>; \<open>put\<close> stores the part back.\<close>

definition lift_res :: "('p \<Rightarrow> 's) \<Rightarrow> ('v, 'p) res \<Rightarrow> ('v, 's) res" where
  "lift_res put r = (case r of Success v p \<Rightarrow> Success v (put p) | Failure e p \<Rightarrow> Failure e (put p)
                     | Undefined \<Rightarrow> Undefined)"

subsection \<open>Constants of \<^verbatim>\<open>jls/format.h\<close>\<close>

type_synonym byte = "8 word"

text \<open>
  Modelled from the spec: \<^verbatim>\<open>jls/format.h\<close> is not among the sources. The spec gives
  \<^verbatim>\<open>SOURCE_COUNT = 256\<close>, \<^verbatim>\<open>SIGNAL_COUNT = 256\<close>, \<^verbatim>\<open>SUMMARY_LEVEL_COUNT = 8\<close>, the track
  types \<^verbatim>\<open>FSR=0, VSR=1, ANNOTATION=2, UTC=3\<close>, the chunk kinds
  \<^verbatim>\<open>DEF=0, HEAD=1, DATA=2, INDEX=3, SUMMARY=4\<close>, the track tags
  \<^verbatim>\<open>0x20 | (track_type << 3) | chunk_kind\<close> and the storage types
  \<^verbatim>\<open>INVALID=0, BINARY=1, STRING=2, JSON=3\<close>. It names the tags \<^verbatim>\<open>USER_DATA\<close>,
  \<^verbatim>\<open>SOURCE_DEF\<close>, \<^verbatim>\<open>SIGNAL_DEF\<close>, the signal types and the data type \<^verbatim>\<open>F32\<close> without
  their values; the values below are placeholders for them, distinct from each other and
  from the track tags.
\<close>

definition JLS_SOURCE_COUNT :: nat where "JLS_SOURCE_COUNT = 256"
definition JLS_SIGNAL_COUNT :: nat where "JLS_SIGNAL_COUNT = 256"
definition JLS_SUMMARY_LEVEL_COUNT :: nat where "JLS_SUMMARY_LEVEL_COUNT = 8"

definition JLS_TRACK_TYPE_FSR :: nat where "JLS_TRACK_TYPE_FSR = 0"
definition JLS_TRACK_TYPE_VSR :: nat where "JLS_TRACK_TYPE_VSR = 1"
definition JLS_TRACK_TYPE_ANNOTATION :: nat where "JLS_TRACK_TYPE_ANNOTATION = 2"
definition JLS_TRACK_TYPE_UTC :: nat where "JLS_TRACK_TYPE_UTC = 3"

definition JLS_TRACK_CHUNK_DEF :: byte where "JLS_TRACK_CHUNK_DEF = 0"
definition JLS_TRACK_CHUNK_HEAD :: byte where "JLS_TRACK_CHUNK_HEAD = 1"
definition JLS_TRACK_CHUNK_DATA :: byte where "JLS_TRACK_CHUNK_DATA = 2"
definition JLS_TRACK_CHUNK_INDEX :: byte where "JLS_TRACK_CHUNK_INDEX = 3"
definition JLS_TRACK_CHUNK_SUMMARY :: byte where "JLS_TRACK_CHUNK_SUMMARY = 4"

definition JLS_TAG_SOURCE_DEF :: byte where "JLS_TAG_SOURCE_DEF = 0x01"
definition JLS_TAG_SIGNAL_DEF :: byte where "JLS_TAG_SIGNAL_DEF = 0x02"
definition JLS_TAG_USER_DATA :: byte where "JLS_TAG_USER_DATA = 0x40"

definition JLS_TAG_TRACK_FSR_DATA :: byte where "JLS_TAG_TRACK_FSR_DATA = 0x22"
definition JLS_TAG_TRACK_FSR_INDEX :: byte where "JLS_TAG_TRACK_FSR_INDEX = 0x23"
definition JLS_TAG_TRACK_FSR_SUMMARY :: byte where "JLS_TAG_TRACK_FSR_SUMMARY = 0x24"
definition JLS_TAG_TRACK_VSR_DATA :: byte where "JLS_TAG_TRACK_VSR_DATA = 0x2A"
definition JLS_TAG_TRACK_VSR_INDEX :: byte where "JLS_TAG_TRACK_VSR_INDEX = 0x2B"
definition JLS_TAG_TRACK_VSR_SUMMARY :: byte where "JLS_TAG_TRACK_VSR_SUMMARY = 0x2C"
definition JLS_TAG_TRACK_ANNOTATION_DATA :: byte where "JLS_TAG_TRACK_ANNOTATION_DATA = 0x32"
definition JLS_TAG_TRACK_UTC_DATA :: byte where "JLS_TAG_TRACK_UTC_DATA = 0x3A"

definition JLS_SIGNAL_TYPE_FSR :: byte where "JLS_SIGNAL_TYPE_FSR = 0"
definition JLS_SIGNAL_TYPE_VSR :: byte where "JLS_SIGNAL_TYPE_VSR = 1"

definition JLS_DATATYPE_F32 :: "32 word" where "JLS_DATATYPE_F32 = 0"

definition JLS_STORAGE_TYPE_INVALID :: int where "JLS_STORAGE_TYPE_INVALID = 0"
definition JLS_STORAGE_TYPE_BINARY :: int where "JLS_STORAGE_TYPE_BINARY = 1"
definition JLS_STORAGE_TYPE_STRING :: int where "JLS_STORAGE_TYPE_STRING = 2"
definition JLS_STORAGE_TYPE_JSON :: int where "JLS_STORAGE_TYPE_JSON = 3"

text \<open>\<^verbatim>\<open>struct jls_chunk_header_s\<close>, without the two CRC fields (the raw layer owns them).\<close>

record jls_chunk_header_s =
  item_next :: int
  item_prev :: int
  tag :: byte
  rsv0_u8 :: byte
  chunk_meta :: "16 word"
  payload_length :: "32 word"
  payload_prev_length :: "32 word"

text \<open>\<^verbatim>\<open>struct jls_source_def_s\<close>. The string fields are pointers: \<open>None\<close> is \<^verbatim>\<open>NULL\<close>.\<close>

record jls_source_def_s =
  source_id :: "16 word"
  name :: "byte list option"
  vendor :: "byte list option"
  model :: "byte list option"
  version :: "byte list option"
  serial_number :: "byte list option"

text \<open>
  Modelled from the spec: the declaration of \<^verbatim>\<open>struct jls_signal_def_s\<close> is in
  \<^verbatim>\<open>jls/format.h\<close>. The record has the fields of the spec's data model, which are the
  ones \<^verbatim>\<open>reader.c\<close> and \<^verbatim>\<open>example/performance.c\<close> use, and the field
  \<^verbatim>\<open>decimations_per_chunk\<close>, which \<^verbatim>\<open>writer.c\<close> uses. The string fields are pointers:
  \<open>None\<close> is \<^verbatim>\<open>NULL\<close> (what \<^verbatim>\<open>calloc\<close> leaves).
\<close>

record jls_signal_def_s =
  signal_id :: "16 word"
  sig_source_id :: "16 word"
  signal_type :: byte
  data_type :: "32 word"
  sample_rate :: "32 word"
  samples_per_data :: "32 word"
  sample_decimate_factor :: "32 word"
  entries_per_summary :: "32 word"
  summary_decimate_factor :: "32 word"
  decimations_per_chunk :: "32 word"
  utc_rate_auto :: "32 word"
  sig_name :: "byte list option"
  si_units :: "byte list option"

subsection \<open>The raw chunk layer\<close>

text \<open>
  Modelled from the spec: \<^verbatim>\<open>src/raw.c\<close> is not among the sources. The spec (4.1): a file is a
  fixed file header followed by chunks; \<open>write(header, payload)\<close> writes the header, then
  the payload, at the current position and advances the position; the header can be
  rewritten in place, the payload can be rewritten in place; \<open>read\<close> fails with
  \<open>TooBig\<close> when the payload exceeds the capacity and leaves the position at the chunk,
  with \<open>Empty\<close> at the end of the file, and otherwise advances past the chunk; \<open>seek\<close>
  and \<open>tell\<close> set and give the position.

  The file is the map from the offset of each chunk to its header and payload. The sizes
  of the file header and of the CRC fields are not in the spec: the model takes 32 bytes
  for the file header, 32 for a chunk header with its CRC and 4 for the payload CRC; what
  follows only uses that they are positive. The CRCs of a chunk always verify.
\<close>

record jls_raw_s =
  chunks :: "int \<rightharpoonup> (jls_chunk_header_s \<times> byte list)"
  fpos :: int
  fend :: int

definition FILE_HEADER_SIZE :: int where "FILE_HEADER_SIZE = 32"

definition chunk_size :: "nat \<Rightarrow> int" where
  "chunk_size n = 32 + int n + 4"

definition jls_raw_open_w :: jls_raw_s where
  "jls_raw_open_w = \<lparr>chunks = Map.empty, fpos = FILE_HEADER_SIZE, fend = FILE_HEADER_SIZE\<rparr>"

definition jls_raw_chunk_tell :: "jls_raw_s \<Rightarrow> int" where
  "jls_raw_chunk_tell r = fpos r"

definition jls_raw_chunk_seek :: "jls_raw_s \<Rightarrow> int \<Rightarrow> (unit, jls_raw_s) res" where
  "jls_raw_chunk_seek r off = Success () (r\<lparr>fpos := off\<rparr>)"

text \<open>
  The first \<open>n\<close> bytes behind a pointer. Nothing is read when \<open>n = 0\<close> (the writer passes
  \<^verbatim>\<open>NULL\<close> with a zero length); reading behind \<^verbatim>\<open>NULL\<close> or past the end of
  the object is undefined.
\<close>

definition read_bytes :: "byte list option \<Rightarrow> nat \<Rightarrow> byte list option" where
  "read_bytes p n =
     (if n = 0 then Some []
      else case p of None \<Rightarrow> None
           | Some m \<Rightarrow> if length m < n then None else Some (take n m))"

definition jls_raw_wr :: "jls_raw_s \<Rightarrow> jls_chunk_header_s \<Rightarrow> byte list option \<Rightarrow> (unit, jls_raw_s) res" where
  "jls_raw_wr r h payload =
     (case read_bytes payload (unat (payload_length h)) of
        None \<Rightarrow> Undefined
      | Some bs \<Rightarrow>
          Success () (r\<lparr>chunks := (chunks r)(fpos r \<mapsto> (h, bs)),
                         fpos := fpos r + chunk_size (unat (payload_length h)),
                         fend := max (fend r) (fpos r + chunk_size (unat (payload_length h)))\<rparr>))"

definition jls_raw_wr_header :: "jls_raw_s \<Rightarrow> jls_chunk_header_s \<Rightarrow> (unit, jls_raw_s) res" where
  "jls_raw_wr_header r h =
     (case chunks r (fpos r) of
        None \<Rightarrow> Failure JLS_ERROR_IO r
      | Some (h0, bs) \<Rightarrow> Success () (r\<lparr>chunks := (chunks r)(fpos r \<mapsto> (h, bs))\<rparr>))"

definition jls_raw_wr_payload :: "jls_raw_s \<Rightarrow> nat \<Rightarrow> byte list option \<Rightarrow> (unit, jls_raw_s) res" where
  "jls_raw_wr_payload r n payload =
     (case chunks r (fpos r) of
        None \<Rightarrow> Failure JLS_ERROR_IO r
      | Some (h0, bs0) \<Rightarrow>
          (case read_bytes payload n of
             None \<Rightarrow> Undefined
           | Some bs \<Rightarrow> Success () (r\<lparr>chunks := (chunks r)(fpos r \<mapsto> (h0, bs))\<rparr>)))"

text \<open>
  \<open>read\<close>: the header is delivered also when the payload is too big (the reader uses
  its \<^verbatim>\<open>payload_length\<close> to grow its buffer).
\<close>

datatype raw_rd_result =
    Rd_Ok jls_chunk_header_s "byte list" jls_raw_s
  | Rd_Too_Big jls_chunk_header_s
  | Rd_Empty

definition jls_raw_rd :: "jls_raw_s \<Rightarrow> nat \<Rightarrow> raw_rd_result" where
  "jls_raw_rd r capacity =
     (if fend r \<le> fpos r then Rd_Empty
      else case chunks r (fpos r) of
        None \<Rightarrow> Rd_Empty
      | Some (h, bs) \<Rightarrow>
          if capacity < unat (payload_length h) then Rd_Too_Big h
          else Rd_Ok h bs (r\<lparr>fpos := fpos r + chunk_size (unat (payload_length h))\<rparr>))"

subsection \<open>The writer: state\<close>

definition BUFFER_SIZE :: nat where "BUFFER_SIZE = 2 ^ 20"
definition SUMMARY_DECIMATE_FACTOR_MIN :: "32 word" where "SUMMARY_DECIMATE_FACTOR_MIN = 10"
definition DECIMATIONS_PER_CHUNK_MIN :: "32 word" where "DECIMATIONS_PER_CHUNK_MIN = 1000"

record chunk_s =
  hdr :: jls_chunk_header_s
  offset :: int

record track_info_s =
  t_signal_id :: "16 word"
  t_track_type :: byte
  t_def :: chunk_s
  t_head :: chunk_s
  t_index :: "nat \<Rightarrow> chunk_s"
  t_data :: chunk_s
  t_summary :: "nat \<Rightarrow> chunk_s"

text \<open>
  \<^verbatim>\<open>struct sample_buffer_s\<close>. \<open>sb_data\<close> has \<open>sb_length\<close> elements; \<^verbatim>\<open>malloc\<close> leaves
  them indeterminate, the model starts them at 0.
\<close>

record sample_buffer_s =
  sb_length :: "32 word"
  sb_offset :: "32 word"
  sb_timestamp :: "64 word"
  sb_data :: "32 word list"

text \<open>
  \<^verbatim>\<open>struct signal_info_s\<close>. \<open>tracks\<close> is the array \<^verbatim>\<open>tracks[4]\<close>: the model keeps it
  as a function and checks the index where the code uses one that it has not checked.
\<close>

record signal_info_s =
  chunk_def :: chunk_s
  signal_def :: jls_signal_def_s
  info_name :: "byte list"
  tracks :: "nat \<Rightarrow> track_info_s"
  sample_buffer :: "sample_buffer_s option"
  data_tag :: byte
  summary_tag :: byte
  index_tag :: byte
  track_type :: byte

text \<open>
  \<^verbatim>\<open>struct jls_wr_s\<close>. \<open>buf\<close> is the content of the scratch buffer between
  \<^verbatim>\<open>buf.start\<close> and \<^verbatim>\<open>buf.cur\<close>; \<^verbatim>\<open>buf.end\<close> is \<open>BUFFER_SIZE\<close> bytes after the
  start (every function that uses the buffer calls \<^verbatim>\<open>buf_reset\<close> first).
\<close>

record jls_wr_s =
  raw :: jls_raw_s
  buf :: "byte list"
  source_info :: "nat \<Rightarrow> chunk_s"
  source_mra :: chunk_s
  signal_info :: "nat \<Rightarrow> signal_info_s"
  signal_mra :: chunk_s
  user_data_mra :: chunk_s
  wr_payload_prev_length :: "32 word"

subsection \<open>The writer: the scratch buffer\<close>

definition buf_reset :: "jls_wr_s \<Rightarrow> jls_wr_s" where
  "buf_reset self = self\<lparr>buf := []\<rparr>"

definition buf_add_zero :: "jls_wr_s \<Rightarrow> nat \<Rightarrow> (unit, jls_wr_s) res" where
  "buf_add_zero self count =
     (if BUFFER_SIZE < length (buf self) + count then Failure JLS_ERROR_NOT_ENOUGH_MEMORY self
      else Success () (self\<lparr>buf := buf self @ replicate count 0\<rparr>))"

text \<open>
  The loop of \<^verbatim>\<open>buf_add_str\<close> on the buffer content \<open>b\<close> and the bytes behind
  \<^verbatim>\<open>cstr\<close>:
  \<^verbatim>\<open>
    while (buf->cur < end) {          // end = buf->end - 2
        *buf->cur++ = *cstr++;
        if (!*cstr) { *buf->cur++ = 0; *buf->cur++ = 0x1f; return 0; }
    }
    return JLS_ERROR_NOT_ENOUGH_MEMORY;
  \<close>
  The byte is copied first; the test looks at the byte after it.
\<close>

fun buf_add_str_loop :: "byte list \<Rightarrow> byte list \<Rightarrow> (unit, byte list) res" where
  "buf_add_str_loop b [] =
     (if length b + 2 < BUFFER_SIZE then Undefined else Failure JLS_ERROR_NOT_ENOUGH_MEMORY b)"
| "buf_add_str_loop b (c # cstr) =
     (if length b + 2 < BUFFER_SIZE then
        (case cstr of
           [] \<Rightarrow> Undefined
         | d # _ \<Rightarrow> if d = 0 then Success () (b @ [c, 0, 0x1f])
                    else buf_add_str_loop (b @ [c]) cstr)
      else Failure JLS_ERROR_NOT_ENOUGH_MEMORY b)"

definition buf_add_str :: "jls_wr_s \<Rightarrow> byte list option \<Rightarrow> (unit, jls_wr_s) res" where
  "buf_add_str self cstr =
     (case cstr of
        None \<Rightarrow> (if length (buf self) + 2 < BUFFER_SIZE then Undefined
                 else Failure JLS_ERROR_NOT_ENOUGH_MEMORY self)
      | Some m \<Rightarrow> lift_res (\<lambda>b. self\<lparr>buf := b\<rparr>) (buf_add_str_loop (buf self) m))"

definition buf_add_bin :: "jls_wr_s \<Rightarrow> byte list option \<Rightarrow> nat \<Rightarrow> (unit, jls_wr_s) res" where
  "buf_add_bin self data data_size =
     (if BUFFER_SIZE < length (buf self) + data_size then Failure JLS_ERROR_NOT_ENOUGH_MEMORY self
      else case read_bytes data data_size of
             None \<Rightarrow> Undefined
           | Some bs \<Rightarrow> Success () (self\<lparr>buf := buf self @ bs\<rparr>))"

definition buf_size :: "jls_wr_s \<Rightarrow> 32 word" where
  "buf_size self = of_nat (length (buf self))"

definition buf_wr_u8 :: "jls_wr_s \<Rightarrow> byte \<Rightarrow> (unit, jls_wr_s) res" where
  "buf_wr_u8 self v =
     (if BUFFER_SIZE \<le> length (buf self) then Failure JLS_ERROR_NOT_ENOUGH_MEMORY self
      else Success () (self\<lparr>buf := buf self @ [v]\<rparr>))"

definition buf_wr_u16 :: "jls_wr_s \<Rightarrow> 16 word \<Rightarrow> (unit, jls_wr_s) res" where
  "buf_wr_u16 self v =
     (if BUFFER_SIZE \<le> length (buf self) + 1 then Failure JLS_ERROR_NOT_ENOUGH_MEMORY self
      else Success () (self\<lparr>buf := buf self @ [ucast (v AND 0xff), ucast (drop_bit 8 v AND 0xff)]\<rparr>))"

definition buf_wr_u32 :: "jls_wr_s \<Rightarrow> 32 word \<Rightarrow> (unit, jls_wr_s) res" where
  "buf_wr_u32 self v =
     (if BUFFER_SIZE \<le> length (buf self) + 3 then Failure JLS_ERROR_NOT_ENOUGH_MEMORY self
      else Success () (self\<lparr>buf := buf self @
             [ucast (v AND 0xff), ucast (drop_bit 8 v AND 0xff),
              ucast (drop_bit 16 v AND 0xff), ucast (drop_bit 24 v AND 0xff)]\<rparr>))"

text \<open>
  \<^verbatim>\<open>buf_wr_u64\<close> tests for 4 free bytes and stores 9 (the byte of bits 24..31 twice);
  storing past the end of \<^verbatim>\<open>buffer\<close> is undefined.
\<close>

definition buf_wr_u64 :: "jls_wr_s \<Rightarrow> 64 word \<Rightarrow> (unit, jls_wr_s) res" where
  "buf_wr_u64 self v =
     (if BUFFER_SIZE \<le> length (buf self) + 3 then Failure JLS_ERROR_NOT_ENOUGH_MEMORY self
      else if BUFFER_SIZE < length (buf self) + 9 then Undefined
      else Success () (self\<lparr>buf := buf self @
             [ucast (v AND 0xff), ucast (drop_bit 8 v AND 0xff),
              ucast (drop_bit 16 v AND 0xff), ucast (drop_bit 24 v AND 0xff),
              ucast (drop_bit 24 v AND 0xff), ucast (drop_bit 32 v AND 0xff),
              ucast (drop_bit 40 v AND 0xff), ucast (drop_bit 48 v AND 0xff),
              ucast (drop_bit 56 v AND 0xff)]\<rparr>))"

subsection \<open>The writer: chunks and lists\<close>

definition raw_op :: "jls_wr_s \<Rightarrow> ('v, jls_raw_s) res \<Rightarrow> ('v, jls_wr_s) res" where
  "raw_op self r = lift_res (\<lambda>x. self\<lparr>raw := x\<rparr>) r"

text \<open>
  \<^verbatim>\<open>update_mra(self, mra, update)\<close>. The pointer \<^verbatim>\<open>mra\<close> is the pair \<open>get\<close>, \<open>put\<close>
  that reads and stores the chunk descriptor it points to.
\<close>

definition update_mra ::
  "jls_wr_s \<Rightarrow> (jls_wr_s \<Rightarrow> chunk_s) \<Rightarrow> (chunk_s \<Rightarrow> jls_wr_s \<Rightarrow> jls_wr_s) \<Rightarrow> chunk_s \<Rightarrow> (unit, jls_wr_s) res" where
  "update_mra self get put update =
     (if offset (get self) \<noteq> 0 then
        (let current_pos = jls_raw_chunk_tell (raw self);
             self1 = put ((get self)\<lparr>hdr := (hdr (get self))\<lparr>item_next := offset update\<rparr>\<rparr>) self
         in roe (raw_op self1 (jls_raw_chunk_seek (raw self1) (offset (get self1)))) (\<lambda>_ self2.
            roe (raw_op self2 (jls_raw_wr_header (raw self2) (hdr (get self2)))) (\<lambda>_ self3.
            roe (raw_op self3 (jls_raw_chunk_seek (raw self3) current_pos)) (\<lambda>_ self4.
            Success () (put update self4)))))
      else Success () (put update self))"

definition put_source_mra :: "chunk_s \<Rightarrow> jls_wr_s \<Rightarrow> jls_wr_s" where
  "put_source_mra c self = self\<lparr>source_mra := c\<rparr>"

definition put_signal_mra :: "chunk_s \<Rightarrow> jls_wr_s \<Rightarrow> jls_wr_s" where
  "put_signal_mra c self = self\<lparr>signal_mra := c\<rparr>"

definition put_user_data_mra :: "chunk_s \<Rightarrow> jls_wr_s \<Rightarrow> jls_wr_s" where
  "put_user_data_mra c self = self\<lparr>user_data_mra := c\<rparr>"

definition put_info :: "nat \<Rightarrow> signal_info_s \<Rightarrow> jls_wr_s \<Rightarrow> jls_wr_s" where
  "put_info i info self = self\<lparr>signal_info := (signal_info self)(i := info)\<rparr>"

definition get_track :: "nat \<Rightarrow> nat \<Rightarrow> jls_wr_s \<Rightarrow> track_info_s" where
  "get_track i t self = tracks (signal_info self i) t"

definition put_track :: "nat \<Rightarrow> nat \<Rightarrow> track_info_s \<Rightarrow> jls_wr_s \<Rightarrow> jls_wr_s" where
  "put_track i t ti self =
     put_info i ((signal_info self i)\<lparr>tracks := (tracks (signal_info self i))(t := ti)\<rparr>) self"

definition get_track_data :: "nat \<Rightarrow> nat \<Rightarrow> jls_wr_s \<Rightarrow> chunk_s" where
  "get_track_data i t self = t_data (get_track i t self)"

definition put_track_data :: "nat \<Rightarrow> nat \<Rightarrow> chunk_s \<Rightarrow> jls_wr_s \<Rightarrow> jls_wr_s" where
  "put_track_data i t c self = put_track i t ((get_track i t self)\<lparr>t_data := c\<rparr>) self"

text \<open>A call whose return code the caller drops.\<close>

definition ignore_rc :: "('v, 's) res \<Rightarrow> ('s \<Rightarrow> ('w, 's) res) \<Rightarrow> ('w, 's) res" where
  "ignore_rc r f = (case r of Success v s \<Rightarrow> f s | Failure e s \<Rightarrow> f s | Undefined \<Rightarrow> Undefined)"

definition jls_wr_source_def :: "jls_wr_s \<Rightarrow> jls_source_def_s option \<Rightarrow> (unit, jls_wr_s) res" where
  "jls_wr_source_def self source_opt =
     (case source_opt of
        None \<Rightarrow> Failure JLS_ERROR_PARAMETER_INVALID self
      | Some source \<Rightarrow>
          if JLS_SOURCE_COUNT \<le> unat (source_id source) then Failure JLS_ERROR_PARAMETER_INVALID self
          else if offset (source_info self (unat (source_id source))) \<noteq> 0
            then Failure JLS_ERROR_ALREADY_EXISTS self
          else
            ignore_rc (buf_add_zero (buf_reset self) 64) (\<lambda>self.
            roe (buf_add_str self (name source)) (\<lambda>_ self.
            roe (buf_add_str self (vendor source)) (\<lambda>_ self.
            roe (buf_add_str self (model source)) (\<lambda>_ self.
            roe (buf_add_str self (version source)) (\<lambda>_ self.
            roe (buf_add_str self (serial_number source)) (\<lambda>_ self.
            (let payload_length = buf_size self;
                 chunk = \<lparr>hdr = \<lparr>item_next = 0, item_prev = offset (source_mra self),
                                 tag = JLS_TAG_SOURCE_DEF, rsv0_u8 = 0,
                                 chunk_meta = source_id source,
                                 payload_length = payload_length,
                                 payload_prev_length = wr_payload_prev_length self\<rparr>,
                          offset = jls_raw_chunk_tell (raw self)\<rparr>;
                 self = self\<lparr>source_info := (source_info self)(unat (source_id source) := chunk)\<rparr>
             in roe (raw_op self (jls_raw_wr (raw self) (hdr chunk) (Some (buf self)))) (\<lambda>_ self.
                update_mra (self\<lparr>wr_payload_prev_length := payload_length\<rparr>)
                  source_mra put_source_mra chunk)))))))))"

definition track_tag :: "byte \<Rightarrow> byte \<Rightarrow> byte" where
  "track_tag tt kind = 0x20 OR push_bit 3 (tt AND 0x03) OR kind"

definition track_wr_def :: "jls_wr_s \<Rightarrow> nat \<Rightarrow> nat \<Rightarrow> (unit, jls_wr_s) res" where
  "track_wr_def self i t =
     (let track_info = get_track i t self in
      if offset (t_def track_info) \<noteq> 0 then Success () self
      else
        (let chunk = \<lparr>hdr = \<lparr>item_next = 0, item_prev = offset (signal_mra self),
                             tag = track_tag (t_track_type track_info) JLS_TRACK_CHUNK_DEF,
                             rsv0_u8 = 0, chunk_meta = t_signal_id track_info,
                             payload_length = 0,
                             payload_prev_length = wr_payload_prev_length self\<rparr>,
                      offset = jls_raw_chunk_tell (raw self)\<rparr>;
             self = put_track i t (track_info\<lparr>t_def := chunk\<rparr>) self
         in roe (raw_op self (jls_raw_wr (raw self) (hdr chunk) None)) (\<lambda>_ self.
            update_mra (self\<lparr>wr_payload_prev_length := 0\<rparr>) signal_mra put_signal_mra chunk)))"

text \<open>The bytes of a 64-bit object in memory (little-endian host).\<close>

definition u64_bytes :: "64 word \<Rightarrow> byte list" where
  "u64_bytes v = map (\<lambda>k. ucast (drop_bit (8 * k) v)) [0..<8]"

definition u32_bytes :: "32 word \<Rightarrow> byte list" where
  "u32_bytes v = map (\<lambda>k. ucast (drop_bit (8 * k) v)) [0..<4]"

definition track_wr_head :: "jls_wr_s \<Rightarrow> nat \<Rightarrow> nat \<Rightarrow> (unit, jls_wr_s) res" where
  "track_wr_head self i t =
     (let track_info = get_track i t self;
          offsets = concat (map (\<lambda>k. u64_bytes (word_of_int (offset (t_index track_info k))))
                             [0..<JLS_SUMMARY_LEVEL_COUNT])
      in
      if offset (t_head track_info) = 0 then
        (let chunk = \<lparr>hdr = \<lparr>item_next = 0, item_prev = offset (signal_mra self),
                             tag = track_tag (t_track_type track_info) JLS_TRACK_CHUNK_HEAD,
                             rsv0_u8 = 0, chunk_meta = t_signal_id track_info,
                             payload_length = 64,
                             payload_prev_length = wr_payload_prev_length self\<rparr>,
                      offset = jls_raw_chunk_tell (raw self)\<rparr>;
             self = put_track i t (track_info\<lparr>t_head := chunk\<rparr>) self
         in roe (raw_op self (jls_raw_wr (raw self) (hdr chunk) (Some offsets))) (\<lambda>_ self.
            Success () self))
      else
        (let chunk = t_head track_info;
             pos = jls_raw_chunk_tell (raw self)
         in roe (raw_op self (jls_raw_chunk_seek (raw self) (offset chunk))) (\<lambda>_ self.
            roe (raw_op self (jls_raw_wr_payload (raw self) 64 (Some offsets))) (\<lambda>_ self.
            roe (raw_op self (jls_raw_chunk_seek (raw self) pos)) (\<lambda>_ self.
            update_mra (self\<lparr>wr_payload_prev_length := 64\<rparr>) signal_mra put_signal_mra chunk)))))"

definition sample_buffer_alloc :: "32 word \<Rightarrow> 32 word \<Rightarrow> jls_error + sample_buffer_s" where
  "sample_buffer_alloc datatype len =
     (if datatype \<noteq> JLS_DATATYPE_F32 then Inl JLS_ERROR_NOT_SUPPORTED
      else Inr \<lparr>sb_length = len, sb_offset = 0, sb_timestamp = 0,
                sb_data = replicate (unat len) 0\<rparr>)"

text \<open>
  What \<^verbatim>\<open>snprintf(info->name, sizeof(info->name), "%s", signal->name)\<close> leaves in
  \<^verbatim>\<open>info->name\<close>: at most 1023 characters of the string and the terminator. There is no
  string behind \<^verbatim>\<open>NULL\<close> or in an object without a terminator.
\<close>

definition snprintf_name :: "byte list option \<Rightarrow> byte list option" where
  "snprintf_name p =
     (case p of None \<Rightarrow> None
      | Some m \<Rightarrow> if 0 \<in> set m then Some (take 1023 (takeWhile (\<lambda>c. c \<noteq> 0) m) @ [0]) else None)"

text \<open>The tracks of a new signal: a \<^verbatim>\<open>def\<close> and a \<^verbatim>\<open>head\<close> chunk for each.\<close>

fun wr_tracks :: "jls_wr_s \<Rightarrow> nat \<Rightarrow> nat list \<Rightarrow> (unit, jls_wr_s) res" where
  "wr_tracks self i [] = Success () self"
| "wr_tracks self i (t # ts) =
     roe (track_wr_def self i t) (\<lambda>_ self.
     roe (track_wr_head self i t) (\<lambda>_ self.
     wr_tracks self i ts))"

definition jls_wr_signal_def :: "jls_wr_s \<Rightarrow> jls_signal_def_s option \<Rightarrow> (unit, jls_wr_s) res" where
  "jls_wr_signal_def self signal_opt =
     (case signal_opt of
        None \<Rightarrow> Failure JLS_ERROR_PARAMETER_INVALID self
      | Some signal \<Rightarrow>
         (let i = unat (signal_id signal) in
          if JLS_SIGNAL_COUNT \<le> i then Failure JLS_ERROR_PARAMETER_INVALID self
          else if JLS_SOURCE_COUNT \<le> unat (sig_source_id signal) then Failure JLS_ERROR_PARAMETER_INVALID self
          else if offset (source_info self (unat (sig_source_id signal))) = 0
            then Failure JLS_ERROR_NOT_FOUND self
          else if offset (chunk_def (signal_info self i)) \<noteq> 0 then Failure JLS_ERROR_ALREADY_EXISTS self
          else if signal_type signal \<noteq> JLS_SIGNAL_TYPE_FSR \<and> signal_type signal \<noteq> JLS_SIGNAL_TYPE_VSR
            then Failure JLS_ERROR_PARAMETER_INVALID self
          else
           (case snprintf_name (sig_name signal) of
              None \<Rightarrow> Undefined
            | Some nm \<Rightarrow>
               (let info = (signal_info self i)\<lparr>signal_def := signal\<lparr>sig_name := Some nm\<rparr>, info_name := nm\<rparr>;
                    fsr = (signal_type signal = JLS_SIGNAL_TYPE_FSR)
                in
                if fsr \<and> sample_rate signal = 0 then Failure JLS_ERROR_PARAMETER_INVALID (put_info i info self)
                else
                 (let info = (if fsr then
                                info\<lparr>data_tag := JLS_TAG_TRACK_FSR_DATA,
                                     summary_tag := JLS_TAG_TRACK_FSR_SUMMARY,
                                     index_tag := JLS_TAG_TRACK_FSR_INDEX,
                                     track_type := JLS_TAG_TRACK_FSR_DATA\<rparr>
                              else
                                info\<lparr>signal_def := (signal_def info)\<lparr>sample_rate := 0\<rparr>,
                                     data_tag := JLS_TAG_TRACK_VSR_DATA,
                                     summary_tag := JLS_TAG_TRACK_VSR_SUMMARY,
                                     index_tag := JLS_TAG_TRACK_VSR_INDEX,
                                     track_type := JLS_TAG_TRACK_VSR_DATA\<rparr>)
                  in
                  if data_type signal \<noteq> JLS_DATATYPE_F32 then Failure JLS_ERROR_NOT_SUPPORTED (put_info i info self)
                  else
                   (let d = signal_def info;
                        d = (if summary_decimate_factor d < SUMMARY_DECIMATE_FACTOR_MIN
                             then d\<lparr>summary_decimate_factor := SUMMARY_DECIMATE_FACTOR_MIN\<rparr> else d);
                        d = (if decimations_per_chunk d < DECIMATIONS_PER_CHUNK_MIN
                             then d\<lparr>decimations_per_chunk := DECIMATIONS_PER_CHUNK_MIN\<rparr> else d);
                        info = info\<lparr>signal_def := d\<rparr>;
                        sample_buffer_length = summary_decimate_factor d * decimations_per_chunk d
                    in
                    case sample_buffer_alloc (data_type d) sample_buffer_length of
                      Inl e \<Rightarrow> Failure e (put_info i info self)
                    | Inr b \<Rightarrow>
                       (let info = info\<lparr>sample_buffer := Some b\<rparr>;
                            self = buf_reset (put_info i info self)
                        in
                        roe (buf_wr_u16 self (sig_source_id signal)) (\<lambda>_ self.
                        roe (buf_wr_u8 self (signal_type signal)) (\<lambda>_ self.
                        roe (buf_wr_u8 self 0) (\<lambda>_ self.
                        roe (buf_wr_u32 self (data_type signal)) (\<lambda>_ self.
                        roe (buf_wr_u32 self (sample_rate d)) (\<lambda>_ self.
                        roe (buf_wr_u32 self (summary_decimate_factor d)) (\<lambda>_ self.
                        roe (buf_wr_u32 self (decimations_per_chunk d)) (\<lambda>_ self.
                        roe (buf_wr_u32 self (utc_rate_auto signal)) (\<lambda>_ self.
                        roe (buf_add_zero self (4 + 64)) (\<lambda>_ self.
                        roe (buf_add_str self (sig_name signal)) (\<lambda>_ self.
                        roe (buf_add_str self (si_units signal)) (\<lambda>_ self.
                        (let payload_length = buf_size self;
                             chunk = \<lparr>hdr = \<lparr>item_next = 0, item_prev = offset (signal_mra self),
                                             tag = JLS_TAG_SIGNAL_DEF, rsv0_u8 = 0,
                                             chunk_meta = signal_id signal,
                                             payload_length = payload_length,
                                             payload_prev_length = wr_payload_prev_length self\<rparr>,
                                      offset = jls_raw_chunk_tell (raw self)\<rparr>;
                             self = put_info i ((signal_info self i)\<lparr>chunk_def := chunk\<rparr>) self
                         in
                         roe (raw_op self (jls_raw_wr (raw self) (hdr chunk) (Some (buf self)))) (\<lambda>_ self.
                         roe (update_mra (self\<lparr>wr_payload_prev_length := payload_length\<rparr>)
                                signal_mra put_signal_mra chunk) (\<lambda>_ self.
                         if fsr then
                           wr_tracks self i
                             [JLS_TRACK_TYPE_FSR, JLS_TRACK_TYPE_ANNOTATION, JLS_TRACK_TYPE_UTC]
                         else
                           wr_tracks self i
                             [JLS_TRACK_TYPE_VSR, JLS_TRACK_TYPE_ANNOTATION])))))))))))))))))))))"

text \<open>
  \<^verbatim>\<open>strlen\<close>: there is no length behind \<^verbatim>\<open>NULL\<close> or in an object without a
  terminator.
\<close>

definition strlen :: "byte list option \<Rightarrow> nat option" where
  "strlen p =
     (case p of None \<Rightarrow> None
      | Some m \<Rightarrow> if 0 \<in> set m then Some (length (takeWhile (\<lambda>c. c \<noteq> 0) m)) else None)"

text \<open>
  \<^verbatim>\<open>jls_wr_user_data\<close>. The test \<^verbatim>\<open>data_size & !data\<close> is a bitwise and of
  \<^verbatim>\<open>data_size\<close> with 1 when \<^verbatim>\<open>data\<close> is \<^verbatim>\<open>NULL\<close> and with 0 otherwise. The
  storage type is a C \<^verbatim>\<open>enum\<close>, an \<open>int\<close>.
\<close>

definition jls_wr_user_data ::
  "jls_wr_s \<Rightarrow> 16 word \<Rightarrow> int \<Rightarrow> byte list option \<Rightarrow> 32 word \<Rightarrow> (unit, jls_wr_s) res" where
  "jls_wr_user_data self chunk_meta0 storage_type data data_size0 =
     (if data_size0 AND (if data = None then 1 else 0) \<noteq> 0 then Failure JLS_ERROR_PARAMETER_INVALID self
      else
       (let chunk_meta1 = (if chunk_meta0 AND 0xf000 \<noteq> 0 then chunk_meta0 AND 0x0fff else chunk_meta0);
            sized =
              (if storage_type = JLS_STORAGE_TYPE_INVALID then Inr (Some 0)
               else if storage_type = JLS_STORAGE_TYPE_BINARY then Inr (Some data_size0)
               else if storage_type = JLS_STORAGE_TYPE_STRING \<or> storage_type = JLS_STORAGE_TYPE_JSON then
                 Inr (case strlen data of None \<Rightarrow> None | Some n \<Rightarrow> Some (of_nat (n + 1)))
               else Inl JLS_ERROR_PARAMETER_INVALID)
        in
        case sized of
          Inl e \<Rightarrow> Failure e self
        | Inr None \<Rightarrow> Undefined
        | Inr (Some data_size) \<Rightarrow>
           (let chunk_meta = chunk_meta1 OR push_bit 12 (word_of_int storage_type);
                chunk = \<lparr>hdr = \<lparr>item_next = 0, item_prev = offset (user_data_mra self),
                                tag = JLS_TAG_USER_DATA, rsv0_u8 = 0,
                                chunk_meta = chunk_meta,
                                payload_length = data_size,
                                payload_prev_length = wr_payload_prev_length self\<rparr>,
                         offset = jls_raw_chunk_tell (raw self)\<rparr>
            in
            roe (raw_op self (jls_raw_wr (raw self) (hdr chunk) data)) (\<lambda>_ self.
            update_mra (self\<lparr>wr_payload_prev_length := data_size\<rparr>)
              user_data_mra put_user_data_mra chunk))))"

subsection \<open>The writer: samples, annotations, UTC\<close>

definition signal_validate :: "jls_wr_s \<Rightarrow> 16 word \<Rightarrow> (unit, jls_wr_s) res" where
  "signal_validate self sid =
     (if JLS_SIGNAL_COUNT \<le> unat sid then Failure JLS_ERROR_PARAMETER_INVALID self
      else if offset (chunk_def (signal_info self (unat sid))) = 0
        then Failure JLS_ERROR_NOT_FOUND self
      else Success () self)"

definition signal_validate_typed :: "jls_wr_s \<Rightarrow> 16 word \<Rightarrow> byte \<Rightarrow> (unit, jls_wr_s) res" where
  "signal_validate_typed self sid signal_type0 =
     roe (signal_validate self sid) (\<lambda>_ self.
     if signal_type (signal_def (signal_info self (unat sid))) \<noteq> signal_type0
       then Failure JLS_ERROR_NOT_SUPPORTED self
     else Success () self)"

text \<open>
  The loop of \<^verbatim>\<open>jls_wr_fsr_f32\<close> up to the point where it leaves the function:
  \<^verbatim>\<open>
    while (data_length) {
        uint32_t block_length = b->length - b->offset;
        if (data_length < block_length) { block_length = data_length; }
        memcpy(b->data + b->offset, data, block_length * sizeof(float));
        b->offset += block_length;
        if (b->offset >= b->length) { ...; return update_mra(...); }
    }
    return 0;
  \<close>
  The body changes neither \<^verbatim>\<open>data\<close> nor \<^verbatim>\<open>data_length\<close>. \<open>Fsr_Return0 b\<close>: the
  loop condition failed with the buffer \<open>b\<close>. \<open>Fsr_Emit b n\<close>: the branch that writes a
  chunk is entered with the buffer \<open>b\<close> and \<^verbatim>\<open>block_length\<close> \<open>n\<close>.
  \<open>Fsr_Undefined\<close>: \<^verbatim>\<open>memcpy\<close> reads past the end of \<^verbatim>\<open>data\<close> or writes past
  the end of the buffer.
\<close>

datatype fsr_loop_result =
    Fsr_Return0 sample_buffer_s
  | Fsr_Emit sample_buffer_s "32 word"
  | Fsr_Undefined

text \<open>
  \<^verbatim>\<open>memcpy(dst + off, src, n * sizeof(float))\<close> into an array of \<open>cap\<close> elements;
  a copy of no bytes does nothing.
\<close>

definition memcpy_f32 :: "32 word list \<Rightarrow> nat \<Rightarrow> nat \<Rightarrow> 32 word list option \<Rightarrow> nat \<Rightarrow> 32 word list option" where
  "memcpy_f32 dst cap off src n =
     (if n = 0 then Some dst
      else if cap < off + n then None
      else case src of
             None \<Rightarrow> None
           | Some d \<Rightarrow> if length d < n then None
                       else Some (take off dst @ take n d @ drop (off + n) dst))"

function fsr_loop :: "sample_buffer_s \<Rightarrow> 32 word list option \<Rightarrow> 32 word \<Rightarrow> fsr_loop_result" where
  "fsr_loop b data data_length =
     (if data_length = 0 then Fsr_Return0 b
      else
       (let block_length = (if data_length < sb_length b - sb_offset b then data_length
                            else sb_length b - sb_offset b)
        in
        case memcpy_f32 (sb_data b) (unat (sb_length b)) (unat (sb_offset b)) data (unat block_length) of
          None \<Rightarrow> Fsr_Undefined
        | Some d' \<Rightarrow>
            if sb_length b \<le> sb_offset b + block_length
              then Fsr_Emit (b\<lparr>sb_data := d', sb_offset := sb_offset b + block_length\<rparr>) block_length
            else fsr_loop (b\<lparr>sb_data := d', sb_offset := sb_offset b + block_length\<rparr>) data data_length))"
  by pat_completeness auto

termination fsr_loop
proof -
  have dec: "unat len - unat (off + (if n < len - off then n else len - off)) < unat len - unat off"
    if n0: "n \<noteq> 0"
      and m: "memcpy_f32 dd (unat len) (unat off) data (unat (if n < len - off then n else len - off)) = Some d'"
      and nle: "\<not> len \<le> off + (if n < len - off then n else len - off)"
    for n len off :: "32 word" and dd data d'
  proof -
    define bl where "bl = (if n < len - off then n else len - off)"
    have bl0: "bl \<noteq> 0"
    proof
      assume "bl = 0"
      with n0 have "len - off = 0" by (auto simp: bl_def split: if_splits)
      then have "len = off" by simp
      with nle show False by (simp add: bl_def)
    qed
    then have ubl: "0 < unat bl" by (simp add: unat_gt_0)
    from m bl0 have cap: "unat off + unat bl \<le> unat len"
      by (auto simp: memcpy_f32_def bl_def[symmetric] unat_eq_zero split: if_splits option.splits)
    have "unat len < 2 ^ LENGTH(32)" by (rule unsigned_less)
    with cap have "unat off + unat bl < 2 ^ LENGTH(32)" by linarith
    then have eq: "unat (off + bl) = unat off + unat bl"
      by (rule unat_add_lem[THEN iffD1])
    from nle have "off + bl < len" by (simp add: bl_def[symmetric] not_le)
    then have "unat (off + bl) < unat len" by (simp add: word_less_nat_alt)
    with eq ubl show ?thesis unfolding bl_def[symmetric] by arith
  qed
  show ?thesis
    apply (relation "measure (\<lambda>(b, d, n). unat (sb_length b) - unat (sb_offset b))")
     apply simp
    apply (simp only: in_measure prod.case)
    apply (simp add: dec)
    done
qed

text \<open>
  \<^verbatim>\<open>jls_wr_fsr_f32\<close>. The branch that writes a chunk selects the track with
  \<^verbatim>\<open>info->tracks[info->track_type]\<close>; \<^verbatim>\<open>tracks\<close> has 4 elements. The payload
  pointer \<^verbatim>\<open>(uint8_t *) &b->timestamp\<close> points into the buffer object: the 8 bytes of
  the timestamp, then the samples. The branch ends in \<^verbatim>\<open>return update_mra(...)\<close>.
\<close>

definition jls_wr_fsr_f32 ::
  "jls_wr_s \<Rightarrow> 16 word \<Rightarrow> 64 word \<Rightarrow> 32 word list option \<Rightarrow> 32 word \<Rightarrow> (unit, jls_wr_s) res" where
  "jls_wr_fsr_f32 self sid sample_id data data_length =
     roe (signal_validate self sid) (\<lambda>_ self.
     (let i = unat sid; info = signal_info self i in
      case sample_buffer info of
        None \<Rightarrow> (if data_length = 0 then Success () self else Undefined)
      | Some b \<Rightarrow>
         (case fsr_loop b data data_length of
            Fsr_Return0 b' \<Rightarrow> Success () (put_info i (info\<lparr>sample_buffer := Some b'\<rparr>) self)
          | Fsr_Undefined \<Rightarrow> Undefined
          | Fsr_Emit b' block_length \<Rightarrow>
             (let write_count = (ucast block_length :: 64 word);
                  b' = b'\<lparr>sb_timestamp := sample_id + write_count\<rparr>;
                  self = put_info i (info\<lparr>sample_buffer := Some b'\<rparr>) self;
                  k = unat (track_type info)
              in
              if 4 \<le> k then Undefined
              else
               (let chunk = \<lparr>hdr = \<lparr>item_next = 0, item_prev = offset (get_track_data i k self),
                                    tag = data_tag info, rsv0_u8 = 0,
                                    chunk_meta = sid,
                                    payload_length = sb_length b' + 8,
                                    payload_prev_length = wr_payload_prev_length self\<rparr>,
                             offset = jls_raw_chunk_tell (raw self)\<rparr>
                in
                roe (raw_op self (jls_raw_wr (raw self) (hdr chunk)
                       (Some (u64_bytes (sb_timestamp b') @ concat (map u32_bytes (sb_data b')))))) (\<lambda>_ self.
                update_mra (self\<lparr>wr_payload_prev_length := payload_length (hdr chunk)\<rparr>)
                  (get_track_data i k) (put_track_data i k) chunk))))))"

text \<open>
  \<^verbatim>\<open>anno_wr\<close>. The annotation and storage types are C \<^verbatim>\<open>enum\<close>s. The payload is
  built in the scratch buffer; the chunk is written from \<^verbatim>\<open>data\<close>.
\<close>

definition anno_wr ::
  "jls_wr_s \<Rightarrow> 16 word \<Rightarrow> 64 word \<Rightarrow> int \<Rightarrow> int \<Rightarrow> byte list option \<Rightarrow> 32 word \<Rightarrow> (unit, jls_wr_s) res" where
  "anno_wr self sid timestamp annotation_type storage_type data data_size =
     roe (signal_validate self sid) (\<lambda>_ self.
     if annotation_type AND 0xff \<noteq> annotation_type then Failure JLS_ERROR_PARAMETER_INVALID self
     else if storage_type AND 0xff \<noteq> storage_type then Failure JLS_ERROR_PARAMETER_INVALID self
     else
       roe (buf_wr_u64 (buf_reset self) timestamp) (\<lambda>_ self.
       roe (buf_wr_u8 self (word_of_int annotation_type)) (\<lambda>_ self.
       roe (buf_wr_u8 self (word_of_int storage_type)) (\<lambda>_ self.
       roe (buf_add_zero self 6) (\<lambda>_ self.
       roe (if storage_type = JLS_STORAGE_TYPE_BINARY then buf_add_bin self data (unat data_size)
            else if storage_type = JLS_STORAGE_TYPE_STRING then buf_add_str self data
            else if storage_type = JLS_STORAGE_TYPE_JSON then buf_add_str self data
            else Failure JLS_ERROR_PARAMETER_INVALID self) (\<lambda>_ self.
       (let i = unat sid;
            payload_length = buf_size self;
            chunk = \<lparr>hdr = \<lparr>item_next = 0,
                            item_prev = offset (get_track_data i JLS_TRACK_TYPE_ANNOTATION self),
                            tag = JLS_TAG_TRACK_ANNOTATION_DATA, rsv0_u8 = 0,
                            chunk_meta = sid,
                            payload_length = payload_length,
                            payload_prev_length = wr_payload_prev_length self\<rparr>,
                     offset = jls_raw_chunk_tell (raw self)\<rparr>
        in
        roe (raw_op self (jls_raw_wr (raw self) (hdr chunk) data)) (\<lambda>_ self.
        update_mra (self\<lparr>wr_payload_prev_length := payload_length\<rparr>)
          (get_track_data i JLS_TRACK_TYPE_ANNOTATION)
          (put_track_data i JLS_TRACK_TYPE_ANNOTATION) chunk))))))))"

definition jls_wr_fsr_annotation ::
  "jls_wr_s \<Rightarrow> 16 word \<Rightarrow> 64 word \<Rightarrow> int \<Rightarrow> int \<Rightarrow> byte list option \<Rightarrow> 32 word \<Rightarrow> (unit, jls_wr_s) res" where
  "jls_wr_fsr_annotation self sid sample_id annotation_type storage_type data data_size =
     roe (signal_validate_typed self sid JLS_SIGNAL_TYPE_FSR) (\<lambda>_ self.
     anno_wr self sid sample_id annotation_type storage_type data data_size)"

definition jls_wr_fsr_utc :: "jls_wr_s \<Rightarrow> 16 word \<Rightarrow> 64 word \<Rightarrow> 64 word \<Rightarrow> (unit, jls_wr_s) res" where
  "jls_wr_fsr_utc self sid sample_id utc =
     roe (signal_validate_typed self sid JLS_SIGNAL_TYPE_FSR) (\<lambda>_ self.
     (let i = unat sid;
          payload = u64_bytes sample_id @ u64_bytes utc;
          payload_length = 16;
          chunk = \<lparr>hdr = \<lparr>item_next = 0,
                          item_prev = offset (get_track_data i JLS_TRACK_TYPE_UTC self),
                          tag = JLS_TAG_TRACK_UTC_DATA, rsv0_u8 = 0,
                          chunk_meta = sid,
                          payload_length = payload_length,
                          payload_prev_length = wr_payload_prev_length self\<rparr>,
                   offset = jls_raw_chunk_tell (raw self)\<rparr>
      in
      roe (raw_op self (jls_raw_wr (raw self) (hdr chunk) (Some payload))) (\<lambda>_ self.
      update_mra (self\<lparr>wr_payload_prev_length := payload_length\<rparr>)
        (get_track_data i JLS_TRACK_TYPE_UTC) (put_track_data i JLS_TRACK_TYPE_UTC) chunk)))"

definition jls_wr_vsr_annotation ::
  "jls_wr_s \<Rightarrow> 16 word \<Rightarrow> 64 word \<Rightarrow> int \<Rightarrow> int \<Rightarrow> byte list option \<Rightarrow> 32 word \<Rightarrow> (unit, jls_wr_s) res" where
  "jls_wr_vsr_annotation self sid timestamp annotation_type storage_type data data_size =
     roe (signal_validate_typed self sid JLS_SIGNAL_TYPE_VSR) (\<lambda>_ self.
     anno_wr self sid timestamp annotation_type storage_type data data_size)"

subsection \<open>The writer: open and close\<close>

text \<open>A string literal: its characters and the terminator.\<close>

definition literal :: "string \<Rightarrow> byte list option" where
  "literal s = Some (map of_char s @ [0])"

definition SOURCE_0 :: jls_source_def_s where
  "SOURCE_0 = \<lparr>source_id = 0, name = literal ''s'', vendor = literal ''None'',
               model = literal ''None'', version = literal ''1.0.0'',
               serial_number = literal ''None''\<rparr>"

definition SIGNAL_0 :: jls_signal_def_s where
  "SIGNAL_0 = \<lparr>signal_id = 0, sig_source_id = 0, signal_type = JLS_SIGNAL_TYPE_VSR,
               data_type = JLS_DATATYPE_F32, sample_rate = 0, samples_per_data = 0,
               sample_decimate_factor = 0, entries_per_summary = 0,
               summary_decimate_factor = 100, decimations_per_chunk = 10000,
               utc_rate_auto = 0, sig_name = literal ''global_annotation_signal'',
               si_units = literal []\<rparr>"

definition chunk_zero :: chunk_s where
  "chunk_zero = \<lparr>hdr = \<lparr>item_next = 0, item_prev = 0, tag = 0, rsv0_u8 = 0, chunk_meta = 0,
                        payload_length = 0, payload_prev_length = 0\<rparr>, offset = 0\<rparr>"

definition signal_def_zero :: jls_signal_def_s where
  "signal_def_zero = \<lparr>signal_id = 0, sig_source_id = 0, signal_type = 0, data_type = 0,
      sample_rate = 0, samples_per_data = 0, sample_decimate_factor = 0, entries_per_summary = 0,
      summary_decimate_factor = 0, decimations_per_chunk = 0, utc_rate_auto = 0,
      sig_name = None, si_units = None\<rparr>"

definition track_zero :: track_info_s where
  "track_zero = \<lparr>t_signal_id = 0, t_track_type = 0, t_def = chunk_zero, t_head = chunk_zero,
                 t_index = (\<lambda>_. chunk_zero), t_data = chunk_zero, t_summary = (\<lambda>_. chunk_zero)\<rparr>"

text \<open>
  The object after \<^verbatim>\<open>calloc\<close>, the loop of \<^verbatim>\<open>jls_wr_open\<close> that numbers the tracks,
  and \<^verbatim>\<open>jls_raw_open(&self->raw, path, "w")\<close>.
\<close>

definition wr_calloc :: jls_wr_s where
  "wr_calloc =
     \<lparr>raw = jls_raw_open_w, buf = [], source_info = (\<lambda>_. chunk_zero), source_mra = chunk_zero,
      signal_info = (\<lambda>i.
        \<lparr>chunk_def = chunk_zero, signal_def = signal_def_zero, info_name = replicate 1024 0,
         tracks = (\<lambda>t. if i < JLS_SIGNAL_COUNT \<and> t < 4
                        then track_zero\<lparr>t_signal_id := of_nat i, t_track_type := of_nat t\<rparr>
                        else track_zero),
         sample_buffer = None, data_tag = 0, summary_tag = 0, index_tag = 0, track_type = 0\<rparr>),
      signal_mra = chunk_zero, user_data_mra = chunk_zero, wr_payload_prev_length = 0\<rparr>"

definition jls_wr_open :: "(unit, jls_wr_s) res" where
  "jls_wr_open =
     roe (jls_wr_user_data wr_calloc 0 JLS_STORAGE_TYPE_INVALID None 0) (\<lambda>_ self.
     roe (jls_wr_source_def self (Some SOURCE_0)) (\<lambda>_ self.
     roe (jls_wr_signal_def self (Some SIGNAL_0)) (\<lambda>_ self.
     Success () self)))"

text \<open>\<^verbatim>\<open>jls_wr_close\<close> closes the raw layer and frees the buffers: what remains is the file.\<close>

definition jls_wr_close :: "jls_wr_s \<Rightarrow> jls_raw_s" where
  "jls_wr_close self = raw self"

subsection \<open>The reader: state\<close>

definition STRING_BUFFER_SIZE_DEFAULT :: nat where "STRING_BUFFER_SIZE_DEFAULT = 2 ^ 23"
definition SIGNAL_MASK :: "16 word" where "SIGNAL_MASK = 0x0fff"

text \<open>
  \<^verbatim>\<open>struct payload_s\<close>: \<open>p_bytes\<close> are the bytes between \<^verbatim>\<open>payload.start\<close> and
  \<^verbatim>\<open>payload.end\<close>, the payload of the chunk read last; \<open>p_cur\<close> is
  \<^verbatim>\<open>payload.cur - payload.start\<close>. The bytes of the buffer behind \<^verbatim>\<open>payload.end\<close>
  are what \<^verbatim>\<open>malloc\<close> or an earlier chunk left there: reading them, or outside the
  buffer, is \<open>Undefined\<close>. The buffer is grown by \<^verbatim>\<open>rd\<close> until the payload fits
  (\<^verbatim>\<open>alloc_size\<close> starts at \<open>2^25\<close> and is doubled), so it always fits.
\<close>

record payload_s =
  p_bytes :: "byte list"
  p_cur :: nat

record signal_s =
  timestamp_start :: int
  timestamp_end :: int
  track_defs :: "nat \<Rightarrow> int"
  track_head_offsets :: "nat \<Rightarrow> int"
  track_head_data :: "nat \<Rightarrow> nat \<Rightarrow> int"

text \<open>
  \<^verbatim>\<open>struct jls_rd_s\<close>. \<open>strings_used\<close> is the number of bytes used in the string
  buffer \<^verbatim>\<open>strings_tail\<close>; the strings themselves are the values of the string fields
  of the definitions.
\<close>

record jls_rd_s =
  rd_raw :: jls_raw_s
  rd_source_def :: "nat \<Rightarrow> jls_source_def_s"
  rd_signal_def :: "nat \<Rightarrow> jls_signal_def_s"
  signals :: "nat \<Rightarrow> signal_s"
  chunk_cur :: chunk_s
  payload :: payload_s
  strings_used :: nat
  source_head :: chunk_s
  signal_head :: chunk_s
  user_data_head :: chunk_s
  user_data_cur :: chunk_s

subsection \<open>The reader: parsing a payload\<close>

definition payload_skip :: "jls_rd_s \<Rightarrow> nat \<Rightarrow> (unit, jls_rd_s) res" where
  "payload_skip self count =
     (if length (p_bytes (payload self)) < p_cur (payload self) + count then Failure JLS_ERROR_EMPTY self
      else Success () (self\<lparr>payload := (payload self)\<lparr>p_cur := p_cur (payload self) + count\<rparr>\<rparr>))"

definition payload_parse_u8 :: "jls_rd_s \<Rightarrow> (byte, jls_rd_s) res" where
  "payload_parse_u8 self =
     (let p = payload self; c = p_cur p in
      if length (p_bytes p) < c + 1 then Failure JLS_ERROR_EMPTY self
      else Success (p_bytes p ! c) (self\<lparr>payload := p\<lparr>p_cur := c + 1\<rparr>\<rparr>))"

definition payload_parse_u16 :: "jls_rd_s \<Rightarrow> (16 word, jls_rd_s) res" where
  "payload_parse_u16 self =
     (let p = payload self; c = p_cur p in
      if length (p_bytes p) < c + 2 then Failure JLS_ERROR_EMPTY self
      else Success (ucast (p_bytes p ! c) OR push_bit 8 (ucast (p_bytes p ! (c + 1))))
             (self\<lparr>payload := p\<lparr>p_cur := c + 2\<rparr>\<rparr>))"

definition payload_parse_u32 :: "jls_rd_s \<Rightarrow> (32 word, jls_rd_s) res" where
  "payload_parse_u32 self =
     (let p = payload self; c = p_cur p in
      if length (p_bytes p) < c + 4 then Failure JLS_ERROR_EMPTY self
      else Success (ucast (p_bytes p ! c) OR push_bit 8 (ucast (p_bytes p ! (c + 1)))
                    OR push_bit 16 (ucast (p_bytes p ! (c + 2)))
                    OR push_bit 24 (ucast (p_bytes p ! (c + 3))))
             (self\<lparr>payload := p\<lparr>p_cur := c + 4\<rparr>\<rparr>))"

text \<open>
  The loop of \<^verbatim>\<open>payload_parse_str\<close> on the bytes from \<^verbatim>\<open>payload.cur\<close> to
  \<^verbatim>\<open>payload.end\<close>, with \<open>room\<close> bytes left in the string buffer and the characters
  \<open>acc\<close> copied so far. \<open>Str_Ok s n\<close>: the string \<open>s\<close> (with its terminator) after \<open>n\<close>
  payload bytes. \<open>Str_Empty n\<close>: the payload ended after \<open>n\<close> bytes, the result is
  \<^verbatim>\<open>NULL\<close>. When the string buffer is full the code writes behind its end. After the
  terminator the code looks at the next payload byte, also when there is none.
\<close>

datatype str_result = Str_Ok "byte list" nat | Str_Empty nat | Str_Undefined

fun parse_str_loop :: "byte list \<Rightarrow> byte list \<Rightarrow> nat \<Rightarrow> str_result" where
  "parse_str_loop [] acc room = Str_Empty (length acc)"
| "parse_str_loop (ch # rest) acc room =
     (if room = 0 then Str_Undefined
      else if ch = 0 then
        (case rest of
           [] \<Rightarrow> Str_Undefined
         | d # _ \<Rightarrow> Str_Ok (acc @ [0]) (length acc + 1 + (if d = 0x1f then 1 else 0)))
      else parse_str_loop rest (acc @ [ch]) (room - 1))"

text \<open>
  The room of a string buffer: \<^verbatim>\<open>STRING_BUFFER_SIZE_DEFAULT\<close> less the
  \<^verbatim>\<open>struct strings_s\<close> at its start (four pointers, 32 bytes).
\<close>

definition strings_room :: "jls_rd_s \<Rightarrow> nat" where
  "strings_room self = STRING_BUFFER_SIZE_DEFAULT - 32 - strings_used self"

definition payload_parse_str :: "jls_rd_s \<Rightarrow> (byte list option, jls_rd_s) res" where
  "payload_parse_str self =
     (let p = payload self in
      case parse_str_loop (drop (p_cur p) (p_bytes p)) [] (strings_room self) of
        Str_Undefined \<Rightarrow> Undefined
      | Str_Empty n \<Rightarrow>
          Failure JLS_ERROR_EMPTY
            (self\<lparr>payload := p\<lparr>p_cur := p_cur p + n\<rparr>, strings_used := strings_used self + n\<rparr>)
      | Str_Ok s n \<Rightarrow>
          Success (Some s)
            (self\<lparr>payload := p\<lparr>p_cur := p_cur p + n\<rparr>,
                  strings_used := strings_used self + length s\<rparr>))"

text \<open>
  \<^verbatim>\<open>rd\<close>: reads the chunk at the current position into \<^verbatim>\<open>chunk_cur\<close> and the
  payload buffer.
\<close>

definition rd :: "jls_rd_s \<Rightarrow> (unit, jls_rd_s) res" where
  "rd self =
     (let self = self\<lparr>chunk_cur := (chunk_cur self)\<lparr>offset := jls_raw_chunk_tell (rd_raw self)\<rparr>\<rparr> in
      case jls_raw_rd (rd_raw self)
             (case chunks (rd_raw self) (fpos (rd_raw self)) of
                None \<Rightarrow> 0 | Some (h, bs) \<Rightarrow> unat (payload_length h)) of
        Rd_Empty \<Rightarrow> Failure JLS_ERROR_EMPTY self
      | Rd_Too_Big h \<Rightarrow> Failure JLS_ERROR_TOO_BIG (self\<lparr>chunk_cur := (chunk_cur self)\<lparr>hdr := h\<rparr>\<rparr>)
      | Rd_Ok h bs r \<Rightarrow>
          Success () (self\<lparr>rd_raw := r, chunk_cur := (chunk_cur self)\<lparr>hdr := h\<rparr>,
                           payload := \<lparr>p_bytes = bs, p_cur = 0\<rparr>\<rparr>))"

definition rd_seek :: "jls_rd_s \<Rightarrow> int \<Rightarrow> (unit, jls_rd_s) res" where
  "rd_seek self off = lift_res (\<lambda>r. self\<lparr>rd_raw := r\<rparr>) (jls_raw_chunk_seek (rd_raw self) off)"

subsection \<open>The reader: scanning the definitions\<close>

definition put_source :: "nat \<Rightarrow> (jls_source_def_s \<Rightarrow> jls_source_def_s) \<Rightarrow> jls_rd_s \<Rightarrow> jls_rd_s" where
  "put_source i f self = self\<lparr>rd_source_def := (rd_source_def self)(i := f (rd_source_def self i))\<rparr>"

definition put_signal :: "nat \<Rightarrow> (jls_signal_def_s \<Rightarrow> jls_signal_def_s) \<Rightarrow> jls_rd_s \<Rightarrow> jls_rd_s" where
  "put_signal i f self = self\<lparr>rd_signal_def := (rd_signal_def self)(i := f (rd_signal_def self i))\<rparr>"

text \<open>
  \<^verbatim>\<open>ROE(payload_parse_str(self, (char **) &field))\<close>: the field is set to the string,
  or to \<^verbatim>\<open>NULL\<close> when the payload ends first.
\<close>

definition parse_str_into :: "jls_rd_s \<Rightarrow> (byte list option \<Rightarrow> jls_rd_s \<Rightarrow> jls_rd_s) \<Rightarrow> (unit, jls_rd_s) res" where
  "parse_str_into self put =
     (case payload_parse_str self of
        Success v s \<Rightarrow> Success () (put v s)
      | Failure e s \<Rightarrow> Failure e (put None s)
      | Undefined \<Rightarrow> Undefined)"

text \<open>The body of the loop of \<^verbatim>\<open>scan_sources\<close> for a chunk with a source id in range.\<close>

definition scan_source :: "jls_rd_s \<Rightarrow> nat \<Rightarrow> (unit, jls_rd_s) res" where
  "scan_source self i =
     roe (payload_skip self 64) (\<lambda>_ self.
     roe (parse_str_into self (\<lambda>v. put_source i (\<lambda>d. d\<lparr>name := v\<rparr>))) (\<lambda>_ self.
     roe (parse_str_into self (\<lambda>v. put_source i (\<lambda>d. d\<lparr>vendor := v\<rparr>))) (\<lambda>_ self.
     roe (parse_str_into self (\<lambda>v. put_source i (\<lambda>d. d\<lparr>model := v\<rparr>))) (\<lambda>_ self.
     roe (parse_str_into self (\<lambda>v. put_source i (\<lambda>d. d\<lparr>version := v\<rparr>))) (\<lambda>_ self.
     roe (parse_str_into self (\<lambda>v. put_source i (\<lambda>d. d\<lparr>serial_number := v\<rparr>))) (\<lambda>_ self.
     Success () (put_source i (\<lambda>d. d\<lparr>source_id := of_nat i\<rparr>) self)))))))"

text \<open>
  The loop of \<^verbatim>\<open>scan_sources\<close> follows \<^verbatim>\<open>item_next\<close> until it is 0; in a file
  whose links form a cycle it does not end (\<open>None\<close>).
\<close>

partial_function (option) scan_sources_loop :: "jls_rd_s \<Rightarrow> (unit, jls_rd_s) res option" where
  "scan_sources_loop self =
     (case rd self of
        Failure e s \<Rightarrow> Some (Failure e s)
      | Undefined \<Rightarrow> Some Undefined
      | Success _ self \<Rightarrow>
         (case (if JLS_SOURCE_COUNT \<le> unat (chunk_meta (hdr (chunk_cur self))) then Success () self
                else scan_source self (unat (chunk_meta (hdr (chunk_cur self))))) of
            Failure e s \<Rightarrow> Some (Failure e s)
          | Undefined \<Rightarrow> Some Undefined
          | Success _ self \<Rightarrow>
              if item_next (hdr (chunk_cur self)) = 0 then Some (Success () self)
              else
               (case rd_seek self (item_next (hdr (chunk_cur self))) of
                  Failure e s \<Rightarrow> Some (Failure e s)
                | Undefined \<Rightarrow> Some Undefined
                | Success _ self \<Rightarrow> scan_sources_loop self)))"

declare scan_sources_loop.simps [code]

definition scan_sources :: "jls_rd_s \<Rightarrow> (unit, jls_rd_s) res option" where
  "scan_sources self =
     (case rd_seek self (offset (source_head self)) of
        Failure e s \<Rightarrow> Some (Failure e s)
      | Undefined \<Rightarrow> Some Undefined
      | Success _ self \<Rightarrow> scan_sources_loop self)"

text \<open>
  \<^verbatim>\<open>signal_validate\<close> of the reader. \<^verbatim>\<open>source_def\<close> has \<^verbatim>\<open>JLS_SOURCE_COUNT\<close>
  elements and the source id is read from the payload unchecked.
\<close>

definition rd_signal_validate :: "jls_rd_s \<Rightarrow> nat \<Rightarrow> jls_signal_def_s \<Rightarrow> (unit, jls_rd_s) res" where
  "rd_signal_validate self i s =
     (if JLS_SIGNAL_COUNT \<le> i then Failure JLS_ERROR_PARAMETER_INVALID self
      else if JLS_SOURCE_COUNT \<le> unat (sig_source_id s) then Undefined
      else if source_id (rd_source_def self (unat (sig_source_id s))) \<noteq> sig_source_id s
        then Failure JLS_ERROR_PARAMETER_INVALID self
      else if signal_type s = JLS_SIGNAL_TYPE_FSR \<or> signal_type s = JLS_SIGNAL_TYPE_VSR
        then Success () self
      else Failure JLS_ERROR_PARAMETER_INVALID self)"

definition parse_u32_into :: "jls_rd_s \<Rightarrow> (32 word \<Rightarrow> jls_rd_s \<Rightarrow> jls_rd_s) \<Rightarrow> (unit, jls_rd_s) res" where
  "parse_u32_into self put = roe (payload_parse_u32 self) (\<lambda>v s. Success () (put v s))"

definition handle_signal_def :: "jls_rd_s \<Rightarrow> (unit, jls_rd_s) res" where
  "handle_signal_def self =
     (let i = unat (chunk_meta (hdr (chunk_cur self))) in
      if JLS_SIGNAL_COUNT \<le> i then Failure JLS_ERROR_PARAMETER_INVALID self
      else
        roe (payload_parse_u16 (put_signal i (\<lambda>d. d\<lparr>signal_id := of_nat i\<rparr>) self)) (\<lambda>v self.
        roe (payload_parse_u8 (put_signal i (\<lambda>d. d\<lparr>sig_source_id := v\<rparr>) self)) (\<lambda>v self.
        roe (payload_skip (put_signal i (\<lambda>d. d\<lparr>signal_type := v\<rparr>) self) 1) (\<lambda>_ self.
        roe (parse_u32_into self (\<lambda>v. put_signal i (\<lambda>d. d\<lparr>data_type := v\<rparr>))) (\<lambda>_ self.
        roe (parse_u32_into self (\<lambda>v. put_signal i (\<lambda>d. d\<lparr>sample_rate := v\<rparr>))) (\<lambda>_ self.
        roe (parse_u32_into self (\<lambda>v. put_signal i (\<lambda>d. d\<lparr>samples_per_data := v\<rparr>))) (\<lambda>_ self.
        roe (parse_u32_into self (\<lambda>v. put_signal i (\<lambda>d. d\<lparr>sample_decimate_factor := v\<rparr>))) (\<lambda>_ self.
        roe (parse_u32_into self (\<lambda>v. put_signal i (\<lambda>d. d\<lparr>entries_per_summary := v\<rparr>))) (\<lambda>_ self.
        roe (parse_u32_into self (\<lambda>v. put_signal i (\<lambda>d. d\<lparr>summary_decimate_factor := v\<rparr>))) (\<lambda>_ self.
        roe (parse_u32_into self (\<lambda>v. put_signal i (\<lambda>d. d\<lparr>utc_rate_auto := v\<rparr>))) (\<lambda>_ self.
        roe (payload_skip self 64) (\<lambda>_ self.
        roe (parse_str_into self (\<lambda>v. put_signal i (\<lambda>d. d\<lparr>sig_name := v\<rparr>))) (\<lambda>_ self.
        roe (parse_str_into self (\<lambda>v. put_signal i (\<lambda>d. d\<lparr>si_units := v\<rparr>))) (\<lambda>_ self.
        (case rd_signal_validate self i (rd_signal_def self i) of
           Success _ self \<Rightarrow> Success () (put_signal i (\<lambda>d. d\<lparr>signal_id := of_nat i\<rparr>) self)
         | Failure e self \<Rightarrow> Success () self
         | Undefined \<Rightarrow> Undefined)))))))))))))))"

definition is_signal_defined :: "jls_rd_s \<Rightarrow> 16 word \<Rightarrow> bool" where
  "is_signal_defined self sid0 =
     (let sid = sid0 AND SIGNAL_MASK in
      if JLS_SIGNAL_COUNT \<le> unat sid then False
      else if signal_id (rd_signal_def self (unat sid)) \<noteq> sid then False
      else True)"

definition tag_parse_track_type :: "byte \<Rightarrow> nat" where
  "tag_parse_track_type t = unat (drop_bit 3 t AND 3)"

definition validate_track_tag :: "jls_rd_s \<Rightarrow> 16 word \<Rightarrow> byte \<Rightarrow> (unit, jls_rd_s) res" where
  "validate_track_tag self sid t =
     (if \<not> is_signal_defined self sid then Failure JLS_ERROR_PARAMETER_INVALID self
      else
       (let sd = rd_signal_def self (unat sid);
            track_type = tag_parse_track_type t
        in
        if signal_type sd = JLS_SIGNAL_TYPE_FSR then
          (if track_type = JLS_TRACK_TYPE_FSR \<or> track_type = JLS_TRACK_TYPE_ANNOTATION
              \<or> track_type = JLS_TRACK_TYPE_UTC
           then Success () self else Failure JLS_ERROR_PARAMETER_INVALID self)
        else if signal_type sd = JLS_SIGNAL_TYPE_VSR then
          (if track_type = JLS_TRACK_TYPE_VSR \<or> track_type = JLS_TRACK_TYPE_ANNOTATION
           then Success () self else Failure JLS_ERROR_PARAMETER_INVALID self)
        else Failure JLS_ERROR_PARAMETER_INVALID self))"

definition put_signal_s :: "nat \<Rightarrow> (signal_s \<Rightarrow> signal_s) \<Rightarrow> jls_rd_s \<Rightarrow> jls_rd_s" where
  "put_signal_s i f self = self\<lparr>signals := (signals self)(i := f (signals self i))\<rparr>"

definition handle_track_def :: "jls_rd_s \<Rightarrow> int \<Rightarrow> (unit, jls_rd_s) res" where
  "handle_track_def self pos =
     (let sid = chunk_meta (hdr (chunk_cur self)) AND SIGNAL_MASK in
      roe (validate_track_tag self sid (tag (hdr (chunk_cur self)))) (\<lambda>_ self.
      Success () (put_signal_s (unat sid)
        (\<lambda>s. s\<lparr>track_defs := (track_defs s)(tag_parse_track_type (tag (hdr (chunk_cur self))) := pos)\<rparr>)
        self)))"

text \<open>The 64-bit value at index \<open>k\<close> of a payload read as an array of \<^verbatim>\<open>int64_t\<close>.\<close>

definition i64_at :: "byte list \<Rightarrow> int \<Rightarrow> int option" where
  "i64_at bs k =
     (if k < 0 \<or> int (length bs) < 8 * k + 8 then None
      else Some (sint (word_of_int
             (\<Sum>j \<leftarrow> [0..<8]. push_bit (8 * j) (uint (bs ! (nat (8 * k) + j)))) :: 64 word)))"

definition handle_track_head :: "jls_rd_s \<Rightarrow> int \<Rightarrow> (unit, jls_rd_s) res" where
  "handle_track_head self pos =
     (let sid = chunk_meta (hdr (chunk_cur self)) AND SIGNAL_MASK in
      roe (validate_track_tag self sid (tag (hdr (chunk_cur self)))) (\<lambda>_ self.
      (let track_type = tag_parse_track_type (tag (hdr (chunk_cur self)));
           self = put_signal_s (unat sid)
                    (\<lambda>s. s\<lparr>track_head_offsets := (track_head_offsets s)(track_type := pos)\<rparr>) self;
           expect_sz = JLS_SUMMARY_LEVEL_COUNT * 8
       in
       if length (p_bytes (payload self)) \<noteq> expect_sz then Failure JLS_ERROR_PARAMETER_INVALID self
       else Success () (put_signal_s (unat sid)
              (\<lambda>s. s\<lparr>track_head_data := (track_head_data s)(track_type :=
                      (\<lambda>l. if l < JLS_SUMMARY_LEVEL_COUNT
                            then the (i64_at (p_bytes (payload self)) (int l))
                            else track_head_data s track_type l))\<rparr>)
              self))))"

text \<open>
  The loop of \<^verbatim>\<open>scan_signals\<close>; the return codes of the three handlers are dropped.
  Like \<^verbatim>\<open>scan_sources\<close> it follows \<^verbatim>\<open>item_next\<close>.
\<close>

partial_function (option) scan_signals_loop :: "jls_rd_s \<Rightarrow> (unit, jls_rd_s) res option" where
  "scan_signals_loop self =
     (case rd self of
        Failure e s \<Rightarrow> Some (Failure e s)
      | Undefined \<Rightarrow> Some Undefined
      | Success _ self \<Rightarrow>
         (case ignore_rc
                 (if tag (hdr (chunk_cur self)) = JLS_TAG_SIGNAL_DEF then handle_signal_def self
                  else if tag (hdr (chunk_cur self)) AND 7 = JLS_TRACK_CHUNK_DEF
                    then handle_track_def self (offset (chunk_cur self))
                  else if tag (hdr (chunk_cur self)) AND 7 = JLS_TRACK_CHUNK_HEAD
                    then handle_track_head self (offset (chunk_cur self))
                  else Success () self)
                 (\<lambda>self. Success () self) of
            Failure e s \<Rightarrow> Some (Failure e s)
          | Undefined \<Rightarrow> Some Undefined
          | Success _ self \<Rightarrow>
              if item_next (hdr (chunk_cur self)) = 0 then Some (Success () self)
              else
               (case rd_seek self (item_next (hdr (chunk_cur self))) of
                  Failure e s \<Rightarrow> Some (Failure e s)
                | Undefined \<Rightarrow> Some Undefined
                | Success _ self \<Rightarrow> scan_signals_loop self)))"

declare scan_signals_loop.simps [code]

definition scan_signals :: "jls_rd_s \<Rightarrow> (unit, jls_rd_s) res option" where
  "scan_signals self =
     (case rd_seek self (offset (signal_head self)) of
        Failure e s \<Rightarrow> Some (Failure e s)
      | Undefined \<Rightarrow> Some Undefined
      | Success _ self \<Rightarrow> scan_signals_loop self)"

text \<open>
  The loop of \<^verbatim>\<open>scan\<close>: chunks are read in file order until a user-data, a source
  and a signal definition chunk have been seen (\<open>found = 7\<close>, result \<open>True\<close>) or the file
  ends (\<^verbatim>\<open>return 0\<close>, result \<open>False\<close>). Every chunk read moves the position
  forward, so the loop ends with the file.
\<close>

function scan_loop :: "jls_rd_s \<Rightarrow> byte \<Rightarrow> (bool, jls_rd_s) res" where
  "scan_loop self found =
     (if found = 7 then Success True self
      else
       (let pos = jls_raw_chunk_tell (rd_raw self) in
        case rd self of
          Failure e s \<Rightarrow> if e = JLS_ERROR_EMPTY then Success False s else Failure e s
        | Undefined \<Rightarrow> Undefined
        | Success _ self' \<Rightarrow>
           (let h = hdr (chunk_cur self') in
            if tag h = JLS_TAG_USER_DATA then
              scan_loop (if offset (user_data_head self') = 0
                         then self'\<lparr>user_data_head := \<lparr>hdr = h, offset = pos\<rparr>,
                                   user_data_cur := \<lparr>hdr = h, offset = pos\<rparr>\<rparr>
                         else self') (found OR 1)
            else if tag h = JLS_TAG_SOURCE_DEF then
              scan_loop (if offset (source_head self') = 0
                         then self'\<lparr>source_head := \<lparr>hdr = h, offset = pos\<rparr>\<rparr>
                         else self') (found OR 2)
            else if tag h = JLS_TAG_SIGNAL_DEF then
              scan_loop (if offset (signal_head self') = 0
                         then self'\<lparr>signal_head := \<lparr>hdr = h, offset = pos\<rparr>\<rparr>
                         else self') (found OR 4)
            else scan_loop self' found)))"
  by pat_completeness auto

termination scan_loop
proof -
  have adv: "fend (rd_raw self') = fend (rd_raw self) \<and> fpos (rd_raw self) < fpos (rd_raw self')
             \<and> fpos (rd_raw self) < fend (rd_raw self)"
    if "rd self = Success v self'" for self self' v
  proof -
    have "0 < chunk_size n" for n by (simp add: chunk_size_def)
    with that show ?thesis
      by (auto simp: rd_def jls_raw_rd_def jls_raw_chunk_tell_def Let_def
          split: if_splits option.splits prod.splits raw_rd_result.splits)
  qed
  show ?thesis
    apply (relation "measure (\<lambda>(self, found). nat (fend (rd_raw self) - fpos (rd_raw self)))")
        apply simp
       apply (auto dest!: adv)
    done
qed

definition scan :: "jls_rd_s \<Rightarrow> (unit, jls_rd_s) res option" where
  "scan self =
     (case scan_loop self 0 of
        Failure e s \<Rightarrow> Some (Failure e s)
      | Undefined \<Rightarrow> Some Undefined
      | Success all_found self \<Rightarrow>
          if \<not> all_found then Some (Success () self)
          else
           (case scan_sources self of
              None \<Rightarrow> None
            | Some (Failure e s) \<Rightarrow> Some (Failure e s)
            | Some Undefined \<Rightarrow> Some Undefined
            | Some (Success _ self) \<Rightarrow> scan_signals self))"

definition source_def_zero :: jls_source_def_s where
  "source_def_zero = \<lparr>source_id = 0, name = None, vendor = None, model = None, version = None,
                      serial_number = None\<rparr>"

definition rd_calloc :: jls_rd_s where
  "rd_calloc =
     \<lparr>rd_raw = \<lparr>chunks = Map.empty, fpos = 0, fend = 0\<rparr>,
      rd_source_def = (\<lambda>_. source_def_zero), rd_signal_def = (\<lambda>_. signal_def_zero),
      signals = (\<lambda>_. \<lparr>timestamp_start = 0, timestamp_end = 0, track_defs = (\<lambda>_. 0),
                       track_head_offsets = (\<lambda>_. 0), track_head_data = (\<lambda>_ _. 0)\<rparr>),
      chunk_cur = chunk_zero, payload = \<lparr>p_bytes = [], p_cur = 0\<rparr>, strings_used = 0,
      source_head = chunk_zero, signal_head = chunk_zero, user_data_head = chunk_zero,
      user_data_cur = chunk_zero\<rparr>"

text \<open>
  \<^verbatim>\<open>jls_rd_open\<close> on the file \<open>f\<close>: \<^verbatim>\<open>jls_raw_open(&self->raw, path, "r")\<close> leaves the
  position behind the file header.
\<close>

definition jls_rd_open :: "jls_raw_s \<Rightarrow> (unit, jls_rd_s) res option" where
  "jls_rd_open f = scan (rd_calloc\<lparr>rd_raw := f\<lparr>fpos := FILE_HEADER_SIZE\<rparr>\<rparr>)"

text \<open>\<^verbatim>\<open>jls_rd_sources\<close> and \<^verbatim>\<open>jls_rd_signals\<close>: the entries of the result, in order.\<close>

definition jls_rd_sources :: "jls_rd_s \<Rightarrow> jls_source_def_s list" where
  "jls_rd_sources self =
     map (rd_source_def self)
       (filter (\<lambda>i. source_id (rd_source_def self i) = of_nat i) [0..<JLS_SOURCE_COUNT])"

definition jls_rd_signals :: "jls_rd_s \<Rightarrow> jls_signal_def_s list" where
  "jls_rd_signals self =
     map (rd_signal_def self)
       (filter (\<lambda>i. signal_id (rd_signal_def self i) = of_nat i) [0..<JLS_SIGNAL_COUNT])"

subsection \<open>The reader: samples\<close>

text \<open>
  The highest level with a nonzero offset in the head of a track, from level \<open>l\<close> down
  (the \<^verbatim>\<open>for\<close> loop at the start of \<^verbatim>\<open>seek\<close> and of \<^verbatim>\<open>jls_rd_fsr_length\<close>).
\<close>

fun find_level :: "(nat \<Rightarrow> int) \<Rightarrow> nat \<Rightarrow> (nat \<times> int) option" where
  "find_level offsets 0 = (if offsets 0 \<noteq> 0 then Some (0, offsets 0) else None)"
| "find_level offsets (Suc l) =
     (if offsets (Suc l) \<noteq> 0 then Some (Suc l, offsets (Suc l)) else find_level offsets l)"

text \<open>
  \<^verbatim>\<open>int64_t\<close> arithmetic: a result outside the type is undefined, as is a division by 0;
  the quotient is truncated towards 0.
\<close>

definition in_i64 :: "int \<Rightarrow> bool" where
  "in_i64 x = (- (2 ^ 63) \<le> x \<and> x < 2 ^ 63)"

definition i64_div :: "int \<Rightarrow> int \<Rightarrow> int option" where
  "i64_div a b =
     (if b = 0 then None
      else (let q = sgn a * sgn b * (\<bar>a\<bar> div \<bar>b\<bar>) in if in_i64 q then Some q else None))"

text \<open>
  \<^verbatim>\<open>step_size = samples_per_data; for (k = 1; k < lvl; ++k) step_size *= entries_per_summary\<close>
\<close>

fun step_size_loop :: "int \<Rightarrow> int \<Rightarrow> nat \<Rightarrow> int option" where
  "step_size_loop step e 0 = Some step"
| "step_size_loop step e (Suc n) =
     (if in_i64 (step * e) then step_size_loop (step * e) e n else None)"

text \<open>
  The descent of \<^verbatim>\<open>seek\<close> from level \<open>lvl\<close> with the chunk offset \<open>off\<close>:
  \<^verbatim>\<open>
    for (int lvl = initial_level; lvl > level; --lvl) {
        ... step_size ...
        ROE(jls_raw_chunk_seek(self->raw, offset));
        ROE(rd(self));
        int64_t * payload = (int64_t *) self->payload.start;
        int64_t chunk_timestamp = payload[0];
        int64_t chunk_entries = payload[1];
        if (((2 + chunk_entries) * sizeof(int64_t)) > self->payload.length) {
            return JLS_ERROR_PARAMETER_INVALID;
        }
        int64_t idx = (sample_id - chunk_timestamp) / step_size;
        offset = payload[2 + idx];
    }
  \<close>
  The product with \<^verbatim>\<open>sizeof\<close> is unsigned and wraps at \<open>2^64\<close>.
\<close>

fun seek_loop :: "jls_rd_s \<Rightarrow> jls_signal_def_s \<Rightarrow> nat \<Rightarrow> int \<Rightarrow> nat \<Rightarrow> int \<Rightarrow> (int, jls_rd_s) res" where
  "seek_loop self sd level sample_id 0 off = Success off self"
| "seek_loop self sd level sample_id (Suc l) off =
     (if Suc l \<le> level then Success off self
      else
       (case step_size_loop (uint (samples_per_data sd))
               (uint (entries_per_summary sd)) l of
          None \<Rightarrow> Undefined
        | Some step_size \<Rightarrow>
            roe (rd_seek self off) (\<lambda>_ self.
            roe (rd self) (\<lambda>_ self.
            (let bs = p_bytes (payload self) in
             case (i64_at bs 0, i64_at bs 1) of
               (Some chunk_timestamp, Some chunk_entries) \<Rightarrow>
                 if \<not> in_i64 (2 + chunk_entries) then Undefined
                 else if int (length bs) < ((2 + chunk_entries) * 8) mod 2 ^ 64
                   then Failure JLS_ERROR_PARAMETER_INVALID self
                 else if \<not> in_i64 (sample_id - chunk_timestamp) then Undefined
                 else
                  (case i64_div (sample_id - chunk_timestamp) step_size of
                     None \<Rightarrow> Undefined
                   | Some idx \<Rightarrow>
                      (case i64_at bs (2 + idx) of
                         None \<Rightarrow> Undefined
                       | Some off' \<Rightarrow> seek_loop self sd level sample_id l off'))
             | _ \<Rightarrow> Undefined)))))"

text \<open>
  \<^verbatim>\<open>seek\<close>. \<^verbatim>\<open>is_signal_defined\<close> masks the signal id, the array accesses that follow
  do not.
\<close>

definition seek :: "jls_rd_s \<Rightarrow> 16 word \<Rightarrow> byte \<Rightarrow> int \<Rightarrow> (unit, jls_rd_s) res" where
  "seek self sid level sample_id =
     (if \<not> is_signal_defined self sid then Failure JLS_ERROR_NOT_FOUND self
      else if JLS_SIGNAL_COUNT \<le> unat sid then Undefined
      else
       (let sd = rd_signal_def self (unat sid) in
        if signal_type sd \<noteq> JLS_SIGNAL_TYPE_FSR then Failure JLS_ERROR_NOT_SUPPORTED self
        else
         (case find_level (track_head_data (signals self (unat sid)) JLS_TRACK_TYPE_FSR)
                 (JLS_SUMMARY_LEVEL_COUNT - 1) of
            None \<Rightarrow> Failure JLS_ERROR_NOT_FOUND self
          | Some (initial_level, off) \<Rightarrow>
              roe (seek_loop self sd (unat level) sample_id initial_level off) (\<lambda>off self.
              rd_seek self off))))"

text \<open>
  The descent of \<^verbatim>\<open>jls_rd_fsr_length\<close>: at every level above 0 the last entry of the
  index chunk, \<^verbatim>\<open>payload[2 + payload[1] - 1]\<close>.
\<close>

fun length_loop :: "jls_rd_s \<Rightarrow> nat \<Rightarrow> int \<Rightarrow> (int, jls_rd_s) res" where
  "length_loop self 0 off = Success off self"
| "length_loop self (Suc l) off =
     roe (rd_seek self off) (\<lambda>_ self.
     roe (rd self) (\<lambda>_ self.
     (let bs = p_bytes (payload self) in
      case i64_at bs 1 of
        None \<Rightarrow> Undefined
      | Some entries \<Rightarrow>
          if \<not> in_i64 (2 + entries) then Undefined
          else if int (length bs) < ((2 + entries) * 8) mod 2 ^ 64
            then Failure JLS_ERROR_PARAMETER_INVALID self
          else
           (case i64_at bs (2 + entries - 1) of
              None \<Rightarrow> Undefined
            | Some off' \<Rightarrow> length_loop self l off'))))"

definition jls_rd_fsr_length :: "jls_rd_s \<Rightarrow> 16 word \<Rightarrow> (int, jls_rd_s) res" where
  "jls_rd_fsr_length self sid =
     (if \<not> is_signal_defined self sid then Failure JLS_ERROR_NOT_FOUND self
      else if JLS_SIGNAL_COUNT \<le> unat sid then Undefined
      else
       (let sd = rd_signal_def self (unat sid) in
        if signal_type sd \<noteq> JLS_SIGNAL_TYPE_FSR then Failure JLS_ERROR_NOT_SUPPORTED self
        else
         (case find_level (track_head_data (signals self (unat sid)) JLS_TRACK_TYPE_FSR)
                 (JLS_SUMMARY_LEVEL_COUNT - 1) of
            None \<Rightarrow> Success 0 self
          | Some (level, off) \<Rightarrow>
              roe (length_loop self level off) (\<lambda>off self.
              roe (rd_seek self off) (\<lambda>_ self.
              roe (rd self) (\<lambda>_ self.
              (let bs = p_bytes (payload self) in
               case (i64_at bs 0, i64_at bs 1) of
                 (Some a, Some b) \<Rightarrow> if in_i64 (a + b) then Success (a + b) self else Undefined
               | _ \<Rightarrow> Undefined)))))))"

text \<open>The \<^verbatim>\<open>float\<close> at index \<open>k\<close> of the samples of a data chunk, \<^verbatim>\<open>((float *) &i64[2])[k]\<close>.\<close>

definition f32_at :: "byte list \<Rightarrow> nat \<Rightarrow> 32 word option" where
  "f32_at bs k =
     (if length bs < 16 + 4 * k + 4 then None
      else Some (word_of_int (\<Sum>j \<leftarrow> [0..<4]. push_bit (8 * j) (uint (bs ! (16 + 4 * k + j))))))"

definition f32_range :: "byte list \<Rightarrow> nat \<Rightarrow> nat \<Rightarrow> 32 word list option" where
  "f32_range bs k n =
     (if n = 0 then Some []
      else if length bs < 16 + 4 * (k + n) then None
      else Some (map (\<lambda>j. the (f32_at bs j)) [k..<k + n]))"

text \<open>
  The loop of \<^verbatim>\<open>jls_rd_fsr_f32\<close>; \<open>out\<close> are the samples stored to \<^verbatim>\<open>data\<close> so far.
  A negative count becomes a huge \<^verbatim>\<open>size_t\<close> in \<^verbatim>\<open>memcpy\<close>. Every pass reads a
  chunk, so the loop ends with the file at the latest.
\<close>

function fsr_f32_loop :: "jls_rd_s \<Rightarrow> int \<Rightarrow> int \<Rightarrow> 32 word list \<Rightarrow> (32 word list, jls_rd_s) res" where
  "fsr_f32_loop self start_sample_id data_length out =
     (if data_length \<le> 0 then Success out self
      else
       (case rd self of
          Failure e s \<Rightarrow> Failure e s
        | Undefined \<Rightarrow> Undefined
        | Success _ self' \<Rightarrow>
           (let bs = p_bytes (payload self') in
            case (i64_at bs 0, i64_at bs 1) of
              (Some chunk_sample_id, Some chunk_sample_count0) \<Rightarrow>
                if \<not> in_i64 (start_sample_id - chunk_sample_id) then Undefined
                else
                 (let idx_start = (if chunk_sample_id < start_sample_id
                                   then start_sample_id - chunk_sample_id else 0)
                  in
                  if \<not> in_i64 (chunk_sample_count0 - idx_start) then Undefined
                  else
                   (let chunk_sample_count =
                          (if data_length < chunk_sample_count0 - idx_start then data_length
                           else chunk_sample_count0 - idx_start)
                    in
                    if chunk_sample_count < 0 then Undefined
                    else
                     (case f32_range bs (nat idx_start) (nat chunk_sample_count) of
                        None \<Rightarrow> Undefined
                      | Some fs \<Rightarrow>
                          fsr_f32_loop self' start_sample_id (data_length - chunk_sample_count)
                            (out @ fs))))
            | _ \<Rightarrow> Undefined)))"
  by pat_completeness auto
termination
proof -
  have adv: "fend (rd_raw self') = fend (rd_raw self) \<and> fpos (rd_raw self) < fpos (rd_raw self')
             \<and> fpos (rd_raw self) < fend (rd_raw self)"
    if "rd self = Success v self'" for self self' v
  proof -
    have "0 < chunk_size n" for n by (simp add: chunk_size_def)
    with that show ?thesis
      by (auto simp: rd_def jls_raw_rd_def jls_raw_chunk_tell_def Let_def
          split: if_splits option.splits prod.splits raw_rd_result.splits)
  qed
  show ?thesis
    apply (relation "measure (\<lambda>(self, s, n, out). nat (fend (rd_raw self) - fpos (rd_raw self)))")
     apply simp
    apply (auto dest!: adv)
    done
qed

definition jls_rd_fsr_f32 :: "jls_rd_s \<Rightarrow> 16 word \<Rightarrow> int \<Rightarrow> int \<Rightarrow> (32 word list, jls_rd_s) res" where
  "jls_rd_fsr_f32 self sid start_sample_id data_length =
     roe (seek self sid 0 start_sample_id) (\<lambda>_ self.
     fsr_f32_loop self start_sample_id data_length [])"

subsection \<open>Logical lists and writer sessions\<close>

text \<open>
  The logical list of a chunk, from its header: the user-data list, the source list, the
  signal list (signal definitions, track definitions and track heads, which
  \<^verbatim>\<open>scan_signals\<close> tells apart by \<^verbatim>\<open>tag & 7\<close>), or the list of one kind of chunk of
  one track of one signal (the same tag and the same \<^verbatim>\<open>chunk_meta\<close>).
\<close>

datatype jls_list = List_user_data | List_sources | List_signals | List_track byte "16 word"

definition list_of :: "jls_chunk_header_s \<Rightarrow> jls_list" where
  "list_of h =
     (if tag h = JLS_TAG_USER_DATA then List_user_data
      else if tag h = JLS_TAG_SOURCE_DEF then List_sources
      else if tag h = JLS_TAG_SIGNAL_DEF \<or> tag h AND 7 = JLS_TRACK_CHUNK_DEF
              \<or> tag h AND 7 = JLS_TRACK_CHUNK_HEAD then List_signals
      else List_track (tag h) (chunk_meta h))"

text \<open>
  The doubly-linked-list property of a file: the chunk that a nonzero \<^verbatim>\<open>item_next\<close>
  points to exists, points back with \<^verbatim>\<open>item_prev\<close> and is of the same list.
\<close>

definition linked :: "jls_raw_s \<Rightarrow> bool" where
  "linked r \<longleftrightarrow>
     (\<forall>off h bs. chunks r off = Some (h, bs) \<and> item_next h \<noteq> 0 \<longrightarrow>
        (\<exists>h' bs'. chunks r (item_next h) = Some (h', bs') \<and> item_prev h' = off
                   \<and> list_of h' = list_of h))"

text \<open>
  The most-recently-added descriptors of the writer, one for each list it appends to:
  \<^verbatim>\<open>source_mra\<close>, \<^verbatim>\<open>signal_mra\<close>, \<^verbatim>\<open>user_data_mra\<close> and
  \<^verbatim>\<open>signal_info[i].tracks[t].data\<close>.
\<close>

datatype mra_slot = Slot_source | Slot_signal | Slot_user_data | Slot_track nat nat

fun get_mra :: "mra_slot \<Rightarrow> jls_wr_s \<Rightarrow> chunk_s" where
  "get_mra Slot_source self = source_mra self"
| "get_mra Slot_signal self = signal_mra self"
| "get_mra Slot_user_data self = user_data_mra self"
| "get_mra (Slot_track i t) self = get_track_data i t self"

definition mras :: "jls_wr_s \<Rightarrow> mra_slot \<Rightarrow> chunk_s" where
  "mras self sl = get_mra sl self"

fun put_mra :: "mra_slot \<Rightarrow> chunk_s \<Rightarrow> jls_wr_s \<Rightarrow> jls_wr_s" where
  "put_mra Slot_source = put_source_mra"
| "put_mra Slot_signal = put_signal_mra"
| "put_mra Slot_user_data = put_user_data_mra"
| "put_mra (Slot_track i t) = put_track_data i t"

fun slot_list :: "mra_slot \<Rightarrow> jls_list" where
  "slot_list Slot_source = List_sources"
| "slot_list Slot_signal = List_signals"
| "slot_list Slot_user_data = List_user_data"
| "slot_list (Slot_track i t) = List_track (track_tag (of_nat t) JLS_TRACK_CHUNK_DATA) (of_nat i)"

fun slot_in_range :: "mra_slot \<Rightarrow> bool" where
  "slot_in_range (Slot_track i t) = (i < JLS_SIGNAL_COUNT \<and> t < 4)"
| "slot_in_range _ = True"

text \<open>
  A descriptor is unused (offset 0), or it is the header of the chunk at its offset, the
  last of its list.
\<close>

definition mra_ok :: "jls_raw_s \<Rightarrow> mra_slot \<Rightarrow> chunk_s \<Rightarrow> bool" where
  "mra_ok r sl m \<longleftrightarrow>
     offset m = 0 \<or>
     (slot_in_range sl \<and> (\<exists>bs. chunks r (offset m) = Some (hdr m, bs))
      \<and> item_next (hdr m) = 0 \<and> list_of (hdr m) = slot_list sl)"

text \<open>
  The invariant of the file and the descriptors: the position is the end of the file,
  every chunk starts before it, the lists are linked, and every descriptor is the tail
  of its list.
\<close>

definition lists_inv :: "jls_raw_s \<Rightarrow> (mra_slot \<Rightarrow> chunk_s) \<Rightarrow> bool" where
  "lists_inv r M \<longleftrightarrow>
     0 < fpos r \<and> fpos r = fend r
     \<and> (\<forall>off. chunks r off \<noteq> None \<longrightarrow> 0 < off \<and> off < fend r)
     \<and> linked r \<and> (\<forall>sl. mra_ok r sl (M sl))"

text \<open>
  The invariant of the writer: the lists, every defined signal has the \<^verbatim>\<open>track_type\<close> that \<^verbatim>\<open>jls_wr_signal_def\<close> gives it, a data tag.
\<close>

definition wr_inv :: "jls_wr_s \<Rightarrow> bool" where
  "wr_inv self \<longleftrightarrow>
     lists_inv (raw self) (mras self)
     \<and> (\<forall>i. offset (chunk_def (signal_info self i)) \<noteq> 0 \<longrightarrow>
            4 \<le> unat (track_type (signal_info self i)))
     \<and> (\<forall>i t. offset (chunk_def (signal_info self i)) = 0 \<longrightarrow>
            offset (t_head (tracks (signal_info self i) t)) = 0)"

text \<open>What is defined stays as it is: the sources and the signals with a nonzero offset.\<close>

definition keeps :: "jls_wr_s \<Rightarrow> jls_wr_s \<Rightarrow> bool" where
  "keeps s s' \<longleftrightarrow>
     (\<forall>i. offset (source_info s i) \<noteq> 0 \<longrightarrow> source_info s' i = source_info s i)
     \<and> (\<forall>i. offset (chunk_def (signal_info s i)) \<noteq> 0 \<longrightarrow>
            chunk_def (signal_info s' i) = chunk_def (signal_info s i)
            \<and> signal_def (signal_info s' i) = signal_def (signal_info s i)
            \<and> track_type (signal_info s' i) = track_type (signal_info s i))"

text \<open>
  What the calls that write a chunk leave alone: the source table and, of every signal,
  the descriptor of its definition chunk, its definition, its sample buffer, its
  \<^verbatim>\<open>track_type\<close> and the descriptors of the definition and head chunks of its tracks.
\<close>

definition same_defs :: "jls_wr_s \<Rightarrow> jls_wr_s \<Rightarrow> bool" where
  "same_defs s s' \<longleftrightarrow>
     source_info s' = source_info s
     \<and> (\<forall>i. chunk_def (signal_info s' i) = chunk_def (signal_info s i)
            \<and> track_type (signal_info s' i) = track_type (signal_info s i)
            \<and> signal_def (signal_info s' i) = signal_def (signal_info s i)
            \<and> sample_buffer (signal_info s' i) = sample_buffer (signal_info s i))
     \<and> (\<forall>i t. t_head (tracks (signal_info s' i) t) = t_head (tracks (signal_info s i) t)
              \<and> t_def (tracks (signal_info s' i) t) = t_def (tracks (signal_info s i) t))"

definition raw_put :: "jls_raw_s \<Rightarrow> jls_chunk_header_s \<Rightarrow> byte list \<Rightarrow> jls_raw_s" where
  "raw_put r h bs = r\<lparr>chunks := (chunks r)(fpos r \<mapsto> (h, bs)),
                      fpos := fpos r + chunk_size (unat (payload_length h)),
                      fend := max (fend r) (fpos r + chunk_size (unat (payload_length h)))\<rparr>"

definition buf_rel :: "jls_wr_s \<Rightarrow> jls_wr_s \<Rightarrow> bool" where
  "buf_rel S s \<longleftrightarrow> (\<exists>b. s = S\<lparr>buf := b\<rparr>)"

text \<open>The calls of the writer's interface, and a session: a sequence of calls.\<close>

datatype wr_op =
    Wr_source_def "jls_source_def_s option"
  | Wr_signal_def "jls_signal_def_s option"
  | Wr_user_data "16 word" int "byte list option" "32 word"
  | Wr_fsr_f32 "16 word" "64 word" "32 word list option" "32 word"
  | Wr_fsr_annotation "16 word" "64 word" int int "byte list option" "32 word"
  | Wr_fsr_utc "16 word" "64 word" "64 word"
  | Wr_vsr_annotation "16 word" "64 word" int int "byte list option" "32 word"

fun wr_step :: "jls_wr_s \<Rightarrow> wr_op \<Rightarrow> (unit, jls_wr_s) res" where
  "wr_step self (Wr_source_def s) = jls_wr_source_def self s"
| "wr_step self (Wr_signal_def s) = jls_wr_signal_def self s"
| "wr_step self (Wr_user_data m st d n) = jls_wr_user_data self m st d n"
| "wr_step self (Wr_fsr_f32 sid t d n) = jls_wr_fsr_f32 self sid t d n"
| "wr_step self (Wr_fsr_annotation sid t a st d n) = jls_wr_fsr_annotation self sid t a st d n"
| "wr_step self (Wr_fsr_utc sid t u) = jls_wr_fsr_utc self sid t u"
| "wr_step self (Wr_vsr_annotation sid t a st d n) = jls_wr_vsr_annotation self sid t a st d n"

text \<open>
  A session goes on after a call that returns an error code, with the writer as that call
  left it; it has no result when a call is undefined.
\<close>

fun wr_run :: "jls_wr_s \<Rightarrow> wr_op list \<Rightarrow> jls_wr_s option" where
  "wr_run self [] = Some self"
| "wr_run self (c # cs) =
     (case wr_step self c of
        Success _ self' \<Rightarrow> wr_run self' cs
      | Failure _ self' \<Rightarrow> wr_run self' cs
      | Undefined \<Rightarrow> None)"

text \<open>The state that a call leaves satisfies \<open>Q\<close>, whether it returns 0 or an error code.\<close>

definition post :: "('v, 's) res \<Rightarrow> ('s \<Rightarrow> bool) \<Rightarrow> bool" where
  "post r Q = (case r of Success v s \<Rightarrow> Q s | Failure e s \<Rightarrow> Q s | Undefined \<Rightarrow> True)"

text \<open>The state that a call leaves when it returns 0 satisfies \<open>Q\<close>.\<close>

definition post_ok :: "('v, 's) res \<Rightarrow> ('s \<Rightarrow> bool) \<Rightarrow> bool" where
  "post_ok r Q = (case r of Success v s \<Rightarrow> Q s | Failure e s \<Rightarrow> True | Undefined \<Rightarrow> True)"


subsection \<open>Example inputs\<close>

text \<open>
  The signal of \<^verbatim>\<open>example/performance.c\<close> (\<^verbatim>\<open>SIGNAL_1\<close>), on source 0; the example
  does not set \<^verbatim>\<open>decimations_per_chunk\<close>.
\<close>

definition SIGNAL_1 :: jls_signal_def_s where
  "SIGNAL_1 = \<lparr>signal_id = 1, sig_source_id = 0, signal_type = JLS_SIGNAL_TYPE_FSR,
               data_type = JLS_DATATYPE_F32, sample_rate = 1000000, samples_per_data = 100000,
               sample_decimate_factor = 100, entries_per_summary = 20000,
               summary_decimate_factor = 100, decimations_per_chunk = 0,
               utc_rate_auto = 0, sig_name = literal ''performance_1'',
               si_units = literal ''A''\<rparr>"

text \<open>A VSR signal: \<^verbatim>\<open>SIGNAL_0\<close> with a unit of one character.\<close>

definition SIGNAL_V :: jls_signal_def_s where
  "SIGNAL_V = SIGNAL_0\<lparr>si_units := literal ''V''\<rparr>"


text \<open>The first two calls of \<^verbatim>\<open>jls_wr_open\<close>, as calls of a session.\<close>

definition open_calls :: "wr_op list" where
  "open_calls = [Wr_user_data 0 JLS_STORAGE_TYPE_INVALID None 0, Wr_source_def (Some SOURCE_0)]"

text \<open>
  \<^verbatim>\<open>jls_wr_open\<close> where the bytes \<open>m\<close> follow the literal \<^verbatim>\<open>""\<close> of
  \<^verbatim>\<open>SIGNAL_0.si_units\<close> in memory: \<^verbatim>\<open>buf_add_str\<close> reads the byte after the
  terminator it has copied, so what it writes depends on them. \<open>jls_wr_open\<close> is the case
  in which nothing follows the literal.
\<close>

definition SIGNAL_0_at :: "byte list \<Rightarrow> jls_signal_def_s" where
  "SIGNAL_0_at m = SIGNAL_0\<lparr>si_units := Some (0 # m)\<rparr>"

definition jls_wr_open_at :: "byte list \<Rightarrow> (unit, jls_wr_s) res" where
  "jls_wr_open_at m =
     roe (jls_wr_user_data wr_calloc 0 JLS_STORAGE_TYPE_INVALID None 0) (\<lambda>_ self.
     roe (jls_wr_source_def self (Some SOURCE_0)) (\<lambda>_ self.
     roe (jls_wr_signal_def self (Some (SIGNAL_0_at m))) (\<lambda>_ self.
     Success () self)))"

text \<open>
  The calls of \<^verbatim>\<open>example/performance.c\<close> before it writes samples:
  \<^verbatim>\<open>jls_wr_open\<close>, \<^verbatim>\<open>jls_wr_source_def\<close> of its \<^verbatim>\<open>SOURCE_1\<close> and
  \<^verbatim>\<open>jls_wr_signal_def\<close> of its \<^verbatim>\<open>SIGNAL_1\<close>, which is on source 1. The bytes \<open>m\<close>
  follow each literal \<^verbatim>\<open>""\<close> in memory.
\<close>

definition SOURCE_1_at :: "byte list \<Rightarrow> jls_source_def_s" where
  "SOURCE_1_at m = \<lparr>source_id = 1, name = literal ''performance'', vendor = literal ''jls'',
                     model = Some (0 # m), version = Some (0 # m), serial_number = Some (0 # m)\<rparr>"

definition SIGNAL_1_perf :: jls_signal_def_s where
  "SIGNAL_1_perf = SIGNAL_1\<lparr>sig_source_id := 1\<rparr>"

definition perf_calls :: "byte list \<Rightarrow> wr_op list" where
  "perf_calls m = open_calls @ [Wr_signal_def (Some (SIGNAL_0_at m)),
     Wr_source_def (Some (SOURCE_1_at m)), Wr_signal_def (Some SIGNAL_1_perf)]"

text \<open>
  A file with one FSR signal (id 1, \<^verbatim>\<open>samples_per_data = 10\<close>,
  \<^verbatim>\<open>entries_per_summary = 10\<close>) whose FSR track has a level-1 index chunk at offset 421
  with one entry, the data chunk at offset 481 with the samples 0 and 1 of the signal.
  The payloads follow the layouts that \<^verbatim>\<open>reader.c\<close> parses.
\<close>

definition le64 :: "int \<Rightarrow> byte list" where
  "le64 v = u64_bytes (word_of_int v)"

definition index_file :: jls_raw_s where
  "index_file =
     \<lparr>chunks =
        [32 \<mapsto> (\<lparr>item_next = 0, item_prev = 0, tag = JLS_TAG_USER_DATA, rsv0_u8 = 0,
                   chunk_meta = 0, payload_length = 0, payload_prev_length = 0\<rparr>, []),
         68 \<mapsto> (\<lparr>item_next = 0, item_prev = 0, tag = JLS_TAG_SOURCE_DEF, rsv0_u8 = 0,
                   chunk_meta = 0, payload_length = 79, payload_prev_length = 0\<rparr>,
                  replicate 64 0 @ [115, 0, 31, 115, 0, 31, 115, 0, 31, 115, 0, 31, 115, 0, 31]),
         183 \<mapsto> (\<lparr>item_next = 321, item_prev = 0, tag = JLS_TAG_SIGNAL_DEF, rsv0_u8 = 0,
                    chunk_meta = 1, payload_length = 102, payload_prev_length = 79\<rparr>,
                   [0, 0, 0, 0] @ u32_bytes 0 @ u32_bytes 1000 @ u32_bytes 10 @ u32_bytes 10
                   @ u32_bytes 10 @ u32_bytes 10 @ u32_bytes 0 @ replicate 64 0
                   @ [120, 0, 31, 65, 0, 31]),
         321 \<mapsto> (\<lparr>item_next = 0, item_prev = 183, tag = 0x21, rsv0_u8 = 0,
                    chunk_meta = 1, payload_length = 64, payload_prev_length = 102\<rparr>,
                   le64 0 @ le64 421 @ le64 0 @ le64 0 @ le64 0 @ le64 0 @ le64 0 @ le64 0),
         421 \<mapsto> (\<lparr>item_next = 0, item_prev = 0, tag = JLS_TAG_TRACK_FSR_INDEX, rsv0_u8 = 0,
                    chunk_meta = 0x1001, payload_length = 24, payload_prev_length = 64\<rparr>,
                   le64 0 @ le64 1 @ le64 481),
         481 \<mapsto> (\<lparr>item_next = 0, item_prev = 0, tag = JLS_TAG_TRACK_FSR_DATA, rsv0_u8 = 0,
                    chunk_meta = 1, payload_length = 24, payload_prev_length = 24\<rparr>,
                   le64 0 @ le64 2 @ u32_bytes 0x3F800000 @ u32_bytes 0x40000000)],
      fpos = 541, fend = 541\<rparr>"

section \<open>Properties\<close>

subsection \<open>Strings in chunk payloads\<close>

text \<open>
  A string of at least one character, none of them 0, behind which the terminator is in
  the object, is stored as its characters followed by \<open>0x00, 0x1F\<close>, when the scratch
  buffer has room for them.
\<close>

lemma buf_add_str_loop_nonempty:
  "s \<noteq> [] \<Longrightarrow> 0 \<notin> set s \<Longrightarrow> length b + length s + 2 \<le> BUFFER_SIZE \<Longrightarrow>
   buf_add_str_loop b (s @ 0 # rest) = Success () (b @ s @ [0, 0x1f])"
proof (induction s arbitrary: b)
  case Nil
  then show ?case by simp
next
  case (Cons c s)
  show ?case
  proof (cases s)
    case Nil
    with Cons.prems show ?thesis by simp
  next
    case (Cons d s')
    with Cons.prems Cons.IH[of "b @ [c]"] show ?thesis by simp
  qed
qed

text \<open>
  Claim C5 (every string field, the empty string included, is written as its characters
  followed by \<open>0x00, 0x1F\<close> and nothing else) fails for the empty string.
  \<^verbatim>\<open>buf_add_str\<close> copies the first byte before it tests anything, and its test
  reads the byte after the one copied. For the literal \<^verbatim>\<open>""\<close>, an object of one byte,
  that read is outside the object. When the terminator is followed by another 0 byte the
  output is \<open>0x00, 0x00, 0x1F\<close>; when it is followed by \<^verbatim>\<open>"A"\<close> the output is
  \<open>0x00, 0x41, 0x00, 0x1F\<close>. \<^verbatim>\<open>SIGNAL_0.si_units\<close> is \<^verbatim>\<open>""\<close>.
\<close>

theorem buf_add_str_empty_string:
  "buf_add_str_loop [] [0] = Undefined
   \<and> buf_add_str_loop [] [0, 0] = Success () [0, 0, 0x1f]
   \<and> buf_add_str_loop [] [0, 0x41, 0] = Success () [0, 0x41, 0, 0x1f]
   \<and> buf_add_str (buf_reset wr_calloc) (si_units SIGNAL_0) = Undefined"
  by (simp add: BUFFER_SIZE_def buf_add_str_def literal_def buf_reset_def wr_calloc_def
      lift_res_def SIGNAL_0_def)

subsection \<open>User data\<close>

text \<open>
  Claim C8 (\<^verbatim>\<open>jls_wr_user_data\<close> with \<^verbatim>\<open>data == NULL\<close> and \<^verbatim>\<open>data_size > 0\<close>
  returns \<^verbatim>\<open>JLS_ERROR_PARAMETER_INVALID\<close> and writes nothing) fails for every even
  \<^verbatim>\<open>data_size\<close>: the test is \<^verbatim>\<open>data_size & !data\<close>, which looks at bit 0 of
  \<^verbatim>\<open>data_size\<close> only. With \<^verbatim>\<open>data_size = 2\<close> the call goes on to write a chunk of
  two payload bytes from \<^verbatim>\<open>NULL\<close>; with \<^verbatim>\<open>data_size = 3\<close> it is rejected.
\<close>

theorem jls_wr_user_data_null_even:
  "jls_wr_user_data self m JLS_STORAGE_TYPE_BINARY None 2 = Undefined
   \<and> jls_wr_user_data self m JLS_STORAGE_TYPE_BINARY None 3 = Failure JLS_ERROR_PARAMETER_INVALID self"
  by (simp add: jls_wr_user_data_def JLS_STORAGE_TYPE_BINARY_def JLS_STORAGE_TYPE_INVALID_def
      jls_raw_wr_def read_bytes_def raw_op_def lift_res_def roe_def Let_def)

subsection \<open>The lists of the writer: auxiliary facts\<close>

lemma chunk_size_pos: "0 < chunk_size n"
  by (simp add: chunk_size_def)

lemma list_of_item_next [simp]: "list_of (h\<lparr>item_next := n\<rparr>) = list_of h"
  by (simp add: list_of_def)

lemma slot_list_inj:
  "slot_in_range a \<Longrightarrow> slot_in_range b \<Longrightarrow> slot_list a = slot_list b \<Longrightarrow> a = b"
proof (cases a; cases b)
  fix i t i' t'
  assume ab: "a = Slot_track i t" "b = Slot_track i' t'"
    and ra: "slot_in_range a" and rb: "slot_in_range b" and eq: "slot_list a = slot_list b"
  from ab ra rb have r: "i < 256" "t < 4" "i' < 256" "t' < 4"
    by (simp_all add: JLS_SIGNAL_COUNT_def)
  from ab eq have e1: "(of_nat i :: 16 word) = of_nat i'"
    and e2: "track_tag (of_nat t) JLS_TRACK_CHUNK_DATA = track_tag (of_nat t') JLS_TRACK_CHUNK_DATA"
    by simp_all
  from e1 have "take_bit 16 i = take_bit 16 i'"
    by (simp add: word_of_nat_eq_iff)
  moreover from r have "i < 2 ^ 16" "i' < 2 ^ 16" by simp_all
  ultimately have "i = i'"
    by (simp add: take_bit_nat_eq_self)
  moreover
  from r(2) have "t = 0 \<or> t = 1 \<or> t = 2 \<or> t = 3" by arith
  moreover from r(4) have "t' = 0 \<or> t' = 1 \<or> t' = 2 \<or> t' = 3" by arith
  ultimately show "a = b" using e2 ab
    by (auto simp: track_tag_def JLS_TRACK_CHUNK_DATA_def)
qed simp_all

lemma lists_inv_cong:
  "chunks r' = chunks r \<Longrightarrow> fpos r' = fpos r \<Longrightarrow> fend r' = fend r \<Longrightarrow> lists_inv r' M = lists_inv r M"
  by (simp add: lists_inv_def linked_def mra_ok_def)

lemma lists_inv_fresh: "lists_inv r M \<Longrightarrow> chunks r (fpos r) = None"
  by (cases "chunks r (fpos r)") (auto simp: lists_inv_def)

lemma lists_inv_put:
  assumes inv: "lists_inv r M" and nx: "item_next h = 0"
  shows "lists_inv (raw_put r h bs) M"
proof -
  from inv have pos: "0 < fpos r" "fpos r = fend r"
    and dom: "\<And>off. chunks r off \<noteq> None \<Longrightarrow> 0 < off \<and> off < fend r"
    and lk: "linked r" and mra: "\<And>sl. mra_ok r sl (M sl)"
    by (auto simp: lists_inv_def)
  have fresh: "chunks r (fpos r) = None" using inv by (rule lists_inv_fresh)
  have sz: "0 < chunk_size (unat (payload_length h))" by (rule chunk_size_pos)
  have ch: "chunks (raw_put r h bs) = (chunks r)(fpos r \<mapsto> (h, bs))"
    by (simp add: raw_put_def)
  have fe: "fend (raw_put r h bs) = fend r + chunk_size (unat (payload_length h))"
    "fpos (raw_put r h bs) = fend r + chunk_size (unat (payload_length h))"
    using pos sz by (simp_all add: raw_put_def)
  have "linked (raw_put r h bs)"
    unfolding linked_def ch
  proof (intro allI impI)
    fix off h0 bs0
    assume a: "((chunks r)(fpos r \<mapsto> (h, bs))) off = Some (h0, bs0) \<and> item_next h0 \<noteq> 0"
    with nx have ne: "off \<noteq> fpos r" by auto
    with a have c: "chunks r off = Some (h0, bs0)" by simp
    with lk a obtain h' bs' where t: "chunks r (item_next h0) = Some (h', bs')"
      "item_prev h' = off" "list_of h' = list_of h0"
      unfolding linked_def by blast
    from t(1) fresh have "item_next h0 \<noteq> fpos r" by auto
    with t show "\<exists>h' bs'. ((chunks r)(fpos r \<mapsto> (h, bs))) (item_next h0) = Some (h', bs')
        \<and> item_prev h' = off \<and> list_of h' = list_of h0"
      by simp
  qed
  moreover have "mra_ok (raw_put r h bs) sl (M sl)" for sl
    using mra[of sl] fresh unfolding mra_ok_def ch by auto
  moreover have "0 < off \<and> off < fend (raw_put r h bs)" if "chunks (raw_put r h bs) off \<noteq> None" for off
  proof (cases "off = fpos r")
    case True
    with pos sz show ?thesis by (simp add: fe)
  next
    case False
    with that have "chunks r off \<noteq> None" by (simp add: ch)
    from dom[OF this] sz show ?thesis by (simp add: fe)
  qed
  ultimately show ?thesis
    using pos sz unfolding lists_inv_def fe by simp
qed

lemma lists_inv_append:
  assumes inv: "lists_inv r M" and nx: "item_next h = 0"
    and pv: "item_prev h = offset (M sl0)" and ls: "list_of h = slot_list sl0"
    and rg: "slot_in_range sl0"
    and ch: "chunks r' = (if offset (M sl0) = 0 then (chunks r)(fpos r \<mapsto> (h, bs))
                          else (chunks r)(fpos r \<mapsto> (h, bs),
                                 offset (M sl0) \<mapsto> ((hdr (M sl0))\<lparr>item_next := fpos r\<rparr>, bs0)))"
    and b0: "offset (M sl0) \<noteq> 0 \<Longrightarrow> chunks r (offset (M sl0)) = Some (hdr (M sl0), bs0)"
    and fp: "fpos r' = fpos r + chunk_size (unat (payload_length h))"
    and fe: "fend r' = fpos r + chunk_size (unat (payload_length h))"
    and M': "M' = M(sl0 := \<lparr>hdr = h, offset = fpos r\<rparr>)"
  shows "lists_inv r' M'"
proof -
  let ?N = "fpos r"
  let ?m = "M sl0"
  from inv have pos: "0 < fpos r" "fpos r = fend r"
    and dom: "\<And>off. chunks r off \<noteq> None \<Longrightarrow> 0 < off \<and> off < fend r"
    and lk: "linked r" and mra: "\<And>sl. mra_ok r sl (M sl)"
    by (auto simp: lists_inv_def)
  have fresh: "chunks r ?N = None" using inv by (rule lists_inv_fresh)
  have sz: "0 < chunk_size (unat (payload_length h))" by (rule chunk_size_pos)
  have mN: "offset ?m \<noteq> ?N"
  proof
    assume e: "offset ?m = ?N"
    with pos have "offset ?m \<noteq> 0" by simp
    from b0[OF this] e fresh show False by simp
  qed
  have m0: "item_next (hdr ?m) = 0 \<and> list_of (hdr ?m) = slot_list sl0" if "offset ?m \<noteq> 0"
    using mra[of sl0] that by (simp add: mra_ok_def)
  have atN: "chunks r' ?N = Some (h, bs)"
    using mN by (simp add: ch)
  have other: "chunks r' off = chunks r off" if "off \<noteq> ?N" "off \<noteq> offset ?m \<or> offset ?m = 0" for off
    using that by (auto simp: ch)
  have atm: "chunks r' (offset ?m) = Some ((hdr ?m)\<lparr>item_next := ?N\<rparr>, bs0)" if "offset ?m \<noteq> 0"
    using that by (simp add: ch)
  have lk': "linked r'"
    unfolding linked_def
  proof (intro allI impI)
    fix off h0 bs1
    assume a: "chunks r' off = Some (h0, bs1) \<and> item_next h0 \<noteq> 0"
    show "\<exists>h' bs'. chunks r' (item_next h0) = Some (h', bs') \<and> item_prev h' = off
            \<and> list_of h' = list_of h0"
    proof (cases "off = ?N")
      case True
      with a atN nx show ?thesis by simp
    next
      case offN: False
      show ?thesis
      proof (cases "offset ?m \<noteq> 0 \<and> off = offset ?m")
        case True
        with a atm have "h0 = (hdr ?m)\<lparr>item_next := ?N\<rparr>" by simp
        then have "item_next h0 = ?N" "list_of h0 = list_of (hdr ?m)" by simp_all
        with atN pv ls m0 True show ?thesis by simp
      next
        case False
        with offN a have c: "chunks r off = Some (h0, bs1)" by (auto simp: other)
        with lk a obtain h' bs' where t: "chunks r (item_next h0) = Some (h', bs')"
          "item_prev h' = off" "list_of h' = list_of h0"
          unfolding linked_def by blast
        from t(1) fresh have tN: "item_next h0 \<noteq> ?N" by auto
        show ?thesis
        proof (cases "offset ?m \<noteq> 0 \<and> item_next h0 = offset ?m")
          case True
          with t b0 have "h' = hdr ?m" by simp
          with True atm t show ?thesis by simp
        next
          case False
          with tN have "chunks r' (item_next h0) = chunks r (item_next h0)" by (auto simp: other)
          with t show ?thesis by simp
        qed
      qed
    qed
  qed
  have mra': "mra_ok r' sl (M' sl)" for sl
  proof (cases "sl = sl0")
    case True
    with atN nx ls rg show ?thesis by (simp add: mra_ok_def M')
  next
    case False
    show ?thesis
    proof (cases "offset (M sl) = 0")
      case True
      with False show ?thesis by (simp add: mra_ok_def M')
    next
      case nz: False
      with mra[of sl] obtain bs2 where k: "slot_in_range sl" "chunks r (offset (M sl)) = Some (hdr (M sl), bs2)"
        "item_next (hdr (M sl)) = 0" "list_of (hdr (M sl)) = slot_list sl"
        by (auto simp: mra_ok_def)
      from k(2) fresh have n1: "offset (M sl) \<noteq> ?N" by auto
      have n2: "offset (M sl) \<noteq> offset ?m \<or> offset ?m = 0"
      proof (rule ccontr)
        assume "\<not> ?thesis"
        then have e: "offset (M sl) = offset ?m" "offset ?m \<noteq> 0" by auto
        with b0 k(2) have "hdr (M sl) = hdr ?m" by simp
        with k(4) m0[OF e(2)] have "slot_list sl = slot_list sl0" by simp
        with slot_list_inj[OF k(1) rg] False show False by simp
      qed
      from other[OF n1 n2] k False show ?thesis by (simp add: mra_ok_def M')
    qed
  qed
  have dom': "0 < off \<and> off < fend r'" if "chunks r' off \<noteq> None" for off
  proof (cases "off = ?N")
    case True
    with pos sz show ?thesis by (simp add: fe)
  next
    case False
    have "chunks r off \<noteq> None"
    proof (cases "offset ?m \<noteq> 0 \<and> off = offset ?m")
      case True
      with b0 show ?thesis by simp
    next
      case False
      with \<open>off \<noteq> ?N\<close> that show ?thesis by (auto simp: other)
    qed
    from dom[OF this] sz pos show ?thesis by (simp add: fe)
  qed
  show ?thesis
    unfolding lists_inv_def using pos sz lk' mra' dom' by (simp add: fp fe)
qed

lemma mras_put_mra: "mras (put_mra sl0 c s) = (mras s)(sl0 := c)"
proof (rule ext)
  fix sl
  show "mras (put_mra sl0 c s) sl = ((mras s)(sl0 := c)) sl"
    by (cases sl0; cases sl)
       (auto simp: mras_def put_source_mra_def put_signal_mra_def put_user_data_mra_def
          put_track_data_def put_track_def put_info_def get_track_data_def get_track_def)
qed

lemma mras_simps [simp]:
  "mras (s\<lparr>raw := r\<rparr>) = mras s"
  "mras (s\<lparr>buf := b\<rparr>) = mras s"
  "mras (s\<lparr>wr_payload_prev_length := n\<rparr>) = mras s"
  "mras (s\<lparr>source_info := si\<rparr>) = mras s"
  by (rule ext, case_tac x, simp_all add: mras_def get_track_data_def get_track_def)+

lemma put_mra_proj [simp]:
  "raw (put_mra sl c s) = raw s"
  "source_info (put_mra sl c s) = source_info s"
  "buf (put_mra sl c s) = buf s"
  "chunk_def (signal_info (put_mra sl c s) i) = chunk_def (signal_info s i)"
  "track_type (signal_info (put_mra sl c s) i) = track_type (signal_info s i)"
  "signal_def (signal_info (put_mra sl c s) i) = signal_def (signal_info s i)"
  "sample_buffer (signal_info (put_mra sl c s) i) = sample_buffer (signal_info s i)"
  "t_head (tracks (signal_info (put_mra sl c s) i) t) = t_head (tracks (signal_info s i) t)"
  "t_def (tracks (signal_info (put_mra sl c s) i) t) = t_def (tracks (signal_info s i) t)"
  by (cases sl; simp add: put_source_mra_def put_signal_mra_def put_user_data_mra_def
          put_track_data_def put_track_def put_info_def get_track_data_def get_track_def)+

lemma put_mra_raw: "put_mra sl c (s\<lparr>raw := r\<rparr>) = (put_mra sl c s)\<lparr>raw := r\<rparr>"
  by (cases sl; simp add: put_source_mra_def put_signal_mra_def put_user_data_mra_def
          put_track_data_def put_track_def put_info_def get_track_data_def get_track_def)

lemma get_mra_put_mra_same: "get_mra sl (put_mra sl c s) = c"
  using mras_put_mra[of sl c s] by (simp add: mras_def fun_eq_iff)

lemma get_mra_raw [simp]: "get_mra sl (s\<lparr>raw := r\<rparr>) = get_mra sl s"
  by (cases sl; simp add: get_track_data_def get_track_def)

lemma put_mra_twice: "put_mra sl c (put_mra sl c' s) = put_mra sl c s"
  by (cases sl; simp add: put_source_mra_def put_signal_mra_def put_user_data_mra_def
          put_track_data_def put_track_def put_info_def get_track_data_def get_track_def)

text \<open>update_mra on a state that satisfies the invariant\<close>
lemma update_mra_inv:
  assumes m: "offset (get_mra sl self) \<noteq> 0 \<Longrightarrow> chunks (raw self) (offset (get_mra sl self)) = Some (hdr (get_mra sl self), bs0)"
  shows "\<exists>r'. update_mra self (get_mra sl) (put_mra sl) c = Success () ((put_mra sl c self)\<lparr>raw := r'\<rparr>)
          \<and> fpos r' = fpos (raw self) \<and> fend r' = fend (raw self)
          \<and> chunks r' = (if offset (get_mra sl self) = 0 then chunks (raw self)
                          else (chunks (raw self))(offset (get_mra sl self) \<mapsto>
                                  ((hdr (get_mra sl self))\<lparr>item_next := offset c\<rparr>, bs0)))"
proof (cases "offset (get_mra sl self) = 0")
  case True
  have "put_mra sl c self = (put_mra sl c self)\<lparr>raw := raw self\<rparr>"
    by (cases sl; simp add: put_source_mra_def put_signal_mra_def put_user_data_mra_def
          put_track_data_def put_track_def put_info_def)
  with True show ?thesis
    by (intro exI[of _ "raw self"]) (simp add: update_mra_def)
next
  case False
  note c = m[OF False]
  let ?m = "get_mra sl self"
  let ?r = "(raw self)\<lparr>chunks := (chunks (raw self))(offset ?m \<mapsto> ((hdr ?m)\<lparr>item_next := offset c\<rparr>, bs0))\<rparr>"
  have "update_mra self (get_mra sl) (put_mra sl) c = Success () ((put_mra sl c self)\<lparr>raw := ?r\<rparr>)"
    using False c
    by (simp add: update_mra_def Let_def get_mra_put_mra_same put_mra_raw put_mra_twice
        jls_raw_chunk_tell_def jls_raw_chunk_seek_def jls_raw_wr_header_def raw_op_def lift_res_def roe_def)
  with False show ?thesis
    by (intro exI[of _ ?r]) simp
qed

lemma post_Success [simp]: "post (Success v s) Q = Q s"
  and post_Failure [simp]: "post (Failure e s) Q = Q s"
  and post_Undefined [simp]: "post Undefined Q"
  by (simp_all add: post_def)

lemma post_roe:
  "post r P \<Longrightarrow> (\<And>v s. P s \<Longrightarrow> post (f v s) Q) \<Longrightarrow> (\<And>s. P s \<Longrightarrow> Q s) \<Longrightarrow> post (roe r f) Q"
  by (cases r) (simp_all add: roe_def)

lemma post_ignore_rc:
  "post r P \<Longrightarrow> (\<And>s. P s \<Longrightarrow> post (f s) Q) \<Longrightarrow> post (ignore_rc r f) Q"
  by (cases r) (simp_all add: ignore_rc_def)

lemma post_mono: "post r P \<Longrightarrow> (\<And>s. P s \<Longrightarrow> Q s) \<Longrightarrow> post r Q"
  by (cases r) simp_all

lemma post_conj: "post r P \<Longrightarrow> post r Q \<Longrightarrow> post r (\<lambda>s. P s \<and> Q s)"
  by (cases r) simp_all

lemma roe_assoc: "roe (roe r f) g = roe r (\<lambda>v s. roe (f v s) g)"
  by (cases r) (simp_all add: roe_def)

lemma buf_rel_refl [simp]: "buf_rel S S" "buf_rel S (S\<lparr>buf := b\<rparr>)" "buf_rel S (buf_reset S)"
  by (auto simp: buf_rel_def buf_reset_def intro: exI[of _ "buf S"])

lemma buf_rel_upd: "buf_rel S s \<Longrightarrow> buf_rel S (s\<lparr>buf := b\<rparr>)"
  by (auto simp: buf_rel_def)

lemma buf_rel_reset: "buf_rel S s \<Longrightarrow> buf_rel S (buf_reset s)"
  by (auto simp: buf_rel_def buf_reset_def)

lemma post_lift_buf:
  "buf_rel S s \<Longrightarrow> post (lift_res (\<lambda>b. s\<lparr>buf := b\<rparr>) r) (buf_rel S)"
  by (cases r) (auto simp: lift_res_def buf_rel_def)

lemma post_buf_ops:
  assumes "buf_rel S s"
  shows "post (buf_add_zero s n) (buf_rel S)"
    and "post (buf_add_str s cstr) (buf_rel S)"
    and "post (buf_add_bin s d k) (buf_rel S)"
    and "post (buf_wr_u8 s v8) (buf_rel S)"
    and "post (buf_wr_u16 s v16) (buf_rel S)"
    and "post (buf_wr_u32 s v32) (buf_rel S)"
    and "post (buf_wr_u64 s v64) (buf_rel S)"
  using assms
  by (auto simp: buf_add_zero_def buf_add_str_def buf_add_bin_def buf_wr_u8_def buf_wr_u16_def
      buf_wr_u32_def buf_wr_u64_def buf_rel_upd post_lift_buf split: option.splits)

lemma read_bytes_buf: "\<exists>bs. read_bytes (Some b) (unat (of_nat (length b) :: 32 word)) = Some bs"
proof -
  have "unat (of_nat (length b) :: 32 word) \<le> length b"
    by (simp add: unat_of_nat)
  then show ?thesis by (auto simp: read_bytes_def)
qed

lemma jls_raw_wr_eq:
  "jls_raw_wr r h p = (case read_bytes p (unat (payload_length h)) of None \<Rightarrow> Undefined
                       | Some bs \<Rightarrow> Success () (raw_put r h bs))"
  by (simp add: jls_raw_wr_def raw_put_def split: option.splits)

lemma same_defs_refl [simp]: "same_defs s s"
  by (simp add: same_defs_def)

text \<open>writing a chunk and linking it into the list of slot sl\<close>
lemma write_append:
  assumes inv: "lists_inv (raw self) (mras self)"
    and h: "item_next (hdr c) = 0" "item_prev (hdr c) = offset (get_mra sl self)"
      "list_of (hdr c) = slot_list sl" "slot_in_range sl" "offset c = jls_raw_chunk_tell (raw self)"
    and gp: "get = get_mra sl" "put = put_mra sl"
  shows "post (roe (raw_op self (jls_raw_wr (raw self) (hdr c) pl))
                (\<lambda>_ self. update_mra (self\<lparr>wr_payload_prev_length := n\<rparr>) get put c))
          (\<lambda>s'. lists_inv (raw s') (mras s') \<and> same_defs self s')"
proof (cases "read_bytes pl (unat (payload_length (hdr c)))")
  case None
  then show ?thesis by (simp add: jls_raw_wr_eq raw_op_def lift_res_def roe_def)
next
  case (Some bs)
  let ?r1 = "raw_put (raw self) (hdr c) bs"
  let ?s1 = "self\<lparr>raw := ?r1, wr_payload_prev_length := n\<rparr>"
  let ?m = "get_mra sl self"
  have gm: "get_mra sl ?s1 = ?m"
    by (cases sl; simp add: get_track_data_def get_track_def)
  from inv have fresh: "chunks (raw self) (fpos (raw self)) = None" by (rule lists_inv_fresh)
  from inv have mok: "mra_ok (raw self) sl (mras self sl)" by (simp add: lists_inv_def)
  obtain bs0 where b0: "offset ?m \<noteq> 0 \<Longrightarrow> chunks (raw self) (offset ?m) = Some (hdr ?m, bs0)"
    using mok by (auto simp: mra_ok_def mras_def)
  have ne: "offset ?m \<noteq> 0 \<Longrightarrow> offset ?m \<noteq> fpos (raw self)"
    using b0 fresh by auto
  have "offset (get_mra sl ?s1) \<noteq> 0 \<Longrightarrow>
        chunks (raw ?s1) (offset (get_mra sl ?s1)) = Some (hdr (get_mra sl ?s1), bs0)"
    unfolding gm using b0 ne by (simp add: raw_put_def)
  from update_mra_inv[of sl ?s1 bs0 c, OF this]
  obtain r' where u: "update_mra ?s1 (get_mra sl) (put_mra sl) c = Success () ((put_mra sl c ?s1)\<lparr>raw := r'\<rparr>)"
    and fp: "fpos r' = fpos ?r1" and fe: "fend r' = fend ?r1"
    and ch: "chunks r' = (if offset ?m = 0 then chunks ?r1
                          else (chunks ?r1)(offset ?m \<mapsto> ((hdr ?m)\<lparr>item_next := offset c\<rparr>, bs0)))"
    unfolding gm by auto
  let ?s' = "(put_mra sl c ?s1)\<lparr>raw := r'\<rparr>"
  have res: "roe (raw_op self (jls_raw_wr (raw self) (hdr c) pl))
                (\<lambda>_ self. update_mra (self\<lparr>wr_payload_prev_length := n\<rparr>) get put c) = Success () ?s'"
    using Some u by (simp add: jls_raw_wr_eq raw_op_def lift_res_def roe_def gp)
  from inv have pe: "fpos (raw self) = fend (raw self)" by (simp add: lists_inv_def)
  have ceq: "c = \<lparr>hdr = hdr c, offset = fpos (raw self)\<rparr>"
    using h(5) by (cases c) (simp add: jls_raw_chunk_tell_def)
  have M': "mras ?s' = (mras self)(sl := \<lparr>hdr = hdr c, offset = fpos (raw self)\<rparr>)"
    using ceq by (simp add: mras_put_mra)
  have "lists_inv r' (mras ?s')"
  proof (rule lists_inv_append[OF inv h(1) _ h(3) h(4) _ _ _ _ M'])
    show "item_prev (hdr c) = offset (mras self sl)" using h(2) by (simp add: mras_def)
    show "chunks r' = (if offset (mras self sl) = 0 then (chunks (raw self))(fpos (raw self) \<mapsto> (hdr c, bs))
        else (chunks (raw self))(fpos (raw self) \<mapsto> (hdr c, bs),
               offset (mras self sl) \<mapsto> ((hdr (mras self sl))\<lparr>item_next := fpos (raw self)\<rparr>, bs0)))"
      using ch h(5) by (simp add: mras_def raw_put_def jls_raw_chunk_tell_def)
    show "offset (mras self sl) \<noteq> 0 \<Longrightarrow> chunks (raw self) (offset (mras self sl)) = Some (hdr (mras self sl), bs0)"
      using b0 by (simp add: mras_def)
    show "fpos r' = fpos (raw self) + chunk_size (unat (payload_length (hdr c)))"
      by (simp add: fp raw_put_def)
    show "fend r' = fpos (raw self) + chunk_size (unat (payload_length (hdr c)))"
      using chunk_size_pos[of "unat (payload_length (hdr c))"] pe by (simp add: fe raw_put_def)
  qed
  moreover have "same_defs self ?s'"
    by (simp add: same_defs_def)
  ultimately show ?thesis
    unfolding res by simp
qed

subsection \<open>The calls of the writer keep the lists linked\<close>


lemma post_roe':
  "post r P \<Longrightarrow> (\<And>s. P s \<Longrightarrow> Q s) \<Longrightarrow> (\<And>v s. P s \<Longrightarrow> post (f v s) Q) \<Longrightarrow> post (roe r f) Q"
  by (rule post_roe)

lemma get_mra_eqs:
  "source_mra = get_mra Slot_source" "signal_mra = get_mra Slot_signal"
  "user_data_mra = get_mra Slot_user_data" "get_track_data i t = get_mra (Slot_track i t)"
  "put_source_mra = put_mra Slot_source" "put_signal_mra = put_mra Slot_signal"
  "put_user_data_mra = put_mra Slot_user_data" "put_track_data i t = put_mra (Slot_track i t)"
  by (auto simp: fun_eq_iff)

lemma same_defs_keeps: "same_defs s s' \<Longrightarrow> keeps s s'"
  by (simp add: same_defs_def keeps_def)

lemma keeps_refl [simp]: "keeps s s"
  by (simp add: keeps_def)

lemma keeps_trans: "keeps a b \<Longrightarrow> keeps b c \<Longrightarrow> keeps a c"
  by (simp add: keeps_def)

lemma wr_inv_same_defs:
  "wr_inv s \<Longrightarrow> same_defs s s' \<Longrightarrow> lists_inv (raw s') (mras s') \<Longrightarrow> wr_inv s'"
  by (simp add: wr_inv_def same_defs_def)

lemma wr_inv_upd [simp]:
  "wr_inv (s\<lparr>buf := b\<rparr>) = wr_inv s"
  "wr_inv (s\<lparr>source_info := si\<rparr>) = wr_inv s"
  by (simp_all add: wr_inv_def)

lemma keeps_upd [simp]:
  "keeps self (s\<lparr>buf := b\<rparr>) = keeps self s"
  by (simp_all add: keeps_def)

lemma and3_cases:
  fixes x :: byte
  shows "x AND 3 = 0 \<or> x AND 3 = 1 \<or> x AND 3 = 2 \<or> x AND 3 = 3"
proof -
  define y where "y = x AND 3"
  have "y \<le> 3" unfolding y_def by (rule word_and_le1)
  then have "unat y \<le> 3" by (simp add: word_le_nat_alt)
  then consider "unat y = 0" | "unat y = 1" | "unat y = 2" | "unat y = 3"
    by linarith
  then have "y = 0 \<or> y = 1 \<or> y = 2 \<or> y = 3"
  proof cases
    case 1
    then show ?thesis by (simp add: unat_eq_zero)
  next
    case 2
    then have "word_of_nat (unat y) = (word_of_nat 1 :: byte)" by (simp only:)
    then show ?thesis by simp
  next
    case 3
    then have "word_of_nat (unat y) = (word_of_nat 2 :: byte)" by (simp only:)
    then show ?thesis by simp
  next
    case 4
    then have "word_of_nat (unat y) = (word_of_nat 3 :: byte)" by (simp only:)
    then show ?thesis by simp
  qed
  then show ?thesis by (simp only: y_def)
qed

lemma track_tag_cases:
  "track_tag tt k = 0x20 OR (0 OR k) \<or> track_tag tt k = 0x20 OR (0x08 OR k)
   \<or> track_tag tt k = 0x20 OR (0x10 OR k) \<or> track_tag tt k = 0x20 OR (0x18 OR k)"
proof -
  have e: "track_tag tt k = 0x20 OR (push_bit 3 x OR k)" if "tt AND 3 = x" for x
    using that by (simp only: track_tag_def)
  from and3_cases[of tt] show ?thesis
  proof (elim disjE)
    assume "tt AND 3 = 0" from e[OF this] show ?thesis by simp
  next
    assume "tt AND 3 = 1" from e[OF this] show ?thesis by simp
  next
    assume "tt AND 3 = 2" from e[OF this] show ?thesis by simp
  next
    assume "tt AND 3 = 3" from e[OF this] show ?thesis by simp
  qed
qed

lemma list_of_simps:
  "tag h = JLS_TAG_USER_DATA \<Longrightarrow> list_of h = List_user_data"
  "tag h = JLS_TAG_SOURCE_DEF \<Longrightarrow> list_of h = List_sources"
  "tag h = JLS_TAG_SIGNAL_DEF \<Longrightarrow> list_of h = List_signals"
  "tag h = JLS_TAG_TRACK_UTC_DATA \<Longrightarrow> list_of h = List_track JLS_TAG_TRACK_UTC_DATA (chunk_meta h)"
  "tag h = JLS_TAG_TRACK_ANNOTATION_DATA \<Longrightarrow> list_of h = List_track JLS_TAG_TRACK_ANNOTATION_DATA (chunk_meta h)"
  by (simp_all add: list_of_def JLS_TAG_USER_DATA_def JLS_TAG_SOURCE_DEF_def JLS_TAG_SIGNAL_DEF_def
      JLS_TRACK_CHUNK_DEF_def JLS_TRACK_CHUNK_HEAD_def JLS_TAG_TRACK_UTC_DATA_def
      JLS_TAG_TRACK_ANNOTATION_DATA_def)

lemma list_of_track_def:
  "tag h = track_tag tt JLS_TRACK_CHUNK_DEF \<Longrightarrow> list_of h = List_signals"
  using track_tag_cases[of tt JLS_TRACK_CHUNK_DEF]
  by (elim disjE)
     (simp_all add: list_of_def JLS_TAG_USER_DATA_def JLS_TAG_SOURCE_DEF_def JLS_TAG_SIGNAL_DEF_def
      JLS_TRACK_CHUNK_DEF_def JLS_TRACK_CHUNK_HEAD_def)

lemma signal_validate_cases:
  "(signal_validate self sid = Success () self \<and> unat sid < JLS_SIGNAL_COUNT
      \<and> offset (chunk_def (signal_info self (unat sid))) \<noteq> 0)
   \<or> (\<exists>e. signal_validate self sid = Failure e self)"
  by (simp add: signal_validate_def)

lemma signal_validate_typed_cases:
  "(signal_validate_typed self sid ty = Success () self \<and> unat sid < JLS_SIGNAL_COUNT
      \<and> offset (chunk_def (signal_info self (unat sid))) \<noteq> 0
      \<and> signal_type (signal_def (signal_info self (unat sid))) = ty)
   \<or> (\<exists>e. signal_validate_typed self sid ty = Failure e self)"
  using signal_validate_cases[of self sid]
  by (cases "signal_type (signal_def (signal_info self (unat sid))) = ty")
     (auto simp: signal_validate_typed_def roe_def)

lemma wr_inv_lists: "wr_inv s \<Longrightarrow> lists_inv (raw s) (mras s)"
  by (simp add: wr_inv_def)

lemma write_append_wr:
  assumes inv: "wr_inv S" and k: "keeps base S"
    and r: "r = raw S" and off: "off = fpos (raw S)"
    and h: "item_next h = 0" "item_prev h = offset (get_mra sl S)"
      "list_of h = slot_list sl" "slot_in_range sl"
    and gp: "get = get_mra sl" "put = put_mra sl"
  shows "post (roe (raw_op S (jls_raw_wr r h pl))
                (\<lambda>_ self. update_mra (self\<lparr>wr_payload_prev_length := n\<rparr>) get put \<lparr>hdr = h, offset = off\<rparr>))
          (\<lambda>s'. wr_inv s' \<and> keeps base s' \<and> same_defs S s')"
proof -
  have "post (roe (raw_op S (jls_raw_wr (raw S) (hdr \<lparr>hdr = h, offset = off\<rparr>) pl))
                (\<lambda>_ self. update_mra (self\<lparr>wr_payload_prev_length := n\<rparr>) get put \<lparr>hdr = h, offset = off\<rparr>))
          (\<lambda>s'. lists_inv (raw s') (mras s') \<and> same_defs S s')"
    by (rule write_append[OF wr_inv_lists[OF inv] _ _ _ _ _ gp])
       (simp_all add: h off jls_raw_chunk_tell_def)
  then have "post (roe (raw_op S (jls_raw_wr r h pl))
                (\<lambda>_ self. update_mra (self\<lparr>wr_payload_prev_length := n\<rparr>) get put \<lparr>hdr = h, offset = off\<rparr>))
          (\<lambda>s'. lists_inv (raw s') (mras s') \<and> same_defs S s')"
    by (simp add: r)
  then show ?thesis
    by (rule post_mono) (auto intro: wr_inv_same_defs[OF inv] keeps_trans[OF k] same_defs_keeps)
qed

lemma post_LetI: "(\<And>y. y = x \<Longrightarrow> post (f y) Q) \<Longrightarrow> post (Let x f) Q"
  by simp

lemma post_ifI: "(c \<Longrightarrow> post a Q) \<Longrightarrow> (\<not> c \<Longrightarrow> post b Q) \<Longrightarrow> post (if c then a else b) Q"
  by simp

lemma post_optionI:
  "(x = None \<Longrightarrow> post a Q) \<Longrightarrow> (\<And>y. x = Some y \<Longrightarrow> post (b y) Q)
   \<Longrightarrow> post (case x of None \<Rightarrow> a | Some y \<Rightarrow> b y) Q"
  by (cases x) simp_all

lemma post_sumI:
  "(\<And>e. x = Inl e \<Longrightarrow> post (a e) Q) \<Longrightarrow> (\<And>y. x = Inr y \<Longrightarrow> post (b y) Q)
   \<Longrightarrow> post (case x of Inl e \<Rightarrow> a e | Inr y \<Rightarrow> b y) Q"
  by (cases x) simp_all

lemma wr_inv_eqI:
  assumes "raw s' = raw s" "mras s' = mras s"
    and "\<And>j. chunk_def (signal_info s' j) = chunk_def (signal_info s j)"
    and "\<And>j. track_type (signal_info s' j) = track_type (signal_info s j)"
    and "\<And>j t. t_head (tracks (signal_info s' j) t) = t_head (tracks (signal_info s j) t)"
  shows "wr_inv s' = wr_inv s"
  using assms by (simp add: wr_inv_def)

lemma keeps_eqI:
  assumes "keeps base s" "source_info s' = source_info s"
    and "\<And>j. chunk_def (signal_info s' j) = chunk_def (signal_info s j)"
    and "\<And>j. track_type (signal_info s' j) = track_type (signal_info s j)"
    and "\<And>j. signal_def (signal_info s' j) = signal_def (signal_info s j)"
  shows "keeps base s'"
  using assms by (simp add: keeps_def)

lemma buf_rel_inv: "buf_rel S s \<Longrightarrow> wr_inv S \<Longrightarrow> keeps base S \<Longrightarrow> wr_inv s \<and> keeps base s"
  by (auto simp: buf_rel_def)

lemma post_roe_buf:
  assumes "post r (buf_rel S)" "wr_inv S" "keeps base S"
    and "\<And>v s. buf_rel S s \<Longrightarrow> post (f v s) (\<lambda>s'. wr_inv s' \<and> keeps base s')"
  shows "post (roe r f) (\<lambda>s'. wr_inv s' \<and> keeps base s')"
  using assms(1)
  by (rule post_roe) (auto intro: assms(4) dest: buf_rel_inv[OF _ assms(2,3)])

lemma mras_put_info:
  "tracks info = tracks (signal_info s i) \<Longrightarrow> mras (put_info i info s) = mras s"
  by (rule ext, case_tac x) (simp_all add: mras_def put_info_def get_track_data_def get_track_def)

lemma mras_put_track:
  "t_data ti = t_data (tracks (signal_info s i) t) \<Longrightarrow> mras (put_track i t ti s) = mras s"
  by (rule ext, case_tac x) (auto simp: mras_def put_track_def put_info_def get_track_data_def get_track_def)


lemma user_data_post:
  assumes inv: "wr_inv self"
  shows "post (jls_wr_user_data self m st d n) (\<lambda>s'. wr_inv s' \<and> keeps self s')"
proof -
  have w: "post (roe (raw_op self (jls_raw_wr (raw self) h d))
                (\<lambda>_ s. update_mra (s\<lparr>wr_payload_prev_length := k\<rparr>) user_data_mra put_user_data_mra
                   \<lparr>hdr = h, offset = jls_raw_chunk_tell (raw self)\<rparr>))
          (\<lambda>s'. wr_inv s' \<and> keeps self s' \<and> same_defs self s')"
    if "item_next h = 0" "item_prev h = offset (user_data_mra self)" "tag h = JLS_TAG_USER_DATA" for h k
    by (rule write_append_wr[OF inv, where sl = Slot_user_data])
      (simp_all add: that list_of_simps fun_eq_iff jls_raw_chunk_tell_def)
  have g1: "jls_wr_user_data self m st d n = Failure JLS_ERROR_PARAMETER_INVALID self"
    if "n AND (if d = None then 1 else 0) \<noteq> 0"
    using that by (simp only: jls_wr_user_data_def if_True simp_thms)
  have g2: "jls_wr_user_data self m st d n =
       (let chunk_meta1 = (if m AND 0xf000 \<noteq> 0 then m AND 0x0fff else m);
            sized =
              (if st = JLS_STORAGE_TYPE_INVALID then Inr (Some 0)
               else if st = JLS_STORAGE_TYPE_BINARY then Inr (Some n)
               else if st = JLS_STORAGE_TYPE_STRING \<or> st = JLS_STORAGE_TYPE_JSON then
                 Inr (case strlen d of None \<Rightarrow> None | Some k \<Rightarrow> Some (of_nat (k + 1)))
               else Inl JLS_ERROR_PARAMETER_INVALID)
        in
        case sized of
          Inl e \<Rightarrow> Failure e self
        | Inr None \<Rightarrow> Undefined
        | Inr (Some data_size) \<Rightarrow>
           (let chunk_meta = chunk_meta1 OR push_bit 12 (word_of_int st);
                chunk = \<lparr>hdr = \<lparr>item_next = 0, item_prev = offset (user_data_mra self),
                                tag = JLS_TAG_USER_DATA, rsv0_u8 = 0,
                                chunk_meta = chunk_meta,
                                payload_length = data_size,
                                payload_prev_length = wr_payload_prev_length self\<rparr>,
                         offset = jls_raw_chunk_tell (raw self)\<rparr>
            in
            roe (raw_op self (jls_raw_wr (raw self) (hdr chunk) d)) (\<lambda>_ self.
            update_mra (self\<lparr>wr_payload_prev_length := data_size\<rparr>)
              user_data_mra put_user_data_mra chunk)))"
    if "\<not> n AND (if d = None then 1 else 0) \<noteq> 0"
    using that by (simp only: jls_wr_user_data_def if_False simp_thms)
  show ?thesis
  proof (cases "n AND (if d = None then 1 else 0) \<noteq> 0")
    case True
    show ?thesis unfolding g1[OF True] using inv by simp
  next
    case False
    show ?thesis
      unfolding g2[OF False] Let_def
      apply (split sum.split, intro conjI allI impI)
       apply (simp add: inv)
      apply (split option.split, intro conjI allI impI)
       apply simp
      apply (simp only: chunk_s.simps)
      apply (rule post_mono)
       apply (rule w)
         apply simp_all
      done
  qed
qed


lemma track_slot_simps:
  "unat sid < JLS_SIGNAL_COUNT \<Longrightarrow> tag h = JLS_TAG_TRACK_UTC_DATA \<Longrightarrow> chunk_meta h = sid \<Longrightarrow>
     list_of h = slot_list (Slot_track (unat sid) JLS_TRACK_TYPE_UTC)"
  "unat sid < JLS_SIGNAL_COUNT \<Longrightarrow> tag h = JLS_TAG_TRACK_ANNOTATION_DATA \<Longrightarrow> chunk_meta h = sid \<Longrightarrow>
     list_of h = slot_list (Slot_track (unat sid) JLS_TRACK_TYPE_ANNOTATION)"
  by (simp_all add: list_of_simps JLS_TRACK_TYPE_UTC_def JLS_TRACK_TYPE_ANNOTATION_def track_tag_def
      JLS_TAG_TRACK_UTC_DATA_def JLS_TAG_TRACK_ANNOTATION_DATA_def JLS_TRACK_CHUNK_DATA_def)

lemma fsr_utc_post:
  assumes inv: "wr_inv self"
  shows "post (jls_wr_fsr_utc self sid t u) (\<lambda>s'. wr_inv s' \<and> keeps self s')"
proof -
  from signal_validate_typed_cases[of self sid JLS_SIGNAL_TYPE_FSR]
  show ?thesis
  proof (elim disjE conjE exE)
    fix e assume "signal_validate_typed self sid JLS_SIGNAL_TYPE_FSR = Failure e self"
    then show ?thesis using inv by (simp add: jls_wr_fsr_utc_def roe_def)
  next
    assume v: "signal_validate_typed self sid JLS_SIGNAL_TYPE_FSR = Success () self"
      and r: "unat sid < JLS_SIGNAL_COUNT"
    have e: "roe (Success () self) f = f () self" for f :: "unit \<Rightarrow> jls_wr_s \<Rightarrow> (unit, jls_wr_s) res"
      by (simp add: roe_def)
    show ?thesis
      unfolding jls_wr_fsr_utc_def v e
      apply (intro post_LetI)
      apply (simp only: chunk_s.simps)
      apply (rule post_mono)
       apply (rule write_append_wr[OF inv, where sl = "Slot_track (unat sid) JLS_TRACK_TYPE_UTC" and base = self])
      using r
               apply (simp_all add: track_slot_simps fun_eq_iff JLS_TRACK_TYPE_UTC_def jls_raw_chunk_tell_def)
      done
  qed
qed

lemma source_def_post:
  assumes inv: "wr_inv self"
  shows "post (jls_wr_source_def self so) (\<lambda>s'. wr_inv s' \<and> keeps self s')"
proof (cases so)
  case None
  then show ?thesis using inv by (simp add: jls_wr_source_def_def)
next
  case (Some source)
  have k: "keeps self self" by simp
  show ?thesis
  proof (cases "JLS_SOURCE_COUNT \<le> unat (source_id source)
                \<or> offset (source_info self (unat (source_id source))) \<noteq> 0")
    case True
    then show ?thesis using inv Some by (auto simp: jls_wr_source_def_def)
  next
    case False
    then have z: "offset (source_info self (unat (source_id source))) = 0" by simp
    from False have nle: "\<not> JLS_SOURCE_COUNT \<le> unat (source_id source)" by simp
    have last: "post (roe (raw_op (s\<lparr>source_info := (source_info s)(unat (source_id source) := c)\<rparr>)
                   (jls_raw_wr (raw (s\<lparr>source_info := (source_info s)(unat (source_id source) := c)\<rparr>)) h (Some (buf (s\<lparr>source_info := (source_info s)(unat (source_id source) := c)\<rparr>)))))
                (\<lambda>_ s. update_mra (s\<lparr>wr_payload_prev_length := n\<rparr>) source_mra put_source_mra
                   \<lparr>hdr = h, offset = jls_raw_chunk_tell (raw s0)\<rparr>))
          (\<lambda>s'. wr_inv s' \<and> keeps self s')"
      if b: "buf_rel self s" and s0: "raw s0 = raw s"
        and h: "item_next h = 0" "item_prev h = offset (source_mra s)" "tag h = JLS_TAG_SOURCE_DEF"
      for s s0 c h n
    proof -
      from b obtain bb where s: "s = self\<lparr>buf := bb\<rparr>" by (auto simp: buf_rel_def)
      let ?S = "s\<lparr>source_info := (source_info s)(unat (source_id source) := c)\<rparr>"
      have i: "wr_inv ?S" using inv by (simp add: s)
      have kk: "keeps self ?S" using z by (simp add: keeps_def s)
      show ?thesis
        apply (rule post_mono)
         apply (rule write_append_wr[OF i kk, where sl = Slot_source])
               apply (simp_all add: h list_of_simps fun_eq_iff jls_raw_chunk_tell_def s0)
        done
    qed
    show ?thesis
      unfolding jls_wr_source_def_def Some option.case
      apply (simp only: nle z if_False simp_thms)
      apply (rule post_ignore_rc[where P = "buf_rel self"])
       apply (rule post_buf_ops, simp)
      apply (rule post_roe_buf[OF _ inv k], erule post_buf_ops)+
      apply (intro post_LetI)
      apply (simp only: chunk_s.simps)
      apply (rule last)
          apply simp_all
      done
  qed
qed


lemma roe_Success: "roe (Success v s) f = f v s"
  by (simp add: roe_def)

lemma roe_Failure: "roe (Failure e s) f = Failure e s"
  by (simp add: roe_def)

lemma anno_wr_post:
  assumes inv: "wr_inv self"
  shows "post (anno_wr self sid ts a st d n) (\<lambda>s'. wr_inv s' \<and> keeps self s')"
proof -
  have k: "keeps self self" by simp
  from signal_validate_cases[of self sid]
  show ?thesis
  proof (elim disjE conjE exE)
    fix e assume "signal_validate self sid = Failure e self"
    then show ?thesis using inv by (simp add: anno_wr_def roe_def)
  next
    assume v: "signal_validate self sid = Success () self"
      and r: "unat sid < JLS_SIGNAL_COUNT"
    have last: "post (roe (raw_op s (jls_raw_wr (raw s) h d))
                (\<lambda>_ s1. update_mra (s1\<lparr>wr_payload_prev_length := m\<rparr>)
                   (get_track_data (unat sid) JLS_TRACK_TYPE_ANNOTATION)
                   (put_track_data (unat sid) JLS_TRACK_TYPE_ANNOTATION)
                   \<lparr>hdr = h, offset = jls_raw_chunk_tell (raw s)\<rparr>))
          (\<lambda>s'. wr_inv s' \<and> keeps self s')"
      if b: "buf_rel self s"
        and h: "item_next h = 0"
          "item_prev h = offset (get_track_data (unat sid) JLS_TRACK_TYPE_ANNOTATION s)"
          "tag h = JLS_TAG_TRACK_ANNOTATION_DATA" "chunk_meta h = sid"
      for s h m
    proof -
      from buf_rel_inv[OF b inv k] have i: "wr_inv s" and kk: "keeps self s" by simp_all
      show ?thesis
        apply (rule post_mono)
         apply (rule write_append_wr[OF i kk,
              where sl = "Slot_track (unat sid) JLS_TRACK_TYPE_ANNOTATION"])
        using r
               apply (simp_all add: h track_slot_simps fun_eq_iff jls_raw_chunk_tell_def
            JLS_TRACK_TYPE_ANNOTATION_def)
        done
    qed
    have body: "post (if c1 then buf_add_bin s d k1 else if c2 then buf_add_str s d
                      else if c3 then buf_add_str s d else Failure JLS_ERROR_PARAMETER_INVALID s)
                 (buf_rel self)" if "buf_rel self s" for s c1 c2 c3 k1
      using that by (simp add: post_buf_ops)
    show ?thesis
      unfolding anno_wr_def v roe_Success
      apply (intro post_ifI)
        apply (simp add: inv)
       apply (simp add: inv)
      apply (rule post_roe_buf[OF _ inv k], rule post_buf_ops, simp)
      apply (rule post_roe_buf[OF _ inv k], erule post_buf_ops)+
      apply (rule post_roe_buf[OF _ inv k], erule body)
      apply (intro post_LetI)
      apply (simp only: chunk_s.simps)
      apply (rule last)
          apply simp_all
      done
  qed
qed

lemma fsr_annotation_post:
  assumes inv: "wr_inv self"
  shows "post (jls_wr_fsr_annotation self sid ts a st d n) (\<lambda>s'. wr_inv s' \<and> keeps self s')"
  using signal_validate_typed_cases[of self sid JLS_SIGNAL_TYPE_FSR] inv
  by (auto simp: jls_wr_fsr_annotation_def roe_Success roe_Failure intro: anno_wr_post)

lemma vsr_annotation_post:
  assumes inv: "wr_inv self"
  shows "post (jls_wr_vsr_annotation self sid ts a st d n) (\<lambda>s'. wr_inv s' \<and> keeps self s')"
  using signal_validate_typed_cases[of self sid JLS_SIGNAL_TYPE_VSR] inv
  by (auto simp: jls_wr_vsr_annotation_def roe_Success roe_Failure intro: anno_wr_post)

lemma fsr_loop_Return0: "fsr_loop b d n = Fsr_Return0 b' \<Longrightarrow> n = 0 \<and> b' = b"
proof (induction b d n rule: fsr_loop.induct)
  case (1 b data data_length)
  show ?case
  proof (cases "data_length = 0")
    case True
    with 1(2) show ?thesis by (simp add: fsr_loop.simps[of b data data_length])
  next
    case False
    from 1(2) have "False"
      apply (subst (asm) fsr_loop.simps)
      apply (simp only: False if_False Let_def split: option.splits if_splits)
       apply simp
      using 1(1)[OF False refl] False
      apply auto
      done
    then show ?thesis ..
  qed
qed

lemma fsr_f32_post:
  assumes inv: "wr_inv self"
  shows "post (jls_wr_fsr_f32 self sid ts d n) (\<lambda>s'. wr_inv s' \<and> keeps self s')"
proof -
  from signal_validate_cases[of self sid]
  show ?thesis
  proof (elim disjE conjE exE)
    fix e assume "signal_validate self sid = Failure e self"
    then show ?thesis using inv by (simp add: jls_wr_fsr_f32_def roe_def)
  next
    assume v: "signal_validate self sid = Success () self"
      and r: "unat sid < JLS_SIGNAL_COUNT"
      and df: "offset (chunk_def (signal_info self (unat sid))) \<noteq> 0"
    from inv df have tt: "4 \<le> unat (track_type (signal_info self (unat sid)))"
      by (simp add: wr_inv_def)
    have pi: "wr_inv (put_info (unat sid) ((signal_info self (unat sid))\<lparr>sample_buffer := Some b'\<rparr>) self)
          \<and> keeps self (put_info (unat sid) ((signal_info self (unat sid))\<lparr>sample_buffer := Some b'\<rparr>) self)"
      for b'
    proof
      let ?s = "put_info (unat sid) ((signal_info self (unat sid))\<lparr>sample_buffer := Some b'\<rparr>) self"
      have "wr_inv ?s = wr_inv self"
        by (rule wr_inv_eqI) (simp_all add: mras_put_info, simp_all add: put_info_def)
      then show "wr_inv ?s" using inv by simp
      show "keeps self ?s"
        by (rule keeps_eqI[OF keeps_refl]) (simp_all add: put_info_def)
    qed
    show ?thesis
      unfolding jls_wr_fsr_f32_def v roe_Success
      apply (intro post_LetI)
      apply (rule post_optionI)
       apply (simp add: inv)
      apply (simp add: tt pi split: fsr_loop_result.split)
      done
  qed
qed


lemma put_track_proj [simp]:
  "raw (put_track i t ti s) = raw s"
  "source_info (put_track i t ti s) = source_info s"
  "signal_mra (put_track i t ti s) = signal_mra s"
  "wr_payload_prev_length (put_track i t ti s) = wr_payload_prev_length s"
  "chunk_def (signal_info (put_track i t ti s) j) = chunk_def (signal_info s j)"
  "track_type (signal_info (put_track i t ti s) j) = track_type (signal_info s j)"
  "signal_def (signal_info (put_track i t ti s) j) = signal_def (signal_info s j)"
  "sample_buffer (signal_info (put_track i t ti s) j) = sample_buffer (signal_info s j)"
  by (simp_all add: put_track_def put_info_def)

lemma put_track_tracks:
  "tracks (signal_info (put_track i t ti s) j) t' =
     (if j = i \<and> t' = t then ti else tracks (signal_info s j) t')"
  by (simp add: put_track_def put_info_def)

lemma track_wr_def_post:
  assumes inv: "wr_inv S" and k: "keeps base S"
  shows "post (track_wr_def S i t)
           (\<lambda>s'. wr_inv s' \<and> keeps base s'
              \<and> (\<forall>j. chunk_def (signal_info s' j) = chunk_def (signal_info S j))
              \<and> (\<forall>j t'. t_head (tracks (signal_info s' j) t') = t_head (tracks (signal_info S j) t')))"
proof -
  let ?ti = "get_track i t S"
  have last: "post (roe (raw_op (put_track i t (?ti\<lparr>t_def := c\<rparr>) S)
                      (jls_raw_wr (raw (put_track i t (?ti\<lparr>t_def := c\<rparr>) S)) h None))
                (\<lambda>_ s1. update_mra (s1\<lparr>wr_payload_prev_length := 0\<rparr>) signal_mra put_signal_mra
                   \<lparr>hdr = h, offset = jls_raw_chunk_tell (raw S)\<rparr>))
           (\<lambda>s'. wr_inv s' \<and> keeps base s'
              \<and> (\<forall>j. chunk_def (signal_info s' j) = chunk_def (signal_info S j))
              \<and> (\<forall>j t'. t_head (tracks (signal_info s' j) t') = t_head (tracks (signal_info S j) t')))"
    if h: "item_next h = 0" "item_prev h = offset (signal_mra S)"
      "tag h = track_tag tt JLS_TRACK_CHUNK_DEF"
    for c h tt
  proof -
    let ?S1 = "put_track i t (?ti\<lparr>t_def := c\<rparr>) S"
    have m1: "mras ?S1 = mras S"
      by (rule mras_put_track) (simp add: get_track_def)
    have hd: "t_head (tracks (signal_info ?S1 j) t') = t_head (tracks (signal_info S j) t')" for j t'
      by (simp add: put_track_tracks get_track_def)
    have "wr_inv ?S1 = wr_inv S"
      by (rule wr_inv_eqI) (simp_all add: m1 hd)
    with inv have i1: "wr_inv ?S1" by simp
    have k1: "keeps base ?S1"
      by (rule keeps_eqI[OF k]) simp_all
    show ?thesis
      apply (rule post_mono)
       apply (rule write_append_wr[OF i1 k1, where sl = Slot_signal])
             apply (simp_all add: h list_of_track_def[of _ tt] fun_eq_iff jls_raw_chunk_tell_def)
      apply (simp add: same_defs_def hd)
      done
  qed
  show ?thesis
    unfolding track_wr_def_def
    apply (intro post_LetI post_ifI)
     apply (simp add: inv k)
    apply (simp only: chunk_s.simps)
    apply (rule last)
      apply simp_all
    done
qed

lemma track_wr_head_post:
  assumes inv: "wr_inv S" and k: "keeps base S"
    and z: "offset (t_head (tracks (signal_info S i) t)) = 0"
    and df: "offset (chunk_def (signal_info S i)) \<noteq> 0"
  shows "post (track_wr_head S i t)
           (\<lambda>s'. wr_inv s' \<and> keeps base s'
              \<and> (\<forall>j. chunk_def (signal_info s' j) = chunk_def (signal_info S j))
              \<and> (\<forall>j t'. (j, t') \<noteq> (i, t) \<longrightarrow>
                   t_head (tracks (signal_info s' j) t') = t_head (tracks (signal_info S j) t')))"
proof -
  let ?ti = "get_track i t S"
  have last: "post (roe (raw_op (put_track i t (?ti\<lparr>t_head := c\<rparr>) S)
                      (jls_raw_wr (raw (put_track i t (?ti\<lparr>t_head := c\<rparr>) S)) h pl))
                (\<lambda>_ s1. Success () s1))
           (\<lambda>s'. wr_inv s' \<and> keeps base s'
              \<and> (\<forall>j. chunk_def (signal_info s' j) = chunk_def (signal_info S j))
              \<and> (\<forall>j t'. (j, t') \<noteq> (i, t) \<longrightarrow>
                   t_head (tracks (signal_info s' j) t') = t_head (tracks (signal_info S j) t')))"
    if h: "item_next h = 0"
    for c h pl
  proof (cases "read_bytes pl (unat (payload_length h))")
    case None
    then show ?thesis by (simp add: jls_raw_wr_eq raw_op_def lift_res_def roe_def)
  next
    case (Some bs)
    let ?S1 = "put_track i t (?ti\<lparr>t_head := c\<rparr>) S"
    let ?S2 = "?S1\<lparr>raw := raw_put (raw S) h bs\<rparr>"
    have m1: "mras ?S1 = mras S"
      by (rule mras_put_track) (simp add: get_track_def)
    have li: "lists_inv (raw_put (raw S) h bs) (mras S)"
      using inv h by (auto simp: wr_inv_def intro: lists_inv_put)
    have hd: "(j, t') \<noteq> (i, t) \<Longrightarrow>
        t_head (tracks (signal_info ?S2 j) t') = t_head (tracks (signal_info S j) t')" for j t'
      by (auto simp: put_track_tracks)
    have hd0: "offset (chunk_def (signal_info S j)) = 0 \<Longrightarrow>
        offset (t_head (tracks (signal_info ?S2 j) t')) = offset (t_head (tracks (signal_info S j) t'))" for j t'
      using df by (auto simp: put_track_tracks)
    have i2: "wr_inv ?S2"
      using inv li hd0 by (simp add: wr_inv_def m1)
    have k2: "keeps base ?S2"
      by (rule keeps_eqI[OF k]) simp_all
    have "roe (raw_op ?S1 (jls_raw_wr (raw ?S1) h pl)) (\<lambda>_ s1. Success () s1) = Success () ?S2"
      using Some by (simp add: jls_raw_wr_eq raw_op_def lift_res_def roe_def)
    then show ?thesis using i2 k2 hd by simp
  qed
  from z have z': "offset (t_head (get_track i t S)) = 0" by (simp add: get_track_def)
  show ?thesis
    unfolding track_wr_head_def
    apply (intro post_LetI)
    apply (simp only: z' if_True simp_thms)
    apply (intro post_LetI)
    apply (simp only: chunk_s.simps)
    apply (rule last)
    apply simp
    done
qed

lemma wr_tracks_post:
  assumes "wr_inv S" "keeps base S" "distinct ts"
    and "\<forall>t\<in>set ts. offset (t_head (tracks (signal_info S i) t)) = 0"
    and "offset (chunk_def (signal_info S i)) \<noteq> 0"
  shows "post (wr_tracks S i ts) (\<lambda>s'. wr_inv s' \<and> keeps base s')"
  using assms
proof (induction ts arbitrary: S)
  case Nil
  then show ?case by simp
next
  case (Cons t ts)
  show ?case
    unfolding wr_tracks.simps
  proof (rule post_roe[OF track_wr_def_post[OF Cons.prems(1,2)]])
    fix s assume "wr_inv s \<and> keeps base s \<and> (\<forall>j. chunk_def (signal_info s j) = chunk_def (signal_info S j))
        \<and> (\<forall>j t'. t_head (tracks (signal_info s j) t') = t_head (tracks (signal_info S j) t'))"
    then show "wr_inv s \<and> keeps base s" by simp
  next
    fix v s assume a: "wr_inv s \<and> keeps base s \<and> (\<forall>j. chunk_def (signal_info s j) = chunk_def (signal_info S j))
        \<and> (\<forall>j t'. t_head (tracks (signal_info s j) t') = t_head (tracks (signal_info S j) t'))"
    then have i: "wr_inv s" and k: "keeps base s"
      and z: "offset (t_head (tracks (signal_info s i) t)) = 0"
      and df: "offset (chunk_def (signal_info s i)) \<noteq> 0"
      using Cons.prems by simp_all
    show "post (roe (track_wr_head s i t) (\<lambda>_ self. wr_tracks self i ts)) (\<lambda>s'. wr_inv s' \<and> keeps base s')"
    proof (rule post_roe[OF track_wr_head_post[OF i k z df]])
      fix s2 assume b: "wr_inv s2 \<and> keeps base s2
          \<and> (\<forall>j. chunk_def (signal_info s2 j) = chunk_def (signal_info s j))
          \<and> (\<forall>j t'. (j, t') \<noteq> (i, t) \<longrightarrow>
                   t_head (tracks (signal_info s2 j) t') = t_head (tracks (signal_info s j) t'))"
      then show "wr_inv s2 \<and> keeps base s2" by simp
      fix v2 :: unit
      from b have i2: "wr_inv s2" and k2: "keeps base s2" by simp_all
      from Cons.prems(3) have d: "distinct ts" and nt: "t \<notin> set ts" by simp_all
      have z2: "\<forall>t'\<in>set ts. offset (t_head (tracks (signal_info s2 i) t')) = 0"
      proof
        fix t' assume t': "t' \<in> set ts"
        with nt have "(i, t') \<noteq> (i, t)" by auto
        with b have "t_head (tracks (signal_info s2 i) t') = t_head (tracks (signal_info s i) t')"
          by blast
        also from a have "\<dots> = t_head (tracks (signal_info S i) t')" by simp
        finally show "offset (t_head (tracks (signal_info s2 i) t')) = 0"
          using Cons.prems(4) t' by simp
      qed
      have df2: "offset (chunk_def (signal_info s2 i)) \<noteq> 0" using b df by simp
      show "post (wr_tracks s2 i ts) (\<lambda>s'. wr_inv s' \<and> keeps base s')"
        by (rule Cons.IH[OF i2 k2 d z2 df2])
    qed
  qed
qed


lemma put_info_proj [simp]:
  "raw (put_info i info s) = raw s"
  "source_info (put_info i info s) = source_info s"
  "signal_mra (put_info i info s) = signal_mra s"
  "buf (put_info i info s) = buf s"
  "wr_payload_prev_length (put_info i info s) = wr_payload_prev_length s"
  "signal_info (put_info i info s) j = (if j = i then info else signal_info s j)"
  by (simp_all add: put_info_def)

lemma wr_inv_put_info_undef:
  assumes "wr_inv s" "offset (chunk_def (signal_info s i)) = 0"
    "chunk_def info = chunk_def (signal_info s i)" "tracks info = tracks (signal_info s i)"
  shows "wr_inv (put_info i info s)"
  using assms by (simp add: wr_inv_def mras_put_info)

lemma keeps_put_info_undef:
  assumes "keeps base s" "offset (chunk_def (signal_info base i)) = 0"
  shows "keeps base (put_info i info s)"
  using assms by (simp add: keeps_def)

lemma sig_tail:
  assumes inv: "wr_inv Sb" and k: "keeps base Sb"
    and tt: "4 \<le> unat (track_type (signal_info Sb i))"
    and z: "\<forall>t. offset (t_head (tracks (signal_info Sb i) t)) = 0"
    and base0: "offset (chunk_def (signal_info base i)) = 0"
    and b: "buf_rel Sb s"
  shows "post (let payload_length = buf_size s;
                   chunk = \<lparr>hdr = \<lparr>item_next = 0, item_prev = offset (signal_mra s),
                                   tag = JLS_TAG_SIGNAL_DEF, rsv0_u8 = 0,
                                   chunk_meta = m,
                                   payload_length = payload_length,
                                   payload_prev_length = wr_payload_prev_length s\<rparr>,
                            offset = jls_raw_chunk_tell (raw s)\<rparr>;
                   self = put_info i ((signal_info s i)\<lparr>chunk_def := chunk\<rparr>) s
               in
               roe (raw_op self (jls_raw_wr (raw self) (hdr chunk) (Some (buf self)))) (\<lambda>_ self.
               roe (update_mra (self\<lparr>wr_payload_prev_length := payload_length\<rparr>)
                      signal_mra put_signal_mra chunk) (\<lambda>_ self.
               if fsr then
                 wr_tracks self i
                   [JLS_TRACK_TYPE_FSR, JLS_TRACK_TYPE_ANNOTATION, JLS_TRACK_TYPE_UTC]
               else
                 wr_tracks self i
                   [JLS_TRACK_TYPE_VSR, JLS_TRACK_TYPE_ANNOTATION])))
           (\<lambda>s'. wr_inv s' \<and> keeps base s'
              \<and> offset (chunk_def (signal_info s' i)) \<noteq> 0
              \<and> signal_def (signal_info s' i) = signal_def (signal_info Sb i))"
proof -
  from b obtain bb where s: "s = Sb\<lparr>buf := bb\<rparr>" by (auto simp: buf_rel_def)
  have is0: "wr_inv s" and ks: "keeps base s" using inv k by (simp_all add: s)
  have fp: "0 < fpos (raw s)" using is0 by (simp add: wr_inv_def lists_inv_def)
  define h where "h = \<lparr>item_next = 0, item_prev = offset (signal_mra s),
                                   tag = JLS_TAG_SIGNAL_DEF, rsv0_u8 = 0,
                                   chunk_meta = m,
                                   payload_length = buf_size s,
                                   payload_prev_length = wr_payload_prev_length s\<rparr>"
  define c where "c = \<lparr>hdr = h, offset = jls_raw_chunk_tell (raw s)\<rparr>"
  define S2 where "S2 = put_info i ((signal_info s i)\<lparr>chunk_def := c\<rparr>) s"
  have co: "offset c \<noteq> 0" using fp by (simp add: c_def jls_raw_chunk_tell_def)
  have m2: "mras S2 = mras s" unfolding S2_def by (rule mras_put_info) simp
  have hz: "offset (t_head (tracks (signal_info S2 j) t)) = offset (t_head (tracks (signal_info s j) t))" for j t
    by (simp add: S2_def)
  have i2: "wr_inv S2"
    using is0 tt z by (simp add: wr_inv_def m2) (simp add: S2_def s)
  have k2: "keeps base S2"
    unfolding S2_def by (rule keeps_put_info_undef[OF ks base0])
  have w1: "post (roe (raw_op S2 (jls_raw_wr (raw S2) h (Some (buf S2))))
              (\<lambda>_ s1. update_mra (s1\<lparr>wr_payload_prev_length := buf_size s\<rparr>) signal_mra put_signal_mra
                   \<lparr>hdr = h, offset = jls_raw_chunk_tell (raw s)\<rparr>))
          (\<lambda>s'. wr_inv s' \<and> keeps base s' \<and> same_defs S2 s')"
    by (rule write_append_wr[OF i2 k2, where sl = Slot_signal])
       (simp_all add: h_def list_of_simps fun_eq_iff jls_raw_chunk_tell_def S2_def)
  have w2: "post (roe (raw_op S2 (jls_raw_wr (raw S2) h (Some (buf S2))))
              (\<lambda>_ s1. update_mra (s1\<lparr>wr_payload_prev_length := buf_size s\<rparr>) signal_mra put_signal_mra
                   \<lparr>hdr = h, offset = jls_raw_chunk_tell (raw s)\<rparr>))
          (\<lambda>s'. wr_inv s' \<and> keeps S2 s' \<and> same_defs S2 s')"
    by (rule write_append_wr[OF i2 keeps_refl, where sl = Slot_signal])
       (simp_all add: h_def list_of_simps fun_eq_iff jls_raw_chunk_tell_def S2_def)
  note w = post_conj[OF w1 w2]
  have q: "offset (chunk_def (signal_info s' i)) \<noteq> 0
           \<and> signal_def (signal_info s' i) = signal_def (signal_info Sb i)" if "keeps S2 s'" for s'
  proof -
    have d2: "offset (chunk_def (signal_info S2 i)) \<noteq> 0" using co by (simp add: S2_def)
    with that have "chunk_def (signal_info s' i) = chunk_def (signal_info S2 i)"
      and "signal_def (signal_info s' i) = signal_def (signal_info S2 i)"
      by (simp_all add: keeps_def)
    with d2 show ?thesis by (simp add: S2_def s)
  qed
  have t: "post (wr_tracks s' i ts) (\<lambda>s'. (wr_inv s' \<and> keeps base s') \<and> (wr_inv s' \<and> keeps S2 s'))"
    if a: "(wr_inv s' \<and> keeps base s' \<and> same_defs S2 s') \<and> (wr_inv s' \<and> keeps S2 s' \<and> same_defs S2 s')"
      and d: "distinct ts" for s' ts
  proof -
    from a have sd: "same_defs S2 s'" by simp
    then have "chunk_def (signal_info s' i) = c" by (simp add: same_defs_def S2_def)
    then have df: "offset (chunk_def (signal_info s' i)) \<noteq> 0" using co by simp
    have hz': "\<forall>t\<in>set ts. offset (t_head (tracks (signal_info s' i) t)) = 0"
      using sd z by (simp add: same_defs_def hz) (simp add: s)
    from a have i': "wr_inv s'" and kb: "keeps base s'" and k2': "keeps S2 s'" by simp_all
    show ?thesis
      by (rule post_conj[OF wr_tracks_post[OF i' kb d hz' df] wr_tracks_post[OF i' k2' d hz' df]])
  qed
  have "post (roe (roe (raw_op S2 (jls_raw_wr (raw S2) h (Some (buf S2))))
              (\<lambda>_ s1. update_mra (s1\<lparr>wr_payload_prev_length := buf_size s\<rparr>) signal_mra put_signal_mra
                   \<lparr>hdr = h, offset = jls_raw_chunk_tell (raw s)\<rparr>))
            (\<lambda>_ self. if fsr then
                 wr_tracks self i
                   [JLS_TRACK_TYPE_FSR, JLS_TRACK_TYPE_ANNOTATION, JLS_TRACK_TYPE_UTC]
               else
                 wr_tracks self i
                   [JLS_TRACK_TYPE_VSR, JLS_TRACK_TYPE_ANNOTATION]))
           (\<lambda>s'. (wr_inv s' \<and> keeps base s') \<and> (wr_inv s' \<and> keeps S2 s'))"
    apply (rule post_roe[OF w])
     apply (rule post_ifI)
      apply (rule t, assumption)
      apply (simp add: JLS_TRACK_TYPE_FSR_def JLS_TRACK_TYPE_ANNOTATION_def JLS_TRACK_TYPE_UTC_def)
     apply (rule t, assumption)
     apply (simp add: JLS_TRACK_TYPE_VSR_def JLS_TRACK_TYPE_ANNOTATION_def)
    apply simp
    done
  then have "post (roe (roe (raw_op S2 (jls_raw_wr (raw S2) h (Some (buf S2))))
              (\<lambda>_ s1. update_mra (s1\<lparr>wr_payload_prev_length := buf_size s\<rparr>) signal_mra put_signal_mra
                   \<lparr>hdr = h, offset = jls_raw_chunk_tell (raw s)\<rparr>))
            (\<lambda>_ self. if fsr then
                 wr_tracks self i
                   [JLS_TRACK_TYPE_FSR, JLS_TRACK_TYPE_ANNOTATION, JLS_TRACK_TYPE_UTC]
               else
                 wr_tracks self i
                   [JLS_TRACK_TYPE_VSR, JLS_TRACK_TYPE_ANNOTATION]))
           (\<lambda>s'. wr_inv s' \<and> keeps base s'
              \<and> offset (chunk_def (signal_info s' i)) \<noteq> 0
              \<and> signal_def (signal_info s' i) = signal_def (signal_info Sb i))"
    by (rule post_mono) (simp add: q)
  then show ?thesis
    unfolding Let_def roe_assoc h_def[symmetric] c_def[symmetric] S2_def[symmetric]
    by (simp only: c_def chunk_s.simps)
qed

lemma sig_chain:
  assumes s0: "s0 = buf_reset S0"
    and inv: "wr_inv S0" and k: "keeps base S0"
    and tt: "4 \<le> unat (track_type (signal_info S0 i))"
    and z: "\<forall>t. offset (t_head (tracks (signal_info S0 i) t)) = 0"
    and base0: "offset (chunk_def (signal_info base i)) = 0"
  shows "post (roe (buf_wr_u16 s0 a1) (\<lambda>_ self.
               roe (buf_wr_u8 self a2) (\<lambda>_ self.
               roe (buf_wr_u8 self a3) (\<lambda>_ self.
               roe (buf_wr_u32 self a4) (\<lambda>_ self.
               roe (buf_wr_u32 self a5) (\<lambda>_ self.
               roe (buf_wr_u32 self a6) (\<lambda>_ self.
               roe (buf_wr_u32 self a7) (\<lambda>_ self.
               roe (buf_wr_u32 self a8) (\<lambda>_ self.
               roe (buf_add_zero self a9) (\<lambda>_ self.
               roe (buf_add_str self a10) (\<lambda>_ self.
               roe (buf_add_str self a11) (\<lambda>_ self.
               (let payload_length = buf_size self;
                   chunk = \<lparr>hdr = \<lparr>item_next = 0, item_prev = offset (signal_mra self),
                                   tag = JLS_TAG_SIGNAL_DEF, rsv0_u8 = 0,
                                   chunk_meta = m,
                                   payload_length = payload_length,
                                   payload_prev_length = wr_payload_prev_length self\<rparr>,
                            offset = jls_raw_chunk_tell (raw self)\<rparr>;
                   self = put_info i ((signal_info self i)\<lparr>chunk_def := chunk\<rparr>) self
               in
               roe (raw_op self (jls_raw_wr (raw self) (hdr chunk) (Some (buf self)))) (\<lambda>_ self.
               roe (update_mra (self\<lparr>wr_payload_prev_length := payload_length\<rparr>)
                      signal_mra put_signal_mra chunk) (\<lambda>_ self.
               if fsr then
                 wr_tracks self i
                   [JLS_TRACK_TYPE_FSR, JLS_TRACK_TYPE_ANNOTATION, JLS_TRACK_TYPE_UTC]
               else
                 wr_tracks self i
                   [JLS_TRACK_TYPE_VSR, JLS_TRACK_TYPE_ANNOTATION])))))))))))))))
           (\<lambda>s'. wr_inv s' \<and> keeps base s')"
  unfolding s0
  apply (rule post_roe_buf[OF _ inv k], rule post_buf_ops, simp)
  apply (rule post_roe_buf[OF _ inv k], erule post_buf_ops)+
  apply (rule post_mono, erule sig_tail[OF inv k tt z base0])
  apply simp
  done


lemma wr_inv_heads:
  "wr_inv s \<Longrightarrow> offset (chunk_def (signal_info s i)) = 0 \<Longrightarrow>
     offset (t_head (tracks (signal_info s i) t)) = 0"
  by (simp add: wr_inv_def)

lemma signal_def_post:
  assumes inv: "wr_inv self"
  shows "post (jls_wr_signal_def self so) (\<lambda>s'. wr_inv s' \<and> keeps self s')"
proof (cases so)
  case None
  then show ?thesis using inv by (simp add: jls_wr_signal_def_def)
next
  case (Some signal)
  have f: "post (Failure e (put_info i info self)) (\<lambda>s'. wr_inv s' \<and> keeps self s')"
    if "offset (chunk_def (signal_info self i)) = 0"
      "chunk_def info = chunk_def (signal_info self i)" "tracks info = tracks (signal_info self i)"
    for e i info
    using that by (simp add: wr_inv_put_info_undef[OF inv] keeps_put_info_undef)
  show ?thesis
    unfolding jls_wr_signal_def_def Some option.case
    apply (intro post_LetI post_ifI post_optionI post_sumI)
    subgoal by (simp add: inv)
    subgoal by (simp add: inv)
    subgoal by (simp add: inv)
    subgoal by (simp add: inv)
    subgoal by (simp add: inv)
    subgoal by simp
    subgoal by (rule f) simp_all
    subgoal by (rule f) simp_all
    subgoal by (rule f) simp_all
    subgoal for y nm ya yb yc yd ye yf yg yh b yi yj
      apply (rule sig_chain[where base = self])
           apply assumption
          apply (rule wr_inv_put_info_undef[OF inv])
            apply simp
           apply simp
          apply simp
         apply (rule keeps_put_info_undef[OF keeps_refl])
         apply simp
        apply (simp add: JLS_TAG_TRACK_FSR_DATA_def JLS_TAG_TRACK_VSR_DATA_def)
       apply (simp add: wr_inv_heads[OF inv])
      apply simp
      done
    done
qed

lemma wr_inv_calloc: "wr_inv wr_calloc"
  by (simp add: wr_inv_def lists_inv_def linked_def mra_ok_def mras_def wr_calloc_def
      jls_raw_open_w_def chunk_zero_def track_zero_def FILE_HEADER_SIZE_def)
     (rule allI, case_tac sl, simp_all add: get_track_data_def get_track_def track_zero_def chunk_zero_def)

lemma wr_step_post:
  "wr_inv self \<Longrightarrow> post (wr_step self c) (\<lambda>s'. wr_inv s' \<and> keeps self s')"
  by (cases c)
     (simp_all add: source_def_post signal_def_post user_data_post fsr_f32_post
        fsr_annotation_post fsr_utc_post vsr_annotation_post)

lemma wr_run_inv:
  "wr_inv self \<Longrightarrow> wr_run self cs = Some s \<Longrightarrow> wr_inv s \<and> keeps self s"
proof (induction cs arbitrary: self)
  case Nil
  then show ?case by simp
next
  case (Cons c cs)
  from wr_step_post[OF Cons.prems(1), of c] Cons.prems(2)
  obtain s1 where "wr_inv s1" "keeps self s1" "wr_run s1 cs = Some s"
    by (cases "wr_step self c") auto
  with Cons.IH[of s1] show ?case by (auto intro: keeps_trans)
qed

subsection \<open>Evaluation of concrete sessions\<close>

lemmas const_defs =
  JLS_SOURCE_COUNT_def JLS_SIGNAL_COUNT_def JLS_SUMMARY_LEVEL_COUNT_def
  JLS_TRACK_TYPE_FSR_def JLS_TRACK_TYPE_VSR_def JLS_TRACK_TYPE_ANNOTATION_def JLS_TRACK_TYPE_UTC_def
  JLS_TRACK_CHUNK_DEF_def JLS_TRACK_CHUNK_HEAD_def JLS_TRACK_CHUNK_DATA_def
  JLS_TRACK_CHUNK_INDEX_def JLS_TRACK_CHUNK_SUMMARY_def
  JLS_TAG_SOURCE_DEF_def JLS_TAG_SIGNAL_DEF_def JLS_TAG_USER_DATA_def
  JLS_TAG_TRACK_FSR_DATA_def JLS_TAG_TRACK_FSR_INDEX_def JLS_TAG_TRACK_FSR_SUMMARY_def
  JLS_TAG_TRACK_VSR_DATA_def JLS_TAG_TRACK_VSR_INDEX_def JLS_TAG_TRACK_VSR_SUMMARY_def
  JLS_TAG_TRACK_ANNOTATION_DATA_def JLS_TAG_TRACK_UTC_DATA_def
  JLS_SIGNAL_TYPE_FSR_def JLS_SIGNAL_TYPE_VSR_def JLS_DATATYPE_F32_def
  JLS_STORAGE_TYPE_INVALID_def JLS_STORAGE_TYPE_BINARY_def JLS_STORAGE_TYPE_STRING_def
  JLS_STORAGE_TYPE_JSON_def FILE_HEADER_SIZE_def chunk_size_def BUFFER_SIZE_def
  SUMMARY_DECIMATE_FACTOR_MIN_def DECIMATIONS_PER_CHUNK_MIN_def

lemmas wr_defs =
  roe_def lift_res_def raw_op_def ignore_rc_def
  jls_raw_open_w_def jls_raw_chunk_tell_def jls_raw_chunk_seek_def read_bytes_def
  jls_raw_wr_def jls_raw_wr_header_def jls_raw_wr_payload_def
  buf_reset_def buf_add_zero_def buf_add_str_def buf_add_bin_def buf_size_def
  buf_wr_u8_def buf_wr_u16_def buf_wr_u32_def buf_wr_u64_def
  update_mra_def put_source_mra_def put_signal_mra_def put_user_data_mra_def put_info_def
  get_track_def put_track_def get_track_data_def put_track_data_def
  jls_wr_source_def_def track_tag_def track_wr_def_def track_wr_head_def
  sample_buffer_alloc_def snprintf_name_def jls_wr_signal_def_def strlen_def
  jls_wr_user_data_def signal_validate_def signal_validate_typed_def
  u64_bytes_def u32_bytes_def literal_def SOURCE_0_def SIGNAL_0_def
  chunk_zero_def signal_def_zero_def track_zero_def wr_calloc_def

lemma upt_0_8: "[0..<8] = [0, 1, 2, 3, 4, 5, 6, 7]"
  by (simp add: upt_rec)

lemma upt_0_4: "[0..<4] = [0, 1, 2, 3]"
  by (simp add: upt_rec)

lemmas rd_defs =
  STRING_BUFFER_SIZE_DEFAULT_def SIGNAL_MASK_def
  payload_skip_def payload_parse_u8_def payload_parse_u16_def payload_parse_u32_def
  strings_room_def payload_parse_str_def rd_def rd_seek_def put_source_def put_signal_def
  parse_str_into_def scan_source_def scan_sources_def rd_signal_validate_def parse_u32_into_def
  handle_signal_def_def is_signal_defined_def tag_parse_track_type_def validate_track_tag_def
  put_signal_s_def handle_track_def_def i64_at_def handle_track_head_def scan_signals_def
  scan_def source_def_zero_def rd_calloc_def jls_rd_open_def jls_raw_rd_def
  in_i64_def i64_div_def seek_def jls_rd_fsr_length_def f32_at_def f32_range_def
  jls_rd_fsr_f32_def jls_wr_close_def

lemma roe_weak_cong: "r = r' \<Longrightarrow> roe r f = roe r' f"
  by simp

lemma ignore_rc_weak_cong: "r = r' \<Longrightarrow> ignore_rc r f = ignore_rc r' f"
  by simp



lemma find_level_7:
  "find_level f 7 = (if f 7 \<noteq> 0 then Some (7, f 7) else if f 6 \<noteq> 0 then Some (6, f 6)
     else if f 5 \<noteq> 0 then Some (5, f 5) else if f 4 \<noteq> 0 then Some (4, f 4)
     else if f 3 \<noteq> 0 then Some (3, f 3) else if f 2 \<noteq> 0 then Some (2, f 2)
     else if f (Suc 0) \<noteq> 0 then Some (Suc 0, f (Suc 0)) else if f 0 \<noteq> 0 then Some (0, f 0) else None)"
proof -
  have e: "(7::nat) = Suc (Suc (Suc (Suc (Suc (Suc (Suc 0))))))" "(6::nat) = Suc (Suc (Suc (Suc (Suc (Suc 0)))))"
    "(5::nat) = Suc (Suc (Suc (Suc (Suc 0))))" "(4::nat) = Suc (Suc (Suc (Suc 0)))"
    "(3::nat) = Suc (Suc (Suc 0))" "(2::nat) = Suc (Suc 0)" by simp_all
  show ?thesis unfolding e by simp
qed

subsection \<open>Calls that return 0\<close>

lemma post_ok_simps [simp]:
  "post_ok (Success v s) Q = Q s" "post_ok (Failure e s) Q" "post_ok Undefined Q"
  by (simp_all add: post_ok_def)

lemma post_okD: "post_ok r Q \<Longrightarrow> r = Success v s \<Longrightarrow> Q s"
  by simp

lemma postD: "post r Q \<Longrightarrow> r = Success v s \<Longrightarrow> Q s"
  by simp

lemma post_ok_post: "post r Q \<Longrightarrow> post_ok r Q"
  by (cases r) simp_all

lemma post_ok_mono: "post_ok r P \<Longrightarrow> (\<And>s. P s \<Longrightarrow> Q s) \<Longrightarrow> post_ok r Q"
  by (cases r) simp_all

lemma post_ok_roe:
  "post_ok r P \<Longrightarrow> (\<And>v s. P s \<Longrightarrow> post_ok (f v s) Q) \<Longrightarrow> post_ok (roe r f) Q"
  by (cases r) (simp_all add: roe_def)

lemma post_ok_ignore_rc:
  "post r P \<Longrightarrow> (\<And>s. P s \<Longrightarrow> post_ok (f s) Q) \<Longrightarrow> post_ok (ignore_rc r f) Q"
  by (cases r) (simp_all add: ignore_rc_def)

lemma post_ok_roe_buf:
  "post r (buf_rel S) \<Longrightarrow> (\<And>v s. buf_rel S s \<Longrightarrow> post_ok (f v s) Q) \<Longrightarrow> post_ok (roe r f) Q"
  by (rule post_ok_roe[OF post_ok_post])

lemma post_ok_LetI: "(\<And>y. y = x \<Longrightarrow> post_ok (f y) Q) \<Longrightarrow> post_ok (Let x f) Q"
  by simp




lemma wr_inv_fpos: "wr_inv s \<Longrightarrow> 0 < fpos (raw s)"
  by (simp add: wr_inv_def lists_inv_def)

subsection \<open>What the calls leave alone\<close>


text \<open>
  What a call leaves alone. \<open>G\<close> is a part of the writer, \<open>x\<close> its value: the rules carry
  \<open>G s = x\<close> through a call, given that the updates the call makes do not touch \<open>G\<close>.
\<close>

lemma frame_roe:
  "post r (\<lambda>s. G s = x) \<Longrightarrow>
   (\<And>v s. G s = x \<Longrightarrow> post (f v s) (\<lambda>s. G s = x)) \<Longrightarrow>
   post (roe r f) (\<lambda>s. G s = x)"
  by (rule post_roe)

lemma frame_ignore_rc:
  "post r (\<lambda>s. G s = x) \<Longrightarrow>
   (\<And>s. G s = x \<Longrightarrow> post (f s) (\<lambda>s. G s = x)) \<Longrightarrow>
   post (ignore_rc r f) (\<lambda>s. G s = x)"
  by (rule post_ignore_rc)

lemma frame_raw_op:
  "(\<And>s r. G (s\<lparr>raw := r\<rparr>) = G s) \<Longrightarrow> G s = x \<Longrightarrow> post (raw_op s r) (\<lambda>s'. G s' = x)"
  by (cases r) (simp_all add: raw_op_def lift_res_def)

lemma frame_buf:
  assumes g: "\<And>s b. G (s\<lparr>buf := b\<rparr>) = G s" and s: "G s = x"
  shows "post (buf_add_zero s n) (\<lambda>s'. G s' = x)"
    and "post (buf_add_str s cstr) (\<lambda>s'. G s' = x)"
    and "post (buf_add_bin s d k) (\<lambda>s'. G s' = x)"
    and "post (buf_wr_u8 s v8) (\<lambda>s'. G s' = x)"
    and "post (buf_wr_u16 s v16) (\<lambda>s'. G s' = x)"
    and "post (buf_wr_u32 s v32) (\<lambda>s'. G s' = x)"
    and "post (buf_wr_u64 s v64) (\<lambda>s'. G s' = x)"
proof -
  have b: "G s' = x" if "buf_rel s s'" for s'
    using that s by (auto simp: buf_rel_def g)
  show "post (buf_add_zero s n) (\<lambda>s'. G s' = x)"
    by (rule post_mono[OF post_buf_ops(1)[OF buf_rel_refl(1)] b])
  show "post (buf_add_str s cstr) (\<lambda>s'. G s' = x)"
    by (rule post_mono[OF post_buf_ops(2)[OF buf_rel_refl(1)] b])
  show "post (buf_add_bin s d k) (\<lambda>s'. G s' = x)"
    by (rule post_mono[OF post_buf_ops(3)[OF buf_rel_refl(1)] b])
  show "post (buf_wr_u8 s v8) (\<lambda>s'. G s' = x)"
    by (rule post_mono[OF post_buf_ops(4)[OF buf_rel_refl(1)] b])
  show "post (buf_wr_u16 s v16) (\<lambda>s'. G s' = x)"
    by (rule post_mono[OF post_buf_ops(5)[OF buf_rel_refl(1)] b])
  show "post (buf_wr_u32 s v32) (\<lambda>s'. G s' = x)"
    by (rule post_mono[OF post_buf_ops(6)[OF buf_rel_refl(1)] b])
  show "post (buf_wr_u64 s v64) (\<lambda>s'. G s' = x)"
    by (rule post_mono[OF post_buf_ops(7)[OF buf_rel_refl(1)] b])
qed

lemma frame_update_mra:
  assumes p: "\<And>c s. G (put c s) = G s" and r: "\<And>s r. G (s\<lparr>raw := r\<rparr>) = G s"
    and s: "G s = x"
  shows "post (update_mra s get put c) (\<lambda>s'. G s' = x)"
  unfolding update_mra_def
  apply (intro post_ifI post_LetI frame_roe frame_raw_op)
  using s apply (simp_all add: p r)
  done

lemma post_fsrI:
  "(\<And>b'. y = Fsr_Return0 b' \<Longrightarrow> post (a b') Q) \<Longrightarrow>
   (\<And>b' k. y = Fsr_Emit b' k \<Longrightarrow> post (c b' k) Q) \<Longrightarrow>
   (y = Fsr_Undefined \<Longrightarrow> post u Q) \<Longrightarrow>
   post (case y of Fsr_Return0 b' \<Rightarrow> a b' | Fsr_Emit b' k \<Rightarrow> c b' k | Fsr_Undefined \<Rightarrow> u) Q"
  by (cases y) simp_all

lemma frame_validate:
  "G s = x \<Longrightarrow> post (signal_validate s sid) (\<lambda>s'. G s' = x)"
  "G s = x \<Longrightarrow> post (signal_validate_typed s sid ty) (\<lambda>s'. G s' = x)"
  by (simp_all add: signal_validate_def signal_validate_typed_def roe_def)

lemmas frame_intros =
  post_ifI post_LetI post_optionI post_sumI post_fsrI frame_roe frame_ignore_rc frame_raw_op
  frame_buf frame_update_mra frame_validate

lemma frame_puts [simp]:
  "source_info (put_source_mra c s) = source_info s"
  "source_info (put_signal_mra c s) = source_info s"
  "source_info (put_user_data_mra c s) = source_info s"
  "source_info (put_track_data i t c s) = source_info s"
  "signal_info (put_source_mra c s) = signal_info s"
  "signal_info (put_signal_mra c s) = signal_info s"
  "signal_info (put_user_data_mra c s) = signal_info s"
  by (simp_all add: put_source_mra_def put_signal_mra_def put_user_data_mra_def
      put_track_data_def put_track_def put_info_def)

lemma frame_user_data:
  "post (jls_wr_user_data s m st d n) (\<lambda>s'. source_info s' = source_info s)"
  unfolding jls_wr_user_data_def
  apply (intro frame_intros)
  apply simp_all
  done

lemma frame_fsr_utc:
  "post (jls_wr_fsr_utc s sid t u) (\<lambda>s'. source_info s' = source_info s)"
  unfolding jls_wr_fsr_utc_def
  apply (intro frame_intros)
  apply simp_all
  done

lemma frame_anno_wr:
  "source_info s = x \<Longrightarrow> post (anno_wr s sid ts a st d n) (\<lambda>s'. source_info s' = x)"
  unfolding anno_wr_def
  apply (intro frame_intros)
  apply (simp_all add: buf_reset_def)
  done

lemma frame_annotation:
  "post (jls_wr_fsr_annotation s sid ts a st d n) (\<lambda>s'. source_info s' = source_info s)"
  "post (jls_wr_vsr_annotation s sid ts a st d n) (\<lambda>s'. source_info s' = source_info s)"
  unfolding jls_wr_fsr_annotation_def jls_wr_vsr_annotation_def
  by (intro frame_intros frame_anno_wr; simp)+

lemma frame_fsr_f32:
  "post (jls_wr_fsr_f32 s sid t d n) (\<lambda>s'. source_info s' = source_info s)"
  unfolding jls_wr_fsr_f32_def
  apply (intro frame_intros)
  apply simp_all
  done

text \<open>
  The calls that write the chunks of a track change, in the writer's tables, only the
  descriptors of that track.
\<close>

lemma frame_track_wr_def:
  assumes "\<And>s r. G (s\<lparr>raw := r\<rparr>) = G s" "\<And>s k. G (s\<lparr>wr_payload_prev_length := k\<rparr>) = G s"
    "\<And>c s. G (put_signal_mra c s) = G s" "\<And>ti s. G (put_track i t ti s) = G s"
    "G s = x"
  shows "post (track_wr_def s i t) (\<lambda>s'. G s' = x)"
  unfolding track_wr_def_def
  apply (intro frame_intros)
  apply (simp_all add: assms)
  done

lemma frame_track_wr_head:
  assumes "\<And>s r. G (s\<lparr>raw := r\<rparr>) = G s" "\<And>s k. G (s\<lparr>wr_payload_prev_length := k\<rparr>) = G s"
    "\<And>c s. G (put_signal_mra c s) = G s" "\<And>ti s. G (put_track i t ti s) = G s"
    "G s = x"
  shows "post (track_wr_head s i t) (\<lambda>s'. G s' = x)"
  unfolding track_wr_head_def
  apply (intro frame_intros)
  apply (simp_all add: assms)
  done

lemma frame_wr_tracks:
  assumes g: "\<And>s r. G (s\<lparr>raw := r\<rparr>) = G s" "\<And>s k. G (s\<lparr>wr_payload_prev_length := k\<rparr>) = G s"
    "\<And>c s. G (put_signal_mra c s) = G s" "\<And>t ti s. G (put_track i t ti s) = G s"
  shows "G s = x \<Longrightarrow> post (wr_tracks s i ts) (\<lambda>s'. G s' = x)"
proof (induction ts arbitrary: s)
  case Nil
  then show ?case by simp
next
  case (Cons t ts)
  show ?case
    unfolding wr_tracks.simps
    by (intro frame_roe frame_track_wr_def frame_track_wr_head Cons.prems Cons.IH g)
qed

lemma frame_signal_def:
  "post (jls_wr_signal_def s so) (\<lambda>s'. source_info s' = source_info s)"
  unfolding jls_wr_signal_def_def
  apply (intro frame_intros frame_wr_tracks)
  apply (simp_all add: buf_reset_def put_track_def)
  done


text \<open>the last step of \<^verbatim>\<open>jls_wr_source_def\<close>: the table is as the call set it\<close>
lemma source_def_tail:
  "post (roe (raw_op S (jls_raw_wr (raw S) h pl))
           (\<lambda>_ s1. update_mra (s1\<lparr>wr_payload_prev_length := n\<rparr>) source_mra put_source_mra c))
     (\<lambda>s'. source_info s' = source_info S)"
  by (intro frame_intros) simp_all

lemma frame_source_def:
  "post (jls_wr_source_def s so)
     (\<lambda>s'. \<forall>i. offset (source_info s i) \<noteq> 0 \<longrightarrow> source_info s' i = source_info s i)"
proof (cases so)
  case None
  then show ?thesis by (simp add: jls_wr_source_def_def)
next
  case (Some source)
  show ?thesis
  proof (cases "JLS_SOURCE_COUNT \<le> unat (source_id source)
                \<or> offset (source_info s (unat (source_id source))) \<noteq> 0")
    case True
    then show ?thesis using Some by (auto simp: jls_wr_source_def_def)
  next
    case False
    then have z: "offset (source_info s (unat (source_id source))) = 0" by simp
    from False have nle: "\<not> JLS_SOURCE_COUNT \<le> unat (source_id source)" by simp
    have q: "\<forall>i. offset (source_info s i) \<noteq> 0 \<longrightarrow> source_info s' i = source_info s i"
      if "buf_rel s s'" for s'
      using that by (auto simp: buf_rel_def)
    have last: "post (roe (raw_op (sb\<lparr>source_info := (source_info sb)(unat (source_id source) := c)\<rparr>)
                   (jls_raw_wr (raw (sb\<lparr>source_info := (source_info sb)(unat (source_id source) := c)\<rparr>)) h pl))
                (\<lambda>_ s1. update_mra (s1\<lparr>wr_payload_prev_length := n\<rparr>) source_mra put_source_mra c'))
           (\<lambda>s'. \<forall>i. offset (source_info s i) \<noteq> 0 \<longrightarrow> source_info s' i = source_info s i)"
      if b: "buf_rel s sb" for sb c c' h pl n
    proof (rule post_mono[OF source_def_tail])
      fix s' assume "source_info s' = source_info (sb\<lparr>source_info := (source_info sb)(unat (source_id source) := c)\<rparr>)"
      with b z show "\<forall>i. offset (source_info s i) \<noteq> 0 \<longrightarrow> source_info s' i = source_info s i"
        by (auto simp: buf_rel_def)
    qed
    show ?thesis
      unfolding jls_wr_source_def_def Some option.case
      apply (simp only: nle z if_False simp_thms)
      apply (rule post_ignore_rc[where P = "buf_rel s"])
       apply (rule post_buf_ops, simp)
      apply (rule post_roe'[where P = "buf_rel s"], erule post_buf_ops, erule q)+
      apply (intro post_LetI)
      apply (simp only: chunk_s.simps)
      apply (rule last)
      apply simp
      done
  qed
qed

text \<open>A call of \<^verbatim>\<open>jls_wr_source_def\<close> that returns 0 leaves the source defined.\<close>

lemma source_def_defines:
  assumes fp: "fpos (raw s) \<noteq> 0"
  shows "post_ok (jls_wr_source_def s (Some source))
           (\<lambda>s'. unat (source_id source) < JLS_SOURCE_COUNT
                \<and> offset (source_info s' (unat (source_id source))) \<noteq> 0)"
proof (cases "JLS_SOURCE_COUNT \<le> unat (source_id source)
                \<or> offset (source_info s (unat (source_id source))) \<noteq> 0")
  case True
  then show ?thesis by (auto simp: jls_wr_source_def_def)
next
  case False
  then have z: "offset (source_info s (unat (source_id source))) = 0" by simp
  from False have nle: "\<not> JLS_SOURCE_COUNT \<le> unat (source_id source)" by simp
  have last: "post_ok (roe (raw_op (sb\<lparr>source_info := (source_info sb)(unat (source_id source) := \<lparr>hdr = h, offset = off\<rparr>)\<rparr>)
                   (jls_raw_wr (raw (sb\<lparr>source_info := (source_info sb)(unat (source_id source) := \<lparr>hdr = h, offset = off\<rparr>)\<rparr>)) h pl))
                (\<lambda>_ s1. update_mra (s1\<lparr>wr_payload_prev_length := n\<rparr>) source_mra put_source_mra c'))
           (\<lambda>s'. unat (source_id source) < JLS_SOURCE_COUNT
                \<and> offset (source_info s' (unat (source_id source))) \<noteq> 0)"
    if b: "buf_rel s sb" and off: "off = jls_raw_chunk_tell (raw sb)" for sb off c' h pl n
  proof (rule post_ok_mono[OF post_ok_post[OF source_def_tail]])
    fix s' assume "source_info s' = source_info (sb\<lparr>source_info := (source_info sb)(unat (source_id source) := \<lparr>hdr = h, offset = off\<rparr>)\<rparr>)"
    with b fp nle off show "unat (source_id source) < JLS_SOURCE_COUNT
                \<and> offset (source_info s' (unat (source_id source))) \<noteq> 0"
      by (auto simp: buf_rel_def jls_raw_chunk_tell_def)
  qed
  show ?thesis
    unfolding jls_wr_source_def_def option.case
    apply (simp only: nle z if_False simp_thms)
    apply (rule post_ok_ignore_rc[where P = "buf_rel s"])
     apply (rule post_buf_ops, simp)
    apply (rule post_ok_roe_buf[where S = s], erule post_buf_ops)+
    apply (intro post_ok_LetI)
    apply (simp only: chunk_s.simps)
    apply (rule last)
     apply simp_all
    done
qed

lemma frame_wr_step:
  "post (wr_step s c)
     (\<lambda>s'. \<forall>i. offset (source_info s i) \<noteq> 0 \<longrightarrow> source_info s' i = source_info s i)"
proof (cases c)
  case (Wr_source_def x)
  then show ?thesis by (simp add: frame_source_def)
next
  case (Wr_signal_def x)
  then show ?thesis using post_mono[OF frame_signal_def[of s x]] by simp
next
  case (Wr_user_data m st d n)
  then show ?thesis using post_mono[OF frame_user_data[of s m st d n]] by simp
next
  case (Wr_fsr_f32 sid t d n)
  then show ?thesis using post_mono[OF frame_fsr_f32[of s sid t d n]] by simp
next
  case (Wr_fsr_annotation sid t a st d n)
  then show ?thesis using post_mono[OF frame_annotation(1)[of s sid t a st d n]] by simp
next
  case (Wr_fsr_utc sid t u)
  then show ?thesis using post_mono[OF frame_fsr_utc[of s sid t u]] by simp
next
  case (Wr_vsr_annotation sid t a st d n)
  then show ?thesis using post_mono[OF frame_annotation(2)[of s sid t a st d n]] by simp
qed

lemma frame_wr_run:
  "wr_run s cs = Some s' \<Longrightarrow> offset (source_info s i) \<noteq> 0 \<Longrightarrow> source_info s' i = source_info s i"
proof (induction cs arbitrary: s)
  case Nil
  then show ?case by simp
next
  case (Cons c cs)
  from frame_wr_step[of s c] Cons.prems(1)
  obtain s1 where a: "\<forall>i. offset (source_info s i) \<noteq> 0 \<longrightarrow> source_info s1 i = source_info s i"
    and r: "wr_run s1 cs = Some s'"
    by (cases "wr_step s c") auto
  from a Cons.prems(2) have e: "source_info s1 i = source_info s i" by simp
  with Cons.prems(2) have "offset (source_info s1 i) \<noteq> 0" by simp
  from Cons.IH[OF r this] e show ?case by simp
qed





subsection \<open>Sessions\<close>


lemma roe_SuccessD: "roe r f = Success v s \<Longrightarrow> \<exists>v' s'. r = Success v' s' \<and> f v' s' = Success v s"
  by (cases r) (simp_all add: roe_def)

text \<open>Every writer that \<^verbatim>\<open>jls_wr_open\<close> returns is the state of a session.\<close>

lemma open_at_run:
  assumes "jls_wr_open_at m = Success () s"
  shows "wr_run wr_calloc (open_calls @ [Wr_signal_def (Some (SIGNAL_0_at m))]) = Some s"
  using assms unfolding jls_wr_open_at_def open_calls_def
  by (auto simp: roe_def split: res.splits)

text \<open>The calls of \<^verbatim>\<open>example/performance.c\<close> before the samples, where a 0 byte follows each \<^verbatim>\<open>""\<close>.\<close>

lemma perf_steps:
  "\<exists>s1 s2 s3 s4 s5.
     jls_wr_user_data wr_calloc 0 JLS_STORAGE_TYPE_INVALID None 0 = Success () s1
     \<and> jls_wr_source_def s1 (Some SOURCE_0) = Success () s2
     \<and> jls_wr_signal_def s2 (Some (SIGNAL_0_at [0])) = Success () s3
     \<and> jls_wr_source_def s3 (Some (SOURCE_1_at [0])) = Success () s4
     \<and> jls_wr_signal_def s4 (Some SIGNAL_1_perf) = Success () s5
     \<and> fpos (raw s1) = 68
     \<and> signal_validate s5 0 = Success () s5
     \<and> signal_validate s5 1 = Success () s5
     \<and> signal_type (signal_def (signal_info s5 0)) = JLS_SIGNAL_TYPE_VSR
     \<and> track_type (signal_info s5 0) = JLS_TAG_TRACK_VSR_DATA
     \<and> track_type (signal_info s5 1) = JLS_TAG_TRACK_FSR_DATA"
  by (simp add: SIGNAL_0_at_def SOURCE_1_at_def SIGNAL_1_perf_def SIGNAL_1_def wr_defs const_defs Let_def upt_0_8)

lemma perf_state:
  "\<exists>s. wr_run wr_calloc (perf_calls [0]) = Some s
     \<and> signal_validate s 0 = Success () s
     \<and> signal_validate s 1 = Success () s
     \<and> signal_type (signal_def (signal_info s 0)) = JLS_SIGNAL_TYPE_VSR
     \<and> track_type (signal_info s 0) = JLS_TAG_TRACK_VSR_DATA
     \<and> track_type (signal_info s 1) = JLS_TAG_TRACK_FSR_DATA"
proof -
  from perf_steps obtain s1 s2 s3 s4 s5 where
    a: "jls_wr_user_data wr_calloc 0 JLS_STORAGE_TYPE_INVALID None 0 = Success () s1"
      "jls_wr_source_def s1 (Some SOURCE_0) = Success () s2"
      "jls_wr_signal_def s2 (Some (SIGNAL_0_at [0])) = Success () s3"
      "jls_wr_source_def s3 (Some (SOURCE_1_at [0])) = Success () s4"
      "jls_wr_signal_def s4 (Some SIGNAL_1_perf) = Success () s5"
    and f: "signal_validate s5 0 = Success () s5" "signal_validate s5 1 = Success () s5"
      "signal_type (signal_def (signal_info s5 0)) = JLS_SIGNAL_TYPE_VSR"
      "track_type (signal_info s5 0) = JLS_TAG_TRACK_VSR_DATA"
      "track_type (signal_info s5 1) = JLS_TAG_TRACK_FSR_DATA"
    by blast
  have "wr_run wr_calloc (perf_calls [0]) = Some s5"
    by (simp add: perf_calls_def open_calls_def a)
  with f show ?thesis by blast
qed

text \<open>The three calls of \<^verbatim>\<open>jls_wr_open\<close>, when it returns 0.\<close>

lemma open_at_steps:
  assumes "jls_wr_open_at m = Success () w"
  shows "\<exists>v v1. jls_wr_user_data wr_calloc 0 JLS_STORAGE_TYPE_INVALID None 0 = Success () v
     \<and> jls_wr_source_def v (Some SOURCE_0) = Success () v1
     \<and> jls_wr_signal_def v1 (Some (SIGNAL_0_at m)) = Success () w"
  using assms unfolding jls_wr_open_at_def
  by (auto simp: roe_def split: res.splits)

lemma first_chunk_fpos:
  assumes "jls_wr_user_data wr_calloc 0 JLS_STORAGE_TYPE_INVALID None 0 = Success () v"
  shows "fpos (raw v) \<noteq> 0"
proof -
  from perf_steps obtain v' where
    "jls_wr_user_data wr_calloc 0 JLS_STORAGE_TYPE_INVALID None 0 = Success () v'"
    and "fpos (raw v') = 68" by blast
  with assms show ?thesis by simp
qed

text \<open>
  After a definition of a source that returned 0, and any calls that return, a definition
  with the same \<^verbatim>\<open>source_id\<close> is refused.
\<close>

lemma source_def_refused:
  assumes d1: "jls_wr_source_def u (Some a) = Success () u1" and fp: "fpos (raw u) \<noteq> 0"
    and r: "wr_run u1 calls = Some u2" and e: "source_id b = source_id a"
  shows "jls_wr_source_def u2 (Some b) = Failure JLS_ERROR_ALREADY_EXISTS u2
         \<and> source_info u2 (unat (source_id a)) = source_info u1 (unat (source_id a))"
proof -
  from post_okD[OF source_def_defines[OF fp] d1]
  have rg: "unat (source_id a) < JLS_SOURCE_COUNT"
    and d: "offset (source_info u1 (unat (source_id a))) \<noteq> 0" by simp_all
  from frame_wr_run[OF r d]
  have k: "source_info u2 (unat (source_id a)) = source_info u1 (unat (source_id a))" .
  with rg d e show ?thesis by (simp add: jls_wr_source_def_def)
qed

text \<open>
  A call of \<^verbatim>\<open>jls_wr_fsr_f32\<close> with samples, on a defined signal of a session: the loop
  is left only in the branch that writes a chunk, and there \<^verbatim>\<open>info->track_type\<close>, a
  data tag, is the index into the 4 elements of \<^verbatim>\<open>info->tracks\<close>.
\<close>

lemma fsr_f32_undefined:
  assumes inv: "wr_inv s" and v: "signal_validate s sid = Success () s" and n: "n \<noteq> 0"
  shows "jls_wr_fsr_f32 s sid t d n = Undefined"
proof -
  from signal_validate_cases[of s sid] v
  have df: "offset (chunk_def (signal_info s (unat sid))) \<noteq> 0" by auto
  with inv have tt: "4 \<le> unat (track_type (signal_info s (unat sid)))"
    by (simp add: wr_inv_def)
  show ?thesis
  proof (cases "sample_buffer (signal_info s (unat sid))")
    case None
    then show ?thesis by (simp add: jls_wr_fsr_f32_def v roe_Success n)
  next
    case (Some b)
    show ?thesis
    proof (cases "fsr_loop b d n")
      case (Fsr_Return0 b')
      from fsr_loop_Return0[OF this] n show ?thesis by simp
    next
      case (Fsr_Emit b' k)
      then show ?thesis by (simp add: jls_wr_fsr_f32_def v roe_Success Some tt Let_def)
    next
      case Fsr_Undefined
      then show ?thesis by (simp add: jls_wr_fsr_f32_def v roe_Success Some)
    qed
  qed
qed

lemma fsr_f32_zero:
  assumes v: "signal_validate s sid = Success () s"
  shows "jls_wr_fsr_f32 s sid t d 0 = Success () s"
proof (cases "sample_buffer (signal_info s (unat sid))")
  case None
  then show ?thesis by (simp add: jls_wr_fsr_f32_def v roe_Success)
next
  case (Some b)
  have l: "fsr_loop b d 0 = Fsr_Return0 b" by (simp add: fsr_loop.simps)
  have "(signal_info s (unat sid))\<lparr>sample_buffer := Some b\<rparr> = signal_info s (unat sid)"
    using Some by (cases "signal_info s (unat sid)") simp
  then have "put_info (unat sid) ((signal_info s (unat sid))\<lparr>sample_buffer := Some b\<rparr>) s = s"
    by (simp add: put_info_def)
  then show ?thesis by (simp add: jls_wr_fsr_f32_def v roe_Success Some l)
qed

lemma wr_run_wr_inv: "wr_run wr_calloc calls = Some s \<Longrightarrow> wr_inv s"
  using wr_run_inv[OF wr_inv_calloc] by blast

text \<open>
  In every state of a session in which each call has returned, the lists of the file are
  linked: every chunk whose \<^verbatim>\<open>item_next\<close> is not 0 is followed, at that offset, by a
  chunk of the same list whose \<^verbatim>\<open>item_prev\<close> points back.
\<close>

lemma wr_run_linked: "wr_run wr_calloc calls = Some s \<Longrightarrow> linked (jls_wr_close s)"
  using wr_run_wr_inv[of calls s] by (simp add: wr_inv_def lists_inv_def jls_wr_close_def)

subsection \<open>The calls of the interface\<close>

text \<open>
  Claim C7. A call of \<^verbatim>\<open>jls_wr_source_def\<close> with a \<^verbatim>\<open>source_id\<close> whose entry of the
  source table is in use (a nonzero offset: so \<^verbatim>\<open>writer.c\<close> records a definition)
  returns \<^verbatim>\<open>JLS_ERROR_ALREADY_EXISTS\<close> and leaves the writer and the file as they
  are, in every state of the writer. A call that returned 0, on any writer whose file
  position is not 0, has put its source into the table, and no later call that returns
  takes it out or changes its entry: a second definition with the same
  \<^verbatim>\<open>source_id\<close> is refused after any such calls. So it is with source 0 on the
  writer that \<^verbatim>\<open>jls_wr_open\<close> returns, whatever bytes \<open>m\<close> follow the literal
  \<^verbatim>\<open>""\<close> of \<^verbatim>\<open>SIGNAL_0\<close>. A call whose behaviour C leaves undefined has no
  result here, and a session with such a call no state; the first statement does not
  depend on how the writer came to its state.
\<close>

theorem source_def_twice:
  "(unat (source_id b) < JLS_SOURCE_COUNT \<and> offset (source_info s (unat (source_id b))) \<noteq> 0
      \<longrightarrow> jls_wr_source_def s (Some b) = Failure JLS_ERROR_ALREADY_EXISTS s)
   \<and> (jls_wr_source_def u (Some a) = Success () u1 \<and> fpos (raw u) \<noteq> 0
        \<and> wr_run u1 calls = Some u2 \<and> source_id b = source_id a
      \<longrightarrow> jls_wr_source_def u2 (Some b) = Failure JLS_ERROR_ALREADY_EXISTS u2
          \<and> source_info u2 (unat (source_id a)) = source_info u1 (unat (source_id a)))
   \<and> (jls_wr_open_at m = Success () w \<and> wr_run w calls = Some w' \<and> source_id b = 0
      \<longrightarrow> jls_wr_source_def w' (Some b) = Failure JLS_ERROR_ALREADY_EXISTS w')"
proof (intro conjI impI)
  assume "unat (source_id b) < JLS_SOURCE_COUNT \<and> offset (source_info s (unat (source_id b))) \<noteq> 0"
  then show "jls_wr_source_def s (Some b) = Failure JLS_ERROR_ALREADY_EXISTS s"
    by (simp add: jls_wr_source_def_def)
next
  assume h: "jls_wr_source_def u (Some a) = Success () u1 \<and> fpos (raw u) \<noteq> 0
        \<and> wr_run u1 calls = Some u2 \<and> source_id b = source_id a"
  then show "jls_wr_source_def u2 (Some b) = Failure JLS_ERROR_ALREADY_EXISTS u2"
    and "source_info u2 (unat (source_id a)) = source_info u1 (unat (source_id a))"
    using source_def_refused[of u a u1 calls u2 b] by simp_all
next
  assume h: "jls_wr_open_at m = Success () w \<and> wr_run w calls = Some w' \<and> source_id b = 0"
  then have o: "jls_wr_open_at m = Success () w" and r: "wr_run w calls = Some w'"
    and e: "source_id b = source_id SOURCE_0" by (simp_all add: SOURCE_0_def)
  from open_at_steps[OF o] obtain v v1 where
    a: "jls_wr_user_data wr_calloc 0 JLS_STORAGE_TYPE_INVALID None 0 = Success () v"
    and b: "jls_wr_source_def v (Some SOURCE_0) = Success () v1"
    and c: "jls_wr_signal_def v1 (Some (SIGNAL_0_at m)) = Success () w" by blast
  from a have fp: "fpos (raw v) \<noteq> 0" by (rule first_chunk_fpos)
  from c r have r1: "wr_run v1 (Wr_signal_def (Some (SIGNAL_0_at m)) # calls) = Some w'" by simp
  from source_def_refused[OF b fp r1 e]
  show "jls_wr_source_def w' (Some b) = Failure JLS_ERROR_ALREADY_EXISTS w'" by simp
qed

theorem source_def_twice_witness:
  "\<exists>v v1 w w1.
     jls_wr_user_data wr_calloc 0 JLS_STORAGE_TYPE_INVALID None 0 = Success () v
     \<and> jls_wr_source_def v (Some SOURCE_0) = Success () v1
     \<and> wr_run v1 [Wr_signal_def (Some (SIGNAL_0_at [0]))] = Some w
     \<and> jls_wr_open_at [0] = Success () w
     \<and> jls_wr_source_def w (Some SOURCE_0) = Failure JLS_ERROR_ALREADY_EXISTS w
     \<and> jls_wr_source_def w (Some (SOURCE_1_at [0])) = Success () w1
     \<and> jls_wr_source_def w1 (Some (SOURCE_1_at [0])) = Failure JLS_ERROR_ALREADY_EXISTS w1"
proof -
  from perf_steps obtain v v1 w w1 where
    a: "jls_wr_user_data wr_calloc 0 JLS_STORAGE_TYPE_INVALID None 0 = Success () v"
    and b: "jls_wr_source_def v (Some SOURCE_0) = Success () v1"
    and c: "jls_wr_signal_def v1 (Some (SIGNAL_0_at [0])) = Success () w"
    and d: "jls_wr_source_def w (Some (SOURCE_1_at [0])) = Success () w1"
    by blast
  from c have r: "wr_run v1 [Wr_signal_def (Some (SIGNAL_0_at [0]))] = Some w" by simp
  have o: "jls_wr_open_at [0] = Success () w"
    by (simp add: jls_wr_open_at_def a b c roe_Success)
  have r0: "wr_run w [] = Some w" by simp
  have z: "source_id SOURCE_0 = 0" by (simp add: SOURCE_0_def)
  from source_def_twice[where m = "[0]" and w = w and calls = "[]" and w' = w and b = SOURCE_0] o r0 z
  have e: "jls_wr_source_def w (Some SOURCE_0) = Failure JLS_ERROR_ALREADY_EXISTS w" by simp
  from wr_run_wr_inv[OF open_at_run[OF o]]
  have fp2: "fpos (raw w) \<noteq> 0" using wr_inv_fpos[of w] by simp
  have r1: "wr_run w1 [] = Some w1" by simp
  from source_def_twice[where u = w and a = "SOURCE_1_at [0]" and ?u1.0 = w1 and calls = "[]"
      and ?u2.0 = w1 and b = "SOURCE_1_at [0]"] d fp2 r1
  have g: "jls_wr_source_def w1 (Some (SOURCE_1_at [0])) = Failure JLS_ERROR_ALREADY_EXISTS w1" by simp
  from a b r o e d g show ?thesis by blast
qed

text \<open>
  Claim C9 (the lists of the file stay linked after any sequence of calls, the lists of
  the data chunks of the tracks among them) fails where \<^verbatim>\<open>jls_wr_fsr_f32\<close> appends a
  data chunk. In every state of a session the other lists are linked, but
  \<^verbatim>\<open>info->track_type\<close> of a defined signal is the tag that \<^verbatim>\<open>jls_wr_signal_def\<close>
  stored there (\<open>0x22\<close> or \<open>0x2A\<close>), and the descriptor through which the data chunk is
  linked is \<^verbatim>\<open>info->tracks[info->track_type].data\<close>, outside the 4 elements of
  \<^verbatim>\<open>tracks\<close>, which the declaration says are indexed by the track type: a call with
  samples has no defined result.
\<close>

theorem fsr_f32_track_index:
  assumes "wr_run wr_calloc calls = Some s" and "signal_validate s sid = Success () s"
  shows "linked (jls_wr_close s)
         \<and> 4 \<le> unat (track_type (signal_info s (unat sid)))
         \<and> (n \<noteq> 0 \<longrightarrow> jls_wr_fsr_f32 s sid t d n = Undefined)"
proof -
  from assms(1) have inv: "wr_inv s" by (rule wr_run_wr_inv)
  from signal_validate_cases[of s sid] assms(2)
  have "offset (chunk_def (signal_info s (unat sid))) \<noteq> 0" by auto
  with inv have "4 \<le> unat (track_type (signal_info s (unat sid)))" by (simp add: wr_inv_def)
  with wr_run_linked[OF assms(1)] fsr_f32_undefined[OF inv assms(2)] show ?thesis by simp
qed

theorem fsr_f32_track_index_witness:
  "\<exists>s. wr_run wr_calloc (perf_calls [0]) = Some s
     \<and> signal_validate s 1 = Success () s
     \<and> track_type (signal_info s 1) = 0x22
     \<and> linked (jls_wr_close s)
     \<and> jls_wr_fsr_f32 s 1 0 (Some [0x3F800000]) 1 = Undefined"
proof -
  from perf_state obtain s where r: "wr_run wr_calloc (perf_calls [0]) = Some s"
    and v: "signal_validate s 1 = Success () s"
    and t: "track_type (signal_info s 1) = JLS_TAG_TRACK_FSR_DATA" by blast
  from fsr_f32_track_index[OF r v, of 1 0 "Some [0x3F800000]"] r v t show ?thesis
    by (auto simp: JLS_TAG_TRACK_FSR_DATA_def)
qed

text \<open>
  Claim C1 (a stream written with \<^verbatim>\<open>jls_wr_fsr_f32\<close> is read back as it was written)
  fails at the write. After the calls of \<^verbatim>\<open>example/performance.c\<close> that define source
  1 and signal 1, the write of a stream of three samples to signal 1 has no defined
  result: the loop of \<^verbatim>\<open>jls_wr_fsr_f32\<close> does not advance \<^verbatim>\<open>data\<close> or
  \<^verbatim>\<open>data_length\<close>, so it copies the three samples until the buffer of 100000 is
  full, and then selects the track with the tag \<open>0x22\<close> as index.
\<close>

theorem fsr_f32_stream_write:
  "\<exists>s. jls_wr_open_at [0] \<noteq> Undefined
     \<and> wr_run wr_calloc (perf_calls [0]) = Some s
     \<and> jls_wr_fsr_f32 s 1 0 (Some [0x3F800000, 0x40000000, 0x40400000]) 3 = Undefined"
proof -
  from perf_state obtain s where r: "wr_run wr_calloc (perf_calls [0]) = Some s"
    and v: "signal_validate s 1 = Success () s" by blast
  from perf_steps obtain s1 s2 s3 where
    "jls_wr_user_data wr_calloc 0 JLS_STORAGE_TYPE_INVALID None 0 = Success () s1"
    "jls_wr_source_def s1 (Some SOURCE_0) = Success () s2"
    "jls_wr_signal_def s2 (Some (SIGNAL_0_at [0])) = Success () s3" by blast
  then have o: "jls_wr_open_at [0] \<noteq> Undefined"
    by (simp add: jls_wr_open_at_def roe_Success)
  have "jls_wr_fsr_f32 s 1 0 (Some [0x3F800000, 0x40000000, 0x40400000]) 3 = Undefined"
    by (rule fsr_f32_undefined[OF wr_run_wr_inv[OF r] v]) simp
  with r o show ?thesis by blast
qed

text \<open>
  Claim C2 (a call of \<^verbatim>\<open>jls_wr_fsr_f32\<close> consumes all of its input: its loop goes on
  until \<^verbatim>\<open>data_length == 0\<close>) fails for every call with samples. The loop changes
  neither \<^verbatim>\<open>data\<close> nor \<^verbatim>\<open>data_length\<close>, so it is never left through its condition:
  it ends in the branch that writes one chunk and returns, or in an undefined copy.
\<close>

theorem fsr_loop_never_consumed:
  "data_length \<noteq> 0 \<Longrightarrow> fsr_loop b data data_length \<noteq> Fsr_Return0 b'"
  using fsr_loop_Return0[of b data data_length b'] by blast

theorem fsr_loop_never_consumed_witness:
  "fsr_loop \<lparr>sb_length = 100000, sb_offset = 0, sb_timestamp = 0, sb_data = replicate 100000 0\<rparr>
      (Some (replicate 100001 0x3F800000)) 100001
     = Fsr_Emit \<lparr>sb_length = 100000, sb_offset = 100000, sb_timestamp = 0,
                   sb_data = replicate 100000 0x3F800000\<rparr> 100000
   \<and> fsr_loop \<lparr>sb_length = 100000, sb_offset = 0, sb_timestamp = 0, sb_data = replicate 100000 0\<rparr>
      (Some (replicate 100001 0x3F800000)) 100001
     \<noteq> Fsr_Return0 \<lparr>sb_length = 100000, sb_offset = 0, sb_timestamp = 0,
                   sb_data = replicate 100000 0\<rparr>"
proof
  have m: "memcpy_f32 (replicate 100000 0) 100000 0 (Some (replicate 100001 0x3F800000)) 100000
             = Some (replicate 100000 0x3F800000)"
    by (simp add: memcpy_f32_def)
  show "fsr_loop \<lparr>sb_length = 100000, sb_offset = 0, sb_timestamp = 0, sb_data = replicate 100000 0\<rparr>
      (Some (replicate 100001 0x3F800000)) 100001
     = Fsr_Emit \<lparr>sb_length = 100000, sb_offset = 100000, sb_timestamp = 0,
                   sb_data = replicate 100000 0x3F800000\<rparr> 100000"
    by (subst fsr_loop.simps) (simp add: m Let_def del: replicate.simps)
  have "(100001 :: 32 word) \<noteq> 0" by simp
  then show "fsr_loop \<lparr>sb_length = 100000, sb_offset = 0, sb_timestamp = 0, sb_data = replicate 100000 0\<rparr>
      (Some (replicate 100001 0x3F800000)) 100001
     \<noteq> Fsr_Return0 \<lparr>sb_length = 100000, sb_offset = 0, sb_timestamp = 0,
                   sb_data = replicate 100000 0\<rparr>"
    by (rule fsr_loop_never_consumed)
qed

text \<open>
  Claim C10 (\<^verbatim>\<open>jls_wr_fsr_f32\<close> on a defined VSR signal is accepted and writes the
  samples into the track of that signal). The validation is as the claim says: on a
  defined VSR signal of a session the call returns no error code, where
  \<^verbatim>\<open>jls_wr_fsr_utc\<close> and \<^verbatim>\<open>jls_wr_fsr_annotation\<close> return
  \<^verbatim>\<open>JLS_ERROR_NOT_SUPPORTED\<close>, and a call without samples returns 0. But a call with
  samples does not write them into a track of the signal: it selects the track with the
  tag \<open>0x2A\<close> as index and has no defined result.
\<close>

theorem fsr_f32_on_vsr:
  assumes "wr_run wr_calloc calls = Some s" and "signal_validate s sid = Success () s"
    and "signal_type (signal_def (signal_info s (unat sid))) = JLS_SIGNAL_TYPE_VSR"
  shows "jls_wr_fsr_f32 s sid t d 0 = Success () s
         \<and> (n \<noteq> 0 \<longrightarrow> jls_wr_fsr_f32 s sid t d n = Undefined)
         \<and> jls_wr_fsr_utc s sid t u = Failure JLS_ERROR_NOT_SUPPORTED s
         \<and> jls_wr_fsr_annotation s sid t a st d' n' = Failure JLS_ERROR_NOT_SUPPORTED s"
proof -
  from assms(1) have inv: "wr_inv s" by (rule wr_run_wr_inv)
  have ty: "signal_validate_typed s sid JLS_SIGNAL_TYPE_FSR = Failure JLS_ERROR_NOT_SUPPORTED s"
    using assms(2,3)
    by (simp add: signal_validate_typed_def roe_Success JLS_SIGNAL_TYPE_VSR_def JLS_SIGNAL_TYPE_FSR_def)
  show ?thesis
    using fsr_f32_zero[OF assms(2)] fsr_f32_undefined[OF inv assms(2)] ty
    by (simp add: jls_wr_fsr_utc_def jls_wr_fsr_annotation_def roe_Failure)
qed

theorem fsr_f32_on_vsr_witness:
  "\<exists>s. wr_run wr_calloc (perf_calls [0]) = Some s
     \<and> signal_validate s 0 = Success () s
     \<and> signal_type (signal_def (signal_info s 0)) = JLS_SIGNAL_TYPE_VSR
     \<and> track_type (signal_info s 0) = 0x2A
     \<and> jls_wr_fsr_f32 s 0 0 None 0 = Success () s
     \<and> jls_wr_fsr_f32 s 0 0 (Some [0x3F800000]) 1 = Undefined
     \<and> jls_wr_fsr_utc s 0 0 0 = Failure JLS_ERROR_NOT_SUPPORTED s
     \<and> jls_wr_fsr_annotation s 0 0 0 JLS_STORAGE_TYPE_STRING (literal ''a'') 2
           = Failure JLS_ERROR_NOT_SUPPORTED s"
proof -
  from perf_state obtain s where r: "wr_run wr_calloc (perf_calls [0]) = Some s"
    and v: "signal_validate s 0 = Success () s"
    and ty: "signal_type (signal_def (signal_info s 0)) = JLS_SIGNAL_TYPE_VSR"
    and t: "track_type (signal_info s 0) = JLS_TAG_TRACK_VSR_DATA" by blast
  from v have v': "signal_validate s 0 = Success () s" .
  have u0: "unat (0 :: 16 word) = 0" by simp
  from ty have ty': "signal_type (signal_def (signal_info s (unat (0 :: 16 word)))) = JLS_SIGNAL_TYPE_VSR"
    by simp
  from fsr_f32_on_vsr[OF r v ty', of 0 None 1 0 0 JLS_STORAGE_TYPE_STRING "literal ''a''" 2]
    fsr_f32_on_vsr[OF r v ty', of 0 "Some [0x3F800000]" 1 0 0 JLS_STORAGE_TYPE_STRING "literal ''a''" 2]
    r v ty t
  show ?thesis by (auto simp: JLS_TAG_TRACK_VSR_DATA_def)
qed




text \<open>
  Claim C3 (the definitions are read back as they were written) fails for the signal
  definitions. \<^verbatim>\<open>jls_wr_signal_def\<close> writes, after \<^verbatim>\<open>data_type\<close> and
  \<^verbatim>\<open>sample_rate\<close>, the fields \<^verbatim>\<open>summary_decimate_factor\<close>,
  \<^verbatim>\<open>decimations_per_chunk\<close>, \<^verbatim>\<open>utc_rate_auto\<close> and 68 zero bytes;
  \<^verbatim>\<open>handle_signal_def\<close> parses there \<^verbatim>\<open>samples_per_data\<close>,
  \<^verbatim>\<open>sample_decimate_factor\<close>, \<^verbatim>\<open>entries_per_summary\<close>,
  \<^verbatim>\<open>summary_decimate_factor\<close>, \<^verbatim>\<open>utc_rate_auto\<close> and skips 64 bytes. The
  \<^verbatim>\<open>SIGNAL_1\<close> of \<^verbatim>\<open>example/performance.c\<close> (\<^verbatim>\<open>samples_per_data = 100000\<close>,
  \<^verbatim>\<open>sample_decimate_factor = 100\<close>, \<^verbatim>\<open>entries_per_summary = 20000\<close>,
  \<^verbatim>\<open>summary_decimate_factor = 100\<close>, name \<^verbatim>\<open>"performance_1"\<close>) is read back with
  100, 1000, 0, 0 and the name \<^verbatim>\<open>"ormance_1"\<close>.
\<close>

theorem signal_def_read_back:
  "\<exists>s r. wr_run wr_calloc (perf_calls [0]) = Some s
     \<and> jls_rd_open (jls_wr_close s) = Some (Success () r)
     \<and> rd_signal_def r 1 \<in> set (jls_rd_signals r)
     \<and> samples_per_data (rd_signal_def r 1) = 100
     \<and> sample_decimate_factor (rd_signal_def r 1) = 1000
     \<and> entries_per_summary (rd_signal_def r 1) = 0
     \<and> summary_decimate_factor (rd_signal_def r 1) = 0
     \<and> sig_name (rd_signal_def r 1) = literal ''ormance_1''"
proof -
  have "\<exists>s r. wr_run wr_calloc (perf_calls [0]) = Some s
     \<and> jls_rd_open (jls_wr_close s) = Some (Success () r)
     \<and> signal_id (rd_signal_def r 1) = 1
     \<and> samples_per_data (rd_signal_def r 1) = 100
     \<and> sample_decimate_factor (rd_signal_def r 1) = 1000
     \<and> entries_per_summary (rd_signal_def r 1) = 0
     \<and> summary_decimate_factor (rd_signal_def r 1) = 0
     \<and> sig_name (rd_signal_def r 1) = literal ''ormance_1''"
    by (simp add: perf_calls_def open_calls_def SIGNAL_0_at_def SOURCE_1_at_def SIGNAL_1_perf_def
      SIGNAL_1_def wr_defs const_defs Let_def upt_0_8 rd_defs
      scan_loop.simps scan_sources_loop.simps scan_signals_loop.simps
      nth_append cong: roe_weak_cong ignore_rc_weak_cong)
  then obtain s r where a: "wr_run wr_calloc (perf_calls [0]) = Some s"
    "jls_rd_open (jls_wr_close s) = Some (Success () r)"
    and i: "signal_id (rd_signal_def r 1) = 1"
    and f: "samples_per_data (rd_signal_def r 1) = 100"
      "sample_decimate_factor (rd_signal_def r 1) = 1000"
      "entries_per_summary (rd_signal_def r 1) = 0"
      "summary_decimate_factor (rd_signal_def r 1) = 0"
      "sig_name (rd_signal_def r 1) = literal ''ormance_1''"
    by blast
  from i have "(1::nat) \<in> set (filter (\<lambda>i. signal_id (rd_signal_def r i) = of_nat i) [0..<JLS_SIGNAL_COUNT])"
    by (simp add: JLS_SIGNAL_COUNT_def)
  then have "rd_signal_def r 1 \<in> set (jls_rd_signals r)"
    unfolding jls_rd_signals_def set_map by (rule imageI)
  with a f show ?thesis by blast
qed

text \<open>
  Claim C4 (\<^verbatim>\<open>seek\<close> clamps the index into the entries of the index chunk) fails:
  \<^verbatim>\<open>seek\<close> checks the number of entries against the length of the payload and uses
  \<open>idx = (sample_id - chunk_timestamp) / step_size\<close> as it is. In a file whose level-1
  index chunk has one entry, for the samples 0 to 9 of signal 1, the sample 5 is found in
  the data chunk at 481; for the sample 10 the read of \<^verbatim>\<open>payload[3]\<close> and for the
  sample -30 the read of \<^verbatim>\<open>payload[-1]\<close> are outside the payload; for the sample -10
  the number of entries, \<^verbatim>\<open>payload[1] = 1\<close>, is taken as the offset of the chunk.
\<close>

theorem seek_index_unclamped:
  "\<exists>r. jls_rd_open index_file = Some (Success () r)
     \<and> (\<exists>r'. seek r 1 0 5 = Success () r' \<and> fpos (rd_raw r') = 481)
     \<and> seek r 1 0 10 = Undefined
     \<and> seek r 1 0 (- 30) = Undefined
     \<and> (\<exists>r'. seek r 1 0 (- 10) = Success () r' \<and> fpos (rd_raw r') = 1)"
  by (simp add: index_file_def le64_def wr_defs const_defs Let_def upt_0_8 upt_0_4 rd_defs
      scan_loop.simps scan_sources_loop.simps scan_signals_loop.simps find_level_7
      nth_append cong: roe_weak_cong ignore_rc_weak_cong)
end
